(* ===== verification/Gallery_Prelude.thy ===== *)
theory Gallery_Prelude
  imports Complex_Main "HOL-Library.Char_ord" "HOL-Library.List_Lexorder"
begin

text \<open>
  Shared vocabulary of the development: results of Python functions that may raise, the
  dictionaries and sets of the source, and the string primitives it uses.

  A Python \<open>str\<close> is the list of its code points. The type \<^typ>\<open>string\<close> has the code points
  U+0000 to U+00FF, so every function on strings below is the Python one restricted to that
  alphabet. A Python \<open>float\<close> is the exact rational it stands for.
\<close>

named_theorems py_defs \<open>definitions of the Python primitives\<close>
named_theorems table_defs \<open>constant tables of the source\<close>

section \<open>Dictionaries with literal keys\<close>

type_synonym ('k, 'v) dict = "('k \<times> 'v) list"

text \<open>\<open>d.get(k, default)\<close>\<close>

definition dict_get :: "('k, 'v) dict \<Rightarrow> 'k \<Rightarrow> 'v \<Rightarrow> 'v" where
  "dict_get d k v = (case map_of d k of None \<Rightarrow> v | Some x \<Rightarrow> x)"

text \<open>\<open>k in d\<close>\<close>

definition dict_has :: "('k, 'v) dict \<Rightarrow> 'k \<Rightarrow> bool" where
  "dict_has d k \<longleftrightarrow> k \<in> set (map fst d)"

lemma dict_has_iff: "dict_has d k \<longleftrightarrow> map_of d k \<noteq> None"
  by (simp add: dict_has_def map_of_eq_None_iff)

lemma dict_get_hit: "map_of d k = Some v \<Longrightarrow> dict_get d k w = v"
  by (simp add: dict_get_def)

lemma dict_get_miss: "map_of d k = None \<Longrightarrow> dict_get d k w = w"
  by (simp add: dict_get_def)


section \<open>Results of functions that may raise\<close>

text \<open>\<open>bindE m f\<close> runs \<open>f\<close> on the value of \<open>m\<close>; an exception of \<open>m\<close> propagates.\<close>

definition bindE :: "'err + 'p \<Rightarrow> ('p \<Rightarrow> 'err + 'q) \<Rightarrow> 'err + 'q" where
  "bindE run k = (case run of Inr v \<Rightarrow> k v | Inl raised \<Rightarrow> Inl raised)"

lemma bindE_simps [simp]: "bindE (Inr v) k = k v" "bindE (Inl raised) k = Inl raised"
  by (simp_all add: bindE_def)

lemma bindE_Inr: "bindE run k = Inr r \<longleftrightarrow> (\<exists>v. run = Inr v \<and> k v = Inr r)"
  by (cases run) auto

lemma bindE_Inl: "bindE run k = Inl raised \<longleftrightarrow> run = Inl raised \<or> (\<exists>v. run = Inr v \<and> k v = Inl raised)"
  by (cases run) auto

text \<open>A loop over a list whose body may raise.\<close>

fun mapE :: "('p \<Rightarrow> 'err + 'q) \<Rightarrow> 'p list \<Rightarrow> 'err + 'q list" where
  "mapE body [] = Inr []"
| "mapE body (item # rest) = bindE (body item) (\<lambda>out. bindE (mapE body rest) (\<lambda>outs. Inr (out # outs)))"

lemma mapE_Inr: "(\<And>x. x \<in> set xs \<Longrightarrow> body x = Inr (g x)) \<Longrightarrow> mapE body xs = Inr (map g xs)"
  by (induction xs) auto

section \<open>Strings\<close>

text \<open>\<open>str.isspace\<close> on one code point, \<open>str.strip\<close>, \<open>str.startswith\<close>, \<open>str.endswith\<close>, \<open>in\<close>.\<close>

definition py_isspace :: "char \<Rightarrow> bool" where
  "py_isspace c \<longleftrightarrow>
    (let n = (of_char c :: nat)
     in 9 \<le> n \<and> n \<le> 13 \<or> 28 \<le> n \<and> n \<le> 32 \<or> n = 133 \<or> n = 160)"

definition py_lstrip :: "string \<Rightarrow> string" where
  "py_lstrip s = dropWhile py_isspace s"

definition py_strip :: "string \<Rightarrow> string" where
  "py_strip s = rev (dropWhile py_isspace (rev (py_lstrip s)))"

definition startswith :: "string \<Rightarrow> string \<Rightarrow> bool" where
  "startswith s p \<longleftrightarrow> take (length p) s = p"

definition endswith :: "string \<Rightarrow> string \<Rightarrow> bool" where
  "endswith s p \<longleftrightarrow> startswith (rev s) (rev p)"

fun str_in :: "string \<Rightarrow> string \<Rightarrow> bool" where
  "str_in p [] = (p = [])"
| "str_in p (c # cs) = (startswith (c # cs) p \<or> str_in p cs)"

text \<open>\<open>str.lower\<close>: the capital letters of the alphabet are A to Z, U+00C0 to U+00D6 and
  U+00D8 to U+00DE.\<close>

definition lower_char :: "char \<Rightarrow> char" where
  "lower_char c =
    (let n = (of_char c :: nat)
     in if 65 \<le> n \<and> n \<le> 90 \<or> 192 \<le> n \<and> n \<le> 214 \<or> 216 \<le> n \<and> n \<le> 222
        then char_of (n + 32) else c)"

definition py_lower :: "string \<Rightarrow> string" where
  "py_lower s = map lower_char s"

lemmas py_string_defs [py_defs] =
  py_isspace_def py_lstrip_def py_strip_def startswith_def endswith_def lower_char_def py_lower_def

lemma startswith_append [simp]: "startswith (p @ s) p"
  by (simp add: startswith_def)

lemma lower_char_idem [simp]: "lower_char (lower_char c) = lower_char c"
proof -
  have "(of_char c :: nat) < 256" by simp
  then show ?thesis by (auto simp: lower_char_def Let_def)
qed

lemma py_lower_idem [simp]: "py_lower (py_lower s) = py_lower s"
  by (simp add: py_lower_def)

lemma length_py_lower [simp]: "length (py_lower s) = length s"
  by (simp add: py_lower_def)

text \<open>\<open>str.split\<close> on one separator character, \<open>str.replace\<close> of one character, \<open>str.partition\<close>.\<close>

fun split_on :: "char \<Rightarrow> string \<Rightarrow> string list" where
  "split_on c [] = [[]]"
| "split_on c (x # xs) =
    (if x = c then [] # split_on c xs
     else case split_on c xs of [] \<Rightarrow> [[x]] | w # ws \<Rightarrow> (x # w) # ws)"

definition replace_char :: "char \<Rightarrow> char \<Rightarrow> string \<Rightarrow> string" where
  "replace_char a b s = map (\<lambda>c. if c = a then b else c) s"

text \<open>\<open>list(dict.fromkeys(xs))\<close>: the first occurrence of each element, in order.\<close>

fun dedup_from :: "'a list \<Rightarrow> 'a list \<Rightarrow> 'a list" where
  "dedup_from seen [] = []"
| "dedup_from seen (x # xs) =
    (if x \<in> set seen then dedup_from seen xs else x # dedup_from (x # seen) xs)"

definition dedup :: "'a list \<Rightarrow> 'a list" where
  "dedup xs = dedup_from [] xs"

lemma dedup_from_props:
  "set (dedup_from seen xs) = set xs - set seen \<and> distinct (dedup_from seen xs)"
  by (induction xs arbitrary: seen) auto

lemma set_dedup [simp]: "set (dedup xs) = set xs" and distinct_dedup [simp]: "distinct (dedup xs)"
  using dedup_from_props [of "[]" xs] by (simp_all add: dedup_def)

section \<open>Numbers\<close>

text \<open>
  A Python float is modelled by a rational number, without the rounding of its operations.
  \<open>int(x)\<close> cuts the fraction off, \<open>round(x, n)\<close> rounds half to even.
\<close>

definition py_trunc :: "rat \<Rightarrow> int" where
  "py_trunc x = (if 0 \<le> x then \<lfloor>x\<rfloor> else \<lceil>x\<rceil>)"

definition round_half_even :: "rat \<Rightarrow> int" where
  "round_half_even x =
    (let f = \<lfloor>x\<rfloor>; d = x - of_int f
     in if d < 1/2 then f else if 1/2 < d then f + 1 else if even f then f else f + 1)"

definition py_round :: "rat \<Rightarrow> nat \<Rightarrow> rat" where
  "py_round x n = of_int (round_half_even (x * 10 ^ n)) / 10 ^ n"

lemma round_half_even_int [simp]: "round_half_even (of_int k) = k"
  by (simp add: round_half_even_def)

lemma round_half_even_mono:
  assumes "x \<le> y"
  shows "round_half_even x \<le> round_half_even y"
proof -
  define f g where "f = \<lfloor>x\<rfloor>" and "g = \<lfloor>y\<rfloor>"
  have fg: "f \<le> g" using assms by (simp add: f_def g_def floor_mono)
  have bounds: "f \<le> round_half_even x" "round_half_even x \<le> f + 1"
      "g \<le> round_half_even y" "round_half_even y \<le> g + 1"
    by (auto simp: round_half_even_def Let_def f_def g_def)
  show ?thesis
  proof (cases "f = g")
    case True
    then have "x - of_int f \<le> y - of_int g" using assms by simp
    with True show ?thesis
      unfolding round_half_even_def Let_def f_def [symmetric] g_def [symmetric] by auto
  next
    case False
    with fg bounds show ?thesis by simp
  qed
qed

lemma py_round_mono: "x \<le> y \<Longrightarrow> py_round x n \<le> py_round y n"
  by (simp add: py_round_def divide_right_mono round_half_even_mono mult_right_mono)

lemma py_round_fix:
  assumes "x * 10 ^ n = of_int k"
  shows "py_round x n = x"
proof -
  have "py_round x n = of_int k / 10 ^ n" unfolding py_round_def assms by simp
  also have "\<dots> = x" unfolding assms [symmetric] by simp
  finally show ?thesis .
qed

lemma py_trunc_le: "0 \<le> x \<Longrightarrow> of_int (py_trunc x) \<le> x"
  by (simp add: py_trunc_def)

lemma py_trunc_mono: "x \<le> y \<Longrightarrow> py_trunc x \<le> py_trunc y"
  by (auto simp: py_trunc_def floor_mono ceiling_mono)
     (smt (verit) ceiling_le_zero zero_le_floor le_less_linear less_le_not_le)

end
