(* ===== verification/Task_State.thy ===== *)
theory Task_State
  imports Gallery_Prelude
begin

text \<open>
  The task state machine of \<^verbatim>\<open>backend/app/models/task_state.py\<close>: status constants, the two
  transition tables, the mapping of old status strings, and the one function
  \<^verbatim>\<open>_transition\<close> that validates and applies a status change.

  A job is any record with a \<^verbatim>\<open>status\<close> and an \<^verbatim>\<open>error_log\<close>; the transition functions are
  polymorphic in the other columns, which they do not touch. The exception
  \<^verbatim>\<open>InvalidTaskTransition\<close> is the left side of the result.
\<close>

section \<open>Status constants and status sets\<close>

abbreviation ENQUEUED :: string where "ENQUEUED \<equiv> ''enqueued''"
abbreviation DOWNLOADING :: string where "DOWNLOADING \<equiv> ''downloading''"
abbreviation DOWNLOADED :: string where "DOWNLOADED \<equiv> ''downloaded''"
abbreviation IMPORTING :: string where "IMPORTING \<equiv> ''importing''"
abbreviation COMPLETE :: string where "COMPLETE \<equiv> ''complete''"
abbreviation PAUSED :: string where "PAUSED \<equiv> ''paused''"
abbreviation CANCELLED :: string where "CANCELLED \<equiv> ''cancelled''"
abbreviation FAILED :: string where "FAILED \<equiv> ''failed''"
abbreviation STALE :: string where "STALE \<equiv> ''stale''"
abbreviation RUNNING :: string where "RUNNING \<equiv> ''running''"

definition DOWNLOAD_TERMINAL_STATUSES :: "string list" where
  "DOWNLOAD_TERMINAL_STATUSES = [COMPLETE, CANCELLED, FAILED]"

definition DOWNLOAD_RUNNING_STATUSES :: "string list" where
  "DOWNLOAD_RUNNING_STATUSES = [ENQUEUED, DOWNLOADING, DOWNLOADED, IMPORTING]"

definition DOWNLOAD_RETRYABLE_STATUSES :: "string list" where
  "DOWNLOAD_RETRYABLE_STATUSES = [FAILED, STALE, DOWNLOADING, COMPLETE]"

definition DOWNLOAD_PAUSABLE_STATUSES :: "string list" where
  "DOWNLOAD_PAUSABLE_STATUSES = [ENQUEUED, DOWNLOADING, DOWNLOADED, IMPORTING]"

definition DOWNLOAD_CANCELLABLE_STATUSES :: "string list" where
  "DOWNLOAD_CANCELLABLE_STATUSES =
     [ENQUEUED, DOWNLOADING, DOWNLOADED, IMPORTING, PAUSED, FAILED, STALE]"

definition IMPORT_TERMINAL_STATUSES :: "string list" where
  "IMPORT_TERMINAL_STATUSES = [COMPLETE, CANCELLED, FAILED]"

definition IMPORT_PAUSABLE_STATUSES :: "string list" where
  "IMPORT_PAUSABLE_STATUSES = [ENQUEUED, RUNNING]"

definition IMPORT_CANCELLABLE_STATUSES :: "string list" where
  "IMPORT_CANCELLABLE_STATUSES = [ENQUEUED, RUNNING, PAUSED, FAILED, STALE]"

section \<open>Transition tables\<close>

definition ALLOWED_DOWNLOAD_TRANSITIONS :: "(string, string list) dict" where
  "ALLOWED_DOWNLOAD_TRANSITIONS =
    [(ENQUEUED, [DOWNLOADING, PAUSED, CANCELLED, FAILED, STALE]),
     (DOWNLOADING, [DOWNLOADED, PAUSED, CANCELLED, FAILED, STALE]),
     (DOWNLOADED, [IMPORTING, COMPLETE, PAUSED, CANCELLED, FAILED, STALE]),
     (IMPORTING, [COMPLETE, PAUSED, CANCELLED, FAILED, STALE]),
     (PAUSED, [ENQUEUED, IMPORTING, CANCELLED, FAILED, STALE]),
     (FAILED, [ENQUEUED, CANCELLED, IMPORTING]),
     (STALE, [ENQUEUED, CANCELLED, IMPORTING]),
     (COMPLETE, [ENQUEUED]),
     (CANCELLED, [])]"

definition ALLOWED_IMPORT_TRANSITIONS :: "(string, string list) dict" where
  "ALLOWED_IMPORT_TRANSITIONS =
    [(ENQUEUED, [RUNNING, PAUSED, CANCELLED, FAILED, STALE]),
     (RUNNING, [COMPLETE, PAUSED, CANCELLED, FAILED, STALE]),
     (PAUSED, [ENQUEUED, CANCELLED, FAILED, STALE]),
     (FAILED, [ENQUEUED, CANCELLED]),
     (STALE, [ENQUEUED, CANCELLED]),
     (COMPLETE, []),
     (CANCELLED, [])]"

definition OLD_TO_NEW_DOWNLOAD :: "(string, string) dict" where
  "OLD_TO_NEW_DOWNLOAD =
    [(''pending'', ENQUEUED), (''downloading'', DOWNLOADING), (''downloaded'', DOWNLOADED),
     (''importing'', IMPORTING), (''complete'', COMPLETE), (''paused'', PAUSED),
     (''failed'', FAILED), (''stale'', STALE)]"

definition OLD_TO_NEW_IMPORT :: "(string, string) dict" where
  "OLD_TO_NEW_IMPORT =
    [(''pending'', ENQUEUED), (''running'', RUNNING), (''complete'', COMPLETE),
     (''failed'', FAILED), (''stale'', STALE)]"

lemmas task_tables [table_defs] =
  DOWNLOAD_TERMINAL_STATUSES_def DOWNLOAD_RUNNING_STATUSES_def DOWNLOAD_RETRYABLE_STATUSES_def
  DOWNLOAD_PAUSABLE_STATUSES_def DOWNLOAD_CANCELLABLE_STATUSES_def
  IMPORT_TERMINAL_STATUSES_def IMPORT_PAUSABLE_STATUSES_def IMPORT_CANCELLABLE_STATUSES_def
  ALLOWED_DOWNLOAD_TRANSITIONS_def ALLOWED_IMPORT_TRANSITIONS_def
  OLD_TO_NEW_DOWNLOAD_def OLD_TO_NEW_IMPORT_def

section \<open>Applying a transition\<close>

record job =
  status :: string
  error_log :: "string option"

text \<open>The exception carries what its message shows: both statuses and the sorted targets.\<close>

datatype task_error = InvalidTaskTransition string string "string list"

definition normalize_status :: "string \<Rightarrow> (string, string) dict \<Rightarrow> string" where
  "normalize_status s mapping = dict_get mapping s s"

definition set_error_log :: "string option \<Rightarrow> 'a job_scheme \<Rightarrow> 'a job_scheme" where
  "set_error_log e j = (case e of None \<Rightarrow> j | Some x \<Rightarrow> j\<lparr>error_log := Some x\<rparr>)"

definition task_transition ::
  "'a job_scheme \<Rightarrow> (string, string list) dict \<Rightarrow> string \<Rightarrow> string option
   \<Rightarrow> (string, string) dict \<Rightarrow> task_error + 'a job_scheme" where
  "task_transition j allowed new_status error status_mapping =
    (let new = normalize_status new_status status_mapping;
         old = normalize_status (status j) status_mapping
     in if old = new then Inr (set_error_log error j)
        else let targets = dict_get allowed old []
             in if new \<notin> set targets
                then Inl (InvalidTaskTransition old new (sort targets))
                else Inr (set_error_log error (j\<lparr>status := new\<rparr>)))"




text \<open>
  Callers apply a sequence of changes to one job; a rejected change raises and leaves the row
  as it was. \<open>reaches\<close> is that relation between the rows before and after.
\<close>

inductive reaches ::
  "(string, string list) dict \<Rightarrow> (string, string) dict \<Rightarrow> 'a job_scheme \<Rightarrow> 'a job_scheme \<Rightarrow> bool"
  for allowed mapping where
  reaches_refl: "reaches allowed mapping j j"
| reaches_step: "reaches allowed mapping j j' \<Longrightarrow>
     task_transition j' allowed new e mapping = Inr j'' \<Longrightarrow> reaches allowed mapping j j''"

section \<open>What every transition does\<close>

lemma set_error_log_simps [simp]:
  "status (set_error_log e j) = status j"
  "job.more (set_error_log e j) = job.more j"
  "error_log (set_error_log e j) = (case e of None \<Rightarrow> error_log j | Some x \<Rightarrow> Some x)"
  by (simp_all add: set_error_log_def split: option.split)

lemma task_transition_Inr:
  "task_transition j allowed new e mapping = Inr j' \<longleftrightarrow>
     (let old = normalize_status (status j) mapping; tgt = normalize_status new mapping
      in old = tgt \<and> j' = set_error_log e j \<or>
         old \<noteq> tgt \<and> tgt \<in> set (dict_get allowed old []) \<and>
         j' = set_error_log e (j\<lparr>status := tgt\<rparr>))"
  by (auto simp: task_transition_def Let_def)

lemma task_transition_Inl:
  "task_transition j allowed new e mapping = Inl err \<longleftrightarrow>
     (let old = normalize_status (status j) mapping; tgt = normalize_status new mapping
      in old \<noteq> tgt \<and> tgt \<notin> set (dict_get allowed old []) \<and>
         err = InvalidTaskTransition old tgt (sort (dict_get allowed old [])))"
  by (auto simp: task_transition_def Let_def)

lemma task_transition_frame:
  "task_transition j allowed new e mapping = Inr j' \<Longrightarrow> job.more j' = job.more j"
  by (auto simp: task_transition_Inr Let_def)

section \<open>The interface of a status machine\<close>

text \<open>
  A transition table with its status mapping is a status machine when the table is closed
  under its own targets, the mapping only renames statuses into the table and leaves table
  statuses alone, and \<open>cancelled\<close> has no way out.
\<close>

locale status_machine =
  fixes allowed :: "(string, string list) dict"
    and mapping :: "(string, string) dict"
  assumes targets_known:
      "map_of allowed s = Some ts \<Longrightarrow> t \<in> set ts \<Longrightarrow> dict_has allowed t"
    and mapping_known: "map_of mapping s = Some t \<Longrightarrow> dict_has allowed t"
    and mapping_stable: "dict_has allowed t \<Longrightarrow> normalize_status t mapping = t"
    and cancelled_final: "map_of allowed CANCELLED = Some []"
begin

definition known :: "'a job_scheme \<Rightarrow> bool" where
  "known j \<longleftrightarrow> dict_has allowed (normalize_status (status j) mapping)"

lemma target_known: "t \<in> set (dict_get allowed s []) \<Longrightarrow> dict_has allowed t"
  by (cases "map_of allowed s") (auto simp: dict_get_def intro: targets_known)

lemma transition_known:
  assumes "known j" and "task_transition j allowed new e mapping = Inr j'"
  shows "known j'"
  using assms target_known mapping_stable
  by (auto simp: known_def task_transition_Inr Let_def)

lemma reaches_known: "reaches allowed mapping j j' \<Longrightarrow> known j \<Longrightarrow> known j'"
  by (induction rule: reaches.induct) (auto intro: transition_known)

lemma cancelled_stays:
  assumes "status j = CANCELLED" and "task_transition j allowed new e mapping = Inr j'"
  shows "status j' = CANCELLED"
proof -
  have "dict_has allowed CANCELLED"
    by (simp add: dict_has_iff cancelled_final)
  then have norm: "normalize_status CANCELLED mapping = CANCELLED"
    by (rule mapping_stable)
  have "dict_get allowed CANCELLED [] = []"
    by (simp add: dict_get_def cancelled_final)
  with norm assms show ?thesis
    by (auto simp: task_transition_Inr Let_def)
qed

lemma reaches_cancelled:
  "reaches allowed mapping j j' \<Longrightarrow> status j = CANCELLED \<Longrightarrow> status j' = CANCELLED"
  by (induction rule: reaches.induct) (auto intro: cancelled_stays)

end

lemma normalize_simp: "normalize_status s m = (case map_of m s of None \<Rightarrow> s | Some t \<Rightarrow> t)"
  by (simp add: normalize_status_def dict_get_def)

interpretation download_machine: status_machine ALLOWED_DOWNLOAD_TRANSITIONS OLD_TO_NEW_DOWNLOAD
  by unfold_locales
    (auto simp: task_tables dict_has_def normalize_simp split: if_splits)

interpretation import_machine: status_machine ALLOWED_IMPORT_TRANSITIONS OLD_TO_NEW_IMPORT
  by unfold_locales
    (auto simp: task_tables dict_has_def normalize_simp split: if_splits)


section \<open>Properties of the two machines\<close>



text \<open>C27. Whatever sequence of transitions is applied, a job whose status (after the mapping of
  old names) is in the transition table keeps a status in the table, for both machines.\<close>

theorem task_status_invariant:
  "(reaches ALLOWED_DOWNLOAD_TRANSITIONS OLD_TO_NEW_DOWNLOAD d d' \<longrightarrow>
    dict_has ALLOWED_DOWNLOAD_TRANSITIONS (normalize_status (status d) OLD_TO_NEW_DOWNLOAD) \<longrightarrow>
    dict_has ALLOWED_DOWNLOAD_TRANSITIONS (normalize_status (status d') OLD_TO_NEW_DOWNLOAD)) \<and>
   (reaches ALLOWED_IMPORT_TRANSITIONS OLD_TO_NEW_IMPORT i i' \<longrightarrow>
    dict_has ALLOWED_IMPORT_TRANSITIONS (normalize_status (status i) OLD_TO_NEW_IMPORT) \<longrightarrow>
    dict_has ALLOWED_IMPORT_TRANSITIONS (normalize_status (status i') OLD_TO_NEW_IMPORT))"
  using download_machine.reaches_known [of d d'] import_machine.reaches_known [of i i']
  by (simp add: download_machine.known_def import_machine.known_def)

definition pending_job :: job where
  "pending_job = \<lparr>status = ''pending'', error_log = None\<rparr>"

lemma pending_download_reaches:
  "reaches ALLOWED_DOWNLOAD_TRANSITIONS OLD_TO_NEW_DOWNLOAD pending_job
     \<lparr>status = DOWNLOADING, error_log = None\<rparr>"
  by (rule reaches_step [OF reaches_refl, where new = DOWNLOADING and e = None])
    (simp add: task_transition_def normalize_simp dict_get_def pending_job_def task_tables
      set_error_log_def)

lemma pending_import_reaches:
  "reaches ALLOWED_IMPORT_TRANSITIONS OLD_TO_NEW_IMPORT pending_job
     \<lparr>status = RUNNING, error_log = None\<rparr>"
  by (rule reaches_step [OF reaches_refl, where new = RUNNING and e = None])
    (simp add: task_transition_def normalize_simp dict_get_def pending_job_def task_tables
      set_error_log_def)

theorem task_status_invariant_witness:
  "dict_has ALLOWED_DOWNLOAD_TRANSITIONS DOWNLOADING \<and> dict_has ALLOWED_IMPORT_TRANSITIONS RUNNING"
  using task_status_invariant [of pending_job "\<lparr>status = DOWNLOADING, error_log = None\<rparr>"
      pending_job "\<lparr>status = RUNNING, error_log = None\<rparr>"]
    pending_download_reaches pending_import_reaches
  by (simp add: normalize_simp pending_job_def task_tables dict_has_def)

text \<open>C28. \<open>cancelled\<close> is final: no sequence of transitions leads a cancelled download job or
  import job to any other status.\<close>

theorem cancelled_is_final:
  "(reaches ALLOWED_DOWNLOAD_TRANSITIONS OLD_TO_NEW_DOWNLOAD d d' \<longrightarrow>
      status d = CANCELLED \<longrightarrow> status d' = CANCELLED) \<and>
   (reaches ALLOWED_IMPORT_TRANSITIONS OLD_TO_NEW_IMPORT i i' \<longrightarrow>
      status i = CANCELLED \<longrightarrow> status i' = CANCELLED)"
  using download_machine.reaches_cancelled import_machine.reaches_cancelled by blast

theorem cancelled_is_final_witness:
  "status \<lparr>status = CANCELLED, error_log = Some ''x''\<rparr> = CANCELLED"
proof -
  let ?c = "\<lparr>status = CANCELLED, error_log = None\<rparr>"
  have "reaches ALLOWED_DOWNLOAD_TRANSITIONS OLD_TO_NEW_DOWNLOAD ?c
      \<lparr>status = CANCELLED, error_log = Some ''x''\<rparr>"
    by (rule reaches_step [OF reaches_refl, where new = CANCELLED and e = "Some ''x''"])
      (simp add: task_transition_def normalize_simp dict_get_def task_tables set_error_log_def)
  then show ?thesis
    using cancelled_is_final [of ?c "\<lparr>status = CANCELLED, error_log = Some ''x''\<rparr>" ?c ?c] by simp
qed






end
