(* ===== verification/Json.thy ===== *)
theory Json
  imports Gallery_Prelude
begin

text \<open>
  JSON values as the program uses them: Python's \<open>None\<close>, \<open>bool\<close>, \<open>int\<close>, \<open>str\<close>, \<open>list\<close> and
  \<open>dict\<close>; the documents of the modelled components carry no floats. A dictionary is the list
  of its entries in key order, so that equality of values is Python's \<open>==\<close>.

  \<open>json_dumps\<close> is \<^verbatim>\<open>json.dumps(v, ensure_ascii=False, sort_keys=True, separators=(",", ":"))\<close>,
  \<open>json_dumps_ascii\<close> is \<^verbatim>\<open>json.dumps(v, separators=(",", ":"))\<close> with the entries in insertion order,
  \<open>json_loads\<close> is \<^verbatim>\<open>json.loads\<close>, and the round trip of the two is proved here once for every
  component that stores documents.
\<close>

section \<open>Decimal numerals\<close>

definition digit_char :: "nat \<Rightarrow> char" where
  "digit_char d = char_of (48 + d)"

definition digit_val :: "char \<Rightarrow> nat" where
  "digit_val c = of_char c - 48"

definition is_digit :: "char \<Rightarrow> bool" where
  "is_digit c \<longleftrightarrow> 48 \<le> (of_char c :: nat) \<and> (of_char c :: nat) \<le> 57"

fun show_nat :: "nat \<Rightarrow> string" where
  "show_nat n = (if n < 10 then [digit_char n] else show_nat (n div 10) @ [digit_char (n mod 10)])"

declare show_nat.simps [simp del]

definition show_int :: "int \<Rightarrow> string" where
  "show_int i = (if i < 0 then CHR ''-'' # show_nat (nat (- i)) else show_nat (nat i))"

definition digits_val :: "string \<Rightarrow> nat" where
  "digits_val cs = foldl (\<lambda>a c. 10 * a + digit_val c) 0 cs"

lemma of_char_digit_char: "d < 10 \<Longrightarrow> (of_char (digit_char d) :: nat) = 48 + d"
  by (simp add: digit_char_def)

lemma digit_val_digit_char [simp]: "d < 10 \<Longrightarrow> digit_val (digit_char d) = d"
  by (simp add: digit_val_def of_char_digit_char)

lemma is_digit_digit_char [simp]: "d < 10 \<Longrightarrow> is_digit (digit_char d)"
  by (simp add: is_digit_def of_char_digit_char)

lemma show_nat_digits: "\<forall>c \<in> set (show_nat n). is_digit c"
proof (induction n rule: show_nat.induct)
  case (1 n)
  then show ?case by (subst show_nat.simps) auto
qed

lemma digits_val_snoc: "digits_val (cs @ [c]) = 10 * digits_val cs + digit_val c"
  by (simp add: digits_val_def)

lemma digits_val_show_nat [simp]: "digits_val (show_nat n) = n"
proof (induction n rule: show_nat.induct)
  case (1 n)
  show ?case
  proof (cases "n < 10")
    case True
    then show ?thesis
      by (subst show_nat.simps) (simp add: digits_val_def)
  next
    case False
    with "1.IH" show ?thesis
      by (subst show_nat.simps) (simp add: digits_val_snoc)
  qed
qed

lemma show_nat_nonempty [simp]: "show_nat n \<noteq> []"
  by (subst show_nat.simps) simp

lemma hd_show_nat: "0 < n \<Longrightarrow> hd (show_nat n) \<noteq> CHR ''0''"
proof (induction n rule: show_nat.induct)
  case (1 n)
  show ?case
  proof (cases "n < 10")
    case True
    have "digit_char n \<noteq> CHR ''0''"
    proof
      assume "digit_char n = CHR ''0''"
      then have "digit_val (digit_char n) = 0" by (simp add: digit_val_def)
      with True "1.prems" show False by simp
    qed
    with True show ?thesis by (subst show_nat.simps) simp
  next
    case False
    then have "hd (show_nat n) = hd (show_nat (n div 10))"
      by (subst show_nat.simps) simp
    with False "1.IH" "1.prems" show ?thesis by (simp add: div_greater_zero_iff)
  qed
qed

lemma show_nat_0: "show_nat 0 = ''0''"
  using char_of_char [of "CHR ''0''"] by (subst show_nat.simps) (simp add: digit_char_def)


section \<open>Dictionaries in key order\<close>

type_synonym 'v sdict = "(string \<times> 'v) list"

definition dict_ok :: "'v sdict \<Rightarrow> bool" where
  "dict_ok d \<longleftrightarrow> sorted_wrt (<) (map fst d)"

text \<open>\<open>d[k] = v\<close> and \<open>d.pop(k, None)\<close>\<close>

fun dset :: "string \<Rightarrow> 'v \<Rightarrow> 'v sdict \<Rightarrow> 'v sdict" where
  "dset k v [] = [(k, v)]"
| "dset k v ((k', v') # d) =
     (if k < k' then (k, v) # (k', v') # d
      else if k = k' then (k, v) # d
      else (k', v') # dset k v d)"

definition ddel :: "string \<Rightarrow> 'v sdict \<Rightarrow> 'v sdict" where
  "ddel k d = filter (\<lambda>p. fst p \<noteq> k) d"

text \<open>The dictionary of a list of entries, a later entry replacing an earlier one.\<close>

definition dict_of :: "(string \<times> 'v) list \<Rightarrow> 'v sdict" where
  "dict_of kvs = foldl (\<lambda>d p. dset (fst p) (snd p) d) [] kvs"

lemma map_of_dset [simp]: "map_of (dset k v d) k' = (if k' = k then Some v else map_of d k')"
  by (induction d) (auto simp: order.strict_implies_not_eq)

lemma set_keys_dset: "set (map fst (dset k v d)) = insert k (set (map fst d))"
  by (simp flip: dom_map_of_conv_image_fst) (auto simp: dom_def)

lemma dict_ok_dset: "dict_ok d \<Longrightarrow> dict_ok (dset k v d)"
proof (induction d)
  case Nil
  then show ?case by (simp add: dict_ok_def)
next
  case (Cons p d)
  obtain k' v' where p: "p = (k', v')" by (cases p)
  from Cons.prems p have d: "dict_ok d" and lt: "\<forall>x \<in> set (map fst d). k' < x"
    by (auto simp: dict_ok_def)
  consider "k < k'" | "k = k'" | "k' < k" by fastforce
  then show ?case
  proof cases
    case 1
    with lt d p show ?thesis by (auto simp: dict_ok_def)
  next
    case 2
    with lt d p show ?thesis by (auto simp: dict_ok_def)
  next
    case 3
    with p have eq: "dset k v (p # d) = (k', v') # dset k v d" by auto
    have "\<forall>x \<in> set (map fst (dset k v d)). k' < x"
      unfolding set_keys_dset using lt 3 by auto
    with eq Cons.IH [OF d] show ?thesis by (auto simp: dict_ok_def)
  qed
qed

lemma dict_ok_ddel: "dict_ok d \<Longrightarrow> dict_ok (ddel k d)"
  by (induction d) (auto simp: dict_ok_def ddel_def)

lemma map_of_ddel [simp]: "map_of (ddel k d) k' = (if k' = k then None else map_of d k')"
  by (induction d) (auto simp: ddel_def)

lemma dict_ok_distinct: "dict_ok d \<Longrightarrow> distinct (map fst d)"
  unfolding dict_ok_def by (induction d) auto

lemma dset_greatest:
  "\<forall>x \<in> set (map fst d). x < k \<Longrightarrow> dset k v d = d @ [(k, v)]"
  by (induction d) (auto simp: order.strict_implies_not_eq dest: order.asym)

lemma dict_of_snoc: "dict_of (kvs @ [p]) = dset (fst p) (snd p) (dict_of kvs)"
  by (simp add: dict_of_def)

lemma dict_of_id: "dict_ok kvs \<Longrightarrow> dict_of kvs = kvs"
proof (induction kvs rule: rev_induct)
  case Nil
  then show ?case by (simp add: dict_of_def)
next
  case (snoc p kvs)
  then have "dict_ok kvs" and "\<forall>x \<in> set (map fst kvs). x < fst p"
    by (auto simp: dict_ok_def sorted_wrt_append)
  with snoc.IH show ?case
    by (simp add: dict_of_snoc dset_greatest)
qed

text \<open>Two dictionaries with the same lookups are equal.\<close>

lemma dict_ext: "dict_ok d \<Longrightarrow> dict_ok e \<Longrightarrow> map_of d = map_of e \<Longrightarrow> d = e"
proof (induction d arbitrary: e)
  case Nil
  then show ?case by (metis map_of.simps(1) map_of_eq_empty_iff)
next
  case (Cons p d)
  obtain k v where p: "p = (k, v)" by (cases p)
  obtain q e' where e: "e = q # e'"
    using Cons.prems(3) by (metis list.exhaust list.distinct(1) map_of.simps(1) map_of_eq_empty_iff)
  obtain k' v' where q: "q = (k', v')" by (cases q)
  have lt: "\<forall>x \<in> set (map fst d). k < x" "\<forall>x \<in> set (map fst e'). k' < x"
    and ok: "dict_ok d" "dict_ok e'"
    using Cons.prems(1,2) p e q by (auto simp: dict_ok_def)
  have mem: "x \<in> set (map fst (p # d)) \<longleftrightarrow> x \<in> set (map fst (q # e'))" for x
    using Cons.prems(3) e by (metis domIff map_of_eq_None_iff set_map)
  have kk: "k = k'"
  proof (rule ccontr)
    assume "k \<noteq> k'"
    with mem [of k] mem [of k'] p q lt show False by (auto dest: order.asym)
  qed
  have out: "map_of d k = None" "map_of e' k = None"
    using lt kk by (auto simp: map_of_eq_None_iff)
  have "v = v'"
    using fun_cong [OF Cons.prems(3), of k] p q e kk by simp
  moreover have "map_of d = map_of e'"
  proof
    fix x
    show "map_of d x = map_of e' x"
      using fun_cong [OF Cons.prems(3), of x] p q e kk out by (cases "x = k") auto
  qed
  ultimately show ?case
    using Cons.IH [OF ok] p q e kk by simp
qed

section \<open>Values\<close>

datatype json = JNull | JBool bool | JInt int | JStr string | JList "json list"
  | JObj "(string \<times> json) list"

primrec wf_json :: "json \<Rightarrow> bool" where
  "wf_json JNull \<longleftrightarrow> True"
| "wf_json (JBool b) \<longleftrightarrow> True"
| "wf_json (JInt i) \<longleftrightarrow> True"
| "wf_json (JStr s) \<longleftrightarrow> True"
| "wf_json (JList vs) \<longleftrightarrow> list_all id (map wf_json vs)"
| "wf_json (JObj kvs) \<longleftrightarrow> dict_ok kvs \<and> list_all snd (map (map_prod id wf_json) kvs)"

lemma wf_json_list [simp]: "wf_json (JList vs) \<longleftrightarrow> (\<forall>v \<in> set vs. wf_json v)"
  by (simp add: list_all_iff)

lemma wf_json_obj: "wf_json (JObj kvs) \<longleftrightarrow> dict_ok kvs \<and> (\<forall>(k, v) \<in> set kvs. wf_json v)"
  by (auto simp: list_all_iff)

declare wf_json.simps(5,6) [simp del]

text \<open>\<open>bool(v)\<close>, and \<open>v.get(k)\<close> on a dictionary (\<open>None\<close> when the key is absent).\<close>

fun jtruthy :: "json \<Rightarrow> bool" where
  "jtruthy JNull = False"
| "jtruthy (JBool b) = b"
| "jtruthy (JInt i) = (i \<noteq> 0)"
| "jtruthy (JStr s) = (s \<noteq> [])"
| "jtruthy (JList vs) = (vs \<noteq> [])"
| "jtruthy (JObj kvs) = (kvs \<noteq> [])"

definition dict_get_json :: "json sdict \<Rightarrow> string \<Rightarrow> json" where
  "dict_get_json d k = (case map_of d k of None \<Rightarrow> JNull | Some v \<Rightarrow> v)"

fun is_dict :: "json \<Rightarrow> bool" where
  "is_dict (JObj _) = True"
| "is_dict _ = False"

fun jget :: "json \<Rightarrow> string \<Rightarrow> json" where
  "jget (JObj d) k = dict_get_json d k"
| "jget _ k = JNull"


section \<open>Printing\<close>

fun join :: "string \<Rightarrow> string list \<Rightarrow> string" where
  "join sep [] = []"
| "join sep [x] = x"
| "join sep (x # y # xs) = x @ sep @ join sep (y # xs)"

definition hex_char :: "nat \<Rightarrow> char" where
  "hex_char d = (if d < 10 then char_of (48 + d) else char_of (87 + d))"

definition escape_char :: "char \<Rightarrow> string" where
  "escape_char c =
    (if c = CHR 0x22 then [CHR 0x5C, CHR 0x22]
     else if c = CHR 0x5C then [CHR 0x5C, CHR 0x5C]
     else if c = CHR 0x0A then [CHR 0x5C, CHR ''n'']
     else if c = CHR 0x0D then [CHR 0x5C, CHR ''r'']
     else if c = CHR 0x09 then [CHR 0x5C, CHR ''t'']
     else if c = CHR 0x0C then [CHR 0x5C, CHR ''f'']
     else if c = CHR 0x08 then [CHR 0x5C, CHR ''b'']
     else if (of_char c :: nat) < 32
     then [CHR 0x5C, CHR ''u'', CHR ''0'', CHR ''0'', hex_char (of_char c div 16), hex_char (of_char c mod 16)]
     else [c])"

text \<open>The escapes of \<^verbatim>\<open>ensure_ascii=True\<close>, the default.\<close>

definition escape_ascii :: "char \<Rightarrow> string" where
  "escape_ascii c =
    (if 126 < (of_char c :: nat)
     then [CHR 0x5C, CHR ''u'', CHR ''0'', CHR ''0'', hex_char (of_char c div 16), hex_char (of_char c mod 16)]
     else escape_char c)"

definition quote_with :: "(char \<Rightarrow> string) \<Rightarrow> string \<Rightarrow> string" where
  "quote_with esc s = CHR 0x22 # concat (map esc s) @ [CHR 0x22]"

text \<open>The printer, over the escapes of a character; entries are printed in the order of the list.\<close>

primrec json_print :: "(char \<Rightarrow> string) \<Rightarrow> json \<Rightarrow> string" where
  "json_print esc JNull = ''null''"
| "json_print esc (JBool b) = (if b then ''true'' else ''false'')"
| "json_print esc (JInt i) = show_int i"
| "json_print esc (JStr s) = quote_with esc s"
| "json_print esc (JList vs) = ''['' @ join '','' (map (json_print esc) vs) @ '']''"
| "json_print esc (JObj kvs) =
     ''{'' @ join '','' (map (\<lambda>(k, s). quote_with esc k @ '':'' @ s) (map (map_prod id (json_print esc)) kvs)) @ ''}''"

definition json_quote :: "string \<Rightarrow> string" where
  "json_quote s = quote_with escape_char s"

definition json_dumps :: "json \<Rightarrow> string" where
  "json_dumps v = json_print escape_char v"

lemma json_dumps_simps [simp, code]:
  "json_dumps JNull = ''null''"
  "json_dumps (JBool b) = (if b then ''true'' else ''false'')"
  "json_dumps (JInt i) = show_int i"
  "json_dumps (JStr s) = json_quote s"
  "json_dumps (JList vs) = ''['' @ join '','' (map json_dumps vs) @ '']''"
  "json_dumps (JObj kvs) =
     ''{'' @ join '','' (map (\<lambda>(k, s). json_quote k @ '':'' @ s) (map (map_prod id json_dumps) kvs)) @ ''}''"
  by (simp_all add: json_dumps_def json_quote_def cong: map_cong prod.map_cong)

text \<open>\<^verbatim>\<open>json.dumps(v, separators=(",", ":"))\<close>: the entries of a dictionary in insertion order.\<close>

definition json_dumps_ascii :: "json \<Rightarrow> string" where
  "json_dumps_ascii v = json_print escape_ascii v"

section \<open>Parsing\<close>

definition is_json_ws :: "char \<Rightarrow> bool" where
  "is_json_ws c \<longleftrightarrow> c = CHR 0x20 \<or> c = CHR 0x09 \<or> c = CHR 0x0A \<or> c = CHR 0x0D"

definition skip_ws :: "string \<Rightarrow> string" where
  "skip_ws s = dropWhile is_json_ws s"

definition hex_val :: "char \<Rightarrow> nat option" where
  "hex_val c =
    (let n = (of_char c :: nat)
     in if 48 \<le> n \<and> n \<le> 57 then Some (n - 48)
        else if 97 \<le> n \<and> n \<le> 102 then Some (n - 87)
        else if 65 \<le> n \<and> n \<le> 70 then Some (n - 55)
        else None)"

definition hex4 :: "char \<Rightarrow> char \<Rightarrow> char \<Rightarrow> char \<Rightarrow> nat option" where
  "hex4 a b c d =
    (case (hex_val a, hex_val b, hex_val c, hex_val d) of
       (Some w, Some x, Some y, Some z) \<Rightarrow> Some (((w * 16 + x) * 16 + y) * 16 + z)
     | _ \<Rightarrow> None)"

definition unescape :: "char \<Rightarrow> char option" where
  "unescape c =
    (if c = CHR 0x22 \<or> c = CHR 0x5C \<or> c = CHR ''/'' then Some c
     else if c = CHR ''n'' then Some (CHR 0x0A)
     else if c = CHR ''r'' then Some (CHR 0x0D)
     else if c = CHR ''t'' then Some (CHR 0x09)
     else if c = CHR ''f'' then Some (CHR 0x0C)
     else if c = CHR ''b'' then Some (CHR 0x08)
     else None)"

text \<open>The rest of a string literal after its opening quote. An escape for a code point above
  U+00FF is outside the alphabet and yields no value.\<close>

fun parse_str :: "string \<Rightarrow> (string \<times> string) option" where
  "parse_str [] = None"
| "parse_str (c # cs) =
    (if c = CHR 0x22 then Some ([], cs)
     else if c = CHR 0x5C then
       (case cs of
          [] \<Rightarrow> None
        | e # cs' \<Rightarrow>
           (if e = CHR ''u'' then
              (case cs' of
                 p # q # r # t # rest \<Rightarrow>
                  (case hex4 p q r t of
                     None \<Rightarrow> None
                   | Some n \<Rightarrow> if n < 256 then map_option (apfst (Cons (char_of n))) (parse_str rest) else None)
               | _ \<Rightarrow> None)
            else
              (case unescape e of
                 None \<Rightarrow> None
               | Some x \<Rightarrow> map_option (apfst (Cons x)) (parse_str cs'))))
     else if (of_char c :: nat) < 32 then None
     else map_option (apfst (Cons c)) (parse_str cs))"

text \<open>An integer literal. A fraction or an exponent makes the literal a float, which is not a
  value of the model.\<close>

definition num_stop :: "string \<Rightarrow> bool" where
  "num_stop r \<longleftrightarrow> (case r of [] \<Rightarrow> True
     | c # _ \<Rightarrow> \<not> is_digit c \<and> c \<noteq> CHR ''.'' \<and> c \<noteq> CHR ''e'' \<and> c \<noteq> CHR ''E'')"

definition parse_nat :: "string \<Rightarrow> (nat \<times> string) option" where
  "parse_nat s =
    (let ds = takeWhile is_digit s; r = dropWhile is_digit s
     in if ds = [] then None
        else if hd ds = CHR ''0'' then
          (if length ds = 1 \<and> num_stop r then Some (0, r) else None)
        else if num_stop r then Some (digits_val ds, r) else None)"

definition parse_num :: "string \<Rightarrow> (json \<times> string) option" where
  "parse_num s =
    (case s of
       [] \<Rightarrow> None
     | c # cs \<Rightarrow>
        if c = CHR ''-'' then map_option (\<lambda>(n, r). (JInt (- int n), r)) (parse_nat cs)
        else map_option (\<lambda>(n, r). (JInt (int n), r)) (parse_nat s))"

definition parse_word :: "string \<Rightarrow> json \<Rightarrow> string \<Rightarrow> (json \<times> string) option" where
  "parse_word w v s = (if take (length w) s = w then Some (v, drop (length w) s) else None)"

text \<open>The recursive descent spends one unit of fuel per nested call; \<open>json_loads\<close> starts with
  more fuel than the text has characters, which is enough for every text that
  \<open>json_dumps\<close> prints.\<close>

fun parse_value :: "nat \<Rightarrow> string \<Rightarrow> (json \<times> string) option"
and parse_elems :: "nat \<Rightarrow> string \<Rightarrow> (json list \<times> string) option"
and parse_members :: "nat \<Rightarrow> string \<Rightarrow> ((string \<times> json) list \<times> string) option" where
  "parse_value 0 s = None"
| "parse_value (Suc n) s =
    (case skip_ws s of
       [] \<Rightarrow> None
     | c # cs \<Rightarrow>
        if c = CHR 0x22 then map_option (apfst JStr) (parse_str cs)
        else if c = CHR ''['' then
          (case skip_ws cs of
             [] \<Rightarrow> None
           | d # ds \<Rightarrow> if d = CHR '']'' then Some (JList [], ds)
                      else map_option (apfst JList) (parse_elems n (d # ds)))
        else if c = CHR ''{'' then
          (case skip_ws cs of
             [] \<Rightarrow> None
           | d # ds \<Rightarrow> if d = CHR ''}'' then Some (JObj [], ds)
                      else map_option (apfst (\<lambda>kvs. JObj (dict_of kvs))) (parse_members n (d # ds)))
        else if c = CHR ''n'' then parse_word ''null'' JNull (c # cs)
        else if c = CHR ''t'' then parse_word ''true'' (JBool True) (c # cs)
        else if c = CHR ''f'' then parse_word ''false'' (JBool False) (c # cs)
        else parse_num (c # cs))"
| "parse_elems 0 s = None"
| "parse_elems (Suc n) s =
    (case parse_value n s of
       None \<Rightarrow> None
     | Some (v, r) \<Rightarrow>
        (case skip_ws r of
           [] \<Rightarrow> None
         | c # cs \<Rightarrow>
            if c = CHR '','' then map_option (apfst (Cons v)) (parse_elems n cs)
            else if c = CHR '']'' then Some ([v], cs)
            else None))"
| "parse_members 0 s = None"
| "parse_members (Suc n) s =
    (case skip_ws s of
       [] \<Rightarrow> None
     | q # qs \<Rightarrow>
        if q \<noteq> CHR 0x22 then None
        else
          (case parse_str qs of
             None \<Rightarrow> None
           | Some (k, r) \<Rightarrow>
              (case skip_ws r of
                 [] \<Rightarrow> None
               | col # r' \<Rightarrow>
                  if col \<noteq> CHR '':'' then None
                  else
                    (case parse_value n r' of
                       None \<Rightarrow> None
                     | Some (v, r'') \<Rightarrow>
                        (case skip_ws r'' of
                           [] \<Rightarrow> None
                         | c # cs \<Rightarrow>
                            if c = CHR '','' then map_option (apfst (Cons (k, v))) (parse_members n cs)
                            else if c = CHR ''}'' then Some ([(k, v)], cs)
                            else None)))))"

definition json_loads :: "string \<Rightarrow> json option" where
  "json_loads s =
    (case parse_value (Suc (length s)) s of
       None \<Rightarrow> None
     | Some (v, r) \<Rightarrow> if skip_ws r = [] then Some v else None)"


section \<open>Reading back what was printed\<close>

lemma hex_val_hex_char: "d < 16 \<Longrightarrow> hex_val (hex_char d) = Some d"
  by (auto simp: hex_val_def hex_char_def Let_def)

lemma hex4_byte: "n < 256 \<Longrightarrow> hex4 (CHR ''0'') (CHR ''0'') (hex_char (n div 16)) (hex_char (n mod 16)) = Some n"
  by (simp add: hex4_def hex_val_hex_char) (simp add: hex_val_def)

lemma parse_str_escape:
  "parse_str (escape_char c @ r) = map_option (apfst (Cons c)) (parse_str r)"
proof -
  consider (special) "c \<in> {CHR 0x22, CHR 0x5C, CHR 0x0A, CHR 0x0D, CHR 0x09, CHR 0x0C, CHR 0x08}"
    | (control) "c \<notin> {CHR 0x22, CHR 0x5C, CHR 0x0A, CHR 0x0D, CHR 0x09, CHR 0x0C, CHR 0x08}"
        "(of_char c :: nat) < 32"
    | (plain) "c \<notin> {CHR 0x22, CHR 0x5C, CHR 0x0A, CHR 0x0D, CHR 0x09, CHR 0x0C, CHR 0x08}"
        "\<not> (of_char c :: nat) < 32"
    by blast
  then show ?thesis
  proof cases
    case special
    then show ?thesis
      by (elim insertE emptyE) (simp_all add: escape_char_def unescape_def)
  next
    case control
    have "hex4 (CHR ''0'') (CHR ''0'') (hex_char (of_char c div 16)) (hex_char (of_char c mod 16)) =
        Some (of_char c)"
      using control by (simp add: hex4_byte)
    with control show ?thesis
      by (simp add: escape_char_def)
  next
    case plain
    then show ?thesis
      by (simp add: escape_char_def)
  qed
qed

lemma parse_str_escape_ascii:
  "parse_str (escape_ascii c @ r) = map_option (apfst (Cons c)) (parse_str r)"
proof (cases "126 < (of_char c :: nat)")
  case True
  have "hex4 (CHR ''0'') (CHR ''0'') (hex_char (of_char c div 16)) (hex_char (of_char c mod 16)) = Some (of_char c)"
    by (simp add: hex4_byte)
  with True show ?thesis by (simp add: escape_ascii_def)
qed (simp add: escape_ascii_def parse_str_escape)

lemma dropWhile_digits:
  assumes "\<forall>c \<in> set ds. is_digit c" and "num_stop r"
  shows "takeWhile is_digit (ds @ r) = ds" and "dropWhile is_digit (ds @ r) = r"
  using assms by (cases r; simp add: num_stop_def takeWhile_append dropWhile_append)+

lemma parse_nat_show: "num_stop r \<Longrightarrow> parse_nat (show_nat n @ r) = Some (n, r)"
proof -
  assume r: "num_stop r"
  note split = dropWhile_digits [OF show_nat_digits r, of n]
  show ?thesis
  proof (cases "n = 0")
    case True
    have "takeWhile is_digit r = [] \<and> dropWhile is_digit r = r"
      using r by (cases r) (auto simp: num_stop_def)
    with True r show ?thesis
      by (simp add: parse_nat_def show_nat_0 is_digit_def)
  next
    case False
    then show ?thesis
      using r split hd_show_nat [of n] by (simp add: parse_nat_def Let_def)
  qed
qed

lemma parse_num_show_int: "num_stop r \<Longrightarrow> parse_num (show_int i @ r) = Some (JInt i, r)"
proof (cases "i < 0")
  case True
  moreover assume "num_stop r"
  ultimately show ?thesis
    by (simp add: parse_num_def show_int_def parse_nat_show)
next
  case False
  moreover assume r: "num_stop r"
  obtain c cs where cs: "show_nat (nat i) = c # cs"
    by (cases "show_nat (nat i)") auto
  then have "is_digit c"
    using show_nat_digits [of "nat i"] by simp
  then have "c \<noteq> CHR ''-''"
    by (auto simp: is_digit_def)
  ultimately show ?thesis
    using parse_nat_show [OF r, of "nat i"] cs by (simp add: parse_num_def show_int_def)
qed

text \<open>The first character of a printed value decides the branch of the parser.\<close>

lemma skip_ws_nonspace: "\<not> is_json_ws c \<Longrightarrow> skip_ws (c # cs) = c # cs"
  by (simp add: skip_ws_def)

lemma show_int_head:
  obtains c cs where "show_int i = c # cs" and "is_digit c \<or> c = CHR ''-''"
proof (cases "i < 0")
  case True
  then show ?thesis using that by (simp add: show_int_def)
next
  case False
  obtain c cs where cs: "show_nat (nat i) = c # cs"
    by (cases "show_nat (nat i)") auto
  then have "is_digit c"
    using show_nat_digits [of "nat i"] by simp
  with False cs show ?thesis using that by (simp add: show_int_def)
qed

lemma parse_value_number:
  assumes "num_stop r" shows "parse_value (Suc n) (show_int i @ r) = Some (JInt i, r)"
proof -
  obtain c cs where cs: "show_int i = c # cs" and c: "is_digit c \<or> c = CHR ''-''"
    by (rule show_int_head)
  have "\<not> is_json_ws c" using c by (auto simp: is_digit_def is_json_ws_def)
  then have "skip_ws (show_int i @ r) = c # cs @ r"
    by (simp add: cs skip_ws_nonspace)
  moreover have "c \<notin> {CHR 0x22, CHR ''['', CHR ''{'', CHR ''n'', CHR ''t'', CHR ''f''}"
    using c by (auto simp: is_digit_def)
  ultimately show ?thesis
    using parse_num_show_int [OF assms, of i] cs by simp
qed


lemma num_stop_punct [simp]: "num_stop (CHR '','' # r)" "num_stop (CHR '']'' # r)" "num_stop (CHR ''}'' # r)"
  by (simp_all add: num_stop_def is_digit_def)

lemma skip_ws_punct [simp]:
  "skip_ws (CHR '','' # r) = CHR '','' # r" "skip_ws (CHR '']'' # r) = CHR '']'' # r"
  "skip_ws (CHR ''}'' # r) = CHR ''}'' # r" "skip_ws (CHR '':'' # r) = CHR '':'' # r"
  "skip_ws (CHR 0x22 # r) = CHR 0x22 # r" "skip_ws (CHR ''['' # r) = CHR ''['' # r"
  "skip_ws (CHR ''{'' # r) = CHR ''{'' # r"
  by (simp_all add: skip_ws_def is_json_ws_def)

lemma join_Cons: "join sep (x # xs) = x @ (if xs = [] then [] else sep @ join sep xs)"
  by (cases xs) auto

text \<open>The value a document denotes: of two entries with one key the later one counts.\<close>

primrec denoted :: "json \<Rightarrow> json" where
  "denoted JNull = JNull"
| "denoted (JBool b) = JBool b"
| "denoted (JInt i) = JInt i"
| "denoted (JStr s) = JStr s"
| "denoted (JList vs) = JList (map denoted vs)"
| "denoted (JObj kvs) = JObj (dict_of (map (map_prod id denoted) kvs))"

lemma denoted_wf: "wf_json v \<Longrightarrow> denoted v = v"
proof (induction v)
  case (JList vs)
  then show ?case by (simp add: map_idI)
next
  case (JObj kvs)
  have "denoted (snd p) = snd p" if "p \<in> set kvs" for p
    using JObj that by (cases p) (fastforce simp: wf_json_obj)
  then have "map (map_prod id denoted) kvs = kvs" by (intro map_idI) (simp add: map_prod_def split_beta)
  with JObj.prems show ?case by (simp add: wf_json_obj dict_of_id)
qed simp_all

text \<open>What a printer must know of its escapes, and what every such printer guarantees.\<close>

locale json_printer =
  fixes esc :: "char \<Rightarrow> string"
  assumes parse_esc: "parse_str (esc c @ r) = map_option (apfst (Cons c)) (parse_str r)"
begin

lemma parse_str_quote: "parse_str (concat (map esc s) @ CHR 0x22 # r) = Some (s, r)"
  by (induction s) (simp_all add: parse_esc)

lemma print_head:
  obtains c cs where "json_print esc v = c # cs" and "\<not> is_json_ws c"
    and "c \<noteq> CHR '']''" and "c \<noteq> CHR ''}''"
proof (cases v)
  case (JInt i)
  obtain c cs where "show_int i = c # cs" "is_digit c \<or> c = CHR ''-''"
    by (rule show_int_head)
  moreover from this have "\<not> is_json_ws c \<and> c \<noteq> CHR '']'' \<and> c \<noteq> CHR ''}''"
    by (auto simp: is_digit_def is_json_ws_def)
  ultimately show ?thesis using that JInt by simp
next
  case (JBool b)
  then show ?thesis using that by (cases b) (auto simp: is_json_ws_def)
qed (auto simp: quote_with_def is_json_ws_def intro: that split: if_splits)

lemma print_nonempty: "0 < length (json_print esc v)"
  by (rule print_head [of v]) simp

definition reads_back :: "json \<Rightarrow> bool" where
  "reads_back v \<longleftrightarrow>
     (\<forall>n r. num_stop r \<longrightarrow> length (json_print esc v) < n \<longrightarrow> parse_value n (json_print esc v @ r) = Some (denoted v, r))"

lemma reads_backD:
  "reads_back v \<Longrightarrow> num_stop r \<Longrightarrow> length (json_print esc v) < n \<Longrightarrow>
     parse_value n (json_print esc v @ r) = Some (denoted v, r)"
  by (simp add: reads_back_def)

lemma parse_elems_join:
  assumes "\<forall>v \<in> set vs. reads_back v" and "vs \<noteq> []"
    and "length (join '','' (map (json_print esc) vs)) + 1 < n"
  shows "parse_elems n (join '','' (map (json_print esc) vs) @ CHR '']'' # r) = Some (map denoted vs, r)"
  using assms
proof (induction vs arbitrary: n)
  case (Cons v vs)
  from Cons.prems(3) obtain m where n: "n = Suc m" by (cases n) auto
  from Cons.prems(3) n have len: "length (json_print esc v) < m"
    by (auto simp: join_Cons split: if_splits)
  have v: "reads_back v" using Cons.prems(1) by simp
  show ?case
  proof (cases "vs = []")
    case True
    with reads_backD [OF v _ len, of "CHR '']'' # r"] n show ?thesis by simp
  next
    case False
    with Cons.prems(3) n print_nonempty [of v]
    have "length (join '','' (map (json_print esc) vs)) + 1 < m"
      by (auto simp: join_Cons)
    with Cons.IH [of m] Cons.prems(1) False
    have "parse_elems m (join '','' (map (json_print esc) vs) @ CHR '']'' # r) = Some (map denoted vs, r)" by simp
    with False n reads_backD [OF v _ len, of "CHR '','' # join '','' (map (json_print esc) vs) @ CHR '']'' # r"]
    show ?thesis by (simp add: join_Cons)
  qed
qed simp

abbreviation member_text :: "string \<times> json \<Rightarrow> string" where
  "member_text p \<equiv> quote_with esc (fst p) @ '':'' @ json_print esc (snd p)"

lemma parse_members_join:
  assumes "\<forall>p \<in> set kvs. reads_back (snd p)" and "kvs \<noteq> []"
    and "length (join '','' (map member_text kvs)) + 1 < n"
  shows "parse_members n (join '','' (map member_text kvs) @ CHR ''}'' # r) = Some (map (map_prod id denoted) kvs, r)"
  using assms
proof (induction kvs arbitrary: n)
  case (Cons p kvs)
  obtain k v where p: "p = (k, v)" by (cases p)
  from Cons.prems(3) obtain m where n: "n = Suc m" by (cases n) auto
  from Cons.prems(3) n p have len: "length (json_print esc v) < m"
    by (auto simp: join_Cons split: if_splits)
  have v: "reads_back v" using Cons.prems(1) p by simp
  show ?case
  proof (cases "kvs = []")
    case True
    with reads_backD [OF v _ len, of "CHR ''}'' # r"] n p show ?thesis
      by (simp add: quote_with_def parse_str_quote)
  next
    case False
    with Cons.prems(3) n have "length (join '','' (map member_text kvs)) + 1 < m"
      by (auto simp: join_Cons quote_with_def)
    with Cons.IH [of m] Cons.prems(1) False
    have "parse_members m (join '','' (map member_text kvs) @ CHR ''}'' # r) = Some (map (map_prod id denoted) kvs, r)" by (simp add: id_def)
    with False n p reads_backD [OF v _ len, of "CHR '','' # join '','' (map member_text kvs) @ CHR ''}'' # r"]
    show ?thesis by (simp add: join_Cons quote_with_def parse_str_quote id_def)
  qed
qed simp

lemma print_obj:
  "json_print esc (JObj kvs) = ''{'' @ join '','' (map member_text kvs) @ ''}''"
proof -
  have "map (\<lambda>(k, s). quote_with esc k @ '':'' @ s) (map (map_prod id (json_print esc)) kvs) = map member_text kvs"
    by (simp add: case_prod_beta)
  then show ?thesis by (simp del: map_map)
qed

lemma reads_back_list:
  assumes "\<forall>v \<in> set vs. reads_back v" shows "reads_back (JList vs)"
  unfolding reads_back_def
proof (intro allI impI)
  fix n r assume r: "num_stop r" and len: "length (json_print esc (JList vs)) < n"
  then obtain m where n: "n = Suc m" by (cases n) auto
  show "parse_value n (json_print esc (JList vs) @ r) = Some (denoted (JList vs), r)"
  proof (cases vs)
    case Nil
    with n show ?thesis by simp
  next
    case (Cons v ws)
    obtain c cs where c: "json_print esc v = c # cs" "\<not> is_json_ws c" "c \<noteq> CHR '']''"
      by (rule print_head [of v])
    let ?b = "join '','' (map (json_print esc) vs) @ CHR '']'' # r"
    obtain ds where ds: "?b = c # ds"
      using c Cons by (simp add: join_Cons)
    have "parse_elems m ?b = Some (map denoted vs, r)"
      using assms Cons len n by (intro parse_elems_join) auto
    with ds c n show ?thesis by (simp add: skip_ws_nonspace)
  qed
qed

lemma reads_back_obj:
  assumes "\<forall>p \<in> set kvs. reads_back (snd p)" shows "reads_back (JObj kvs)"
  unfolding reads_back_def
proof (intro allI impI)
  fix n r assume r: "num_stop r" and len: "length (json_print esc (JObj kvs)) < n"
  then obtain m where n: "n = Suc m" by (cases n) auto
  show "parse_value n (json_print esc (JObj kvs) @ r) = Some (denoted (JObj kvs), r)"
  proof (cases kvs)
    case Nil
    with n show ?thesis by (simp add: dict_of_def)
  next
    case (Cons p ps)
    let ?b = "join '','' (map member_text kvs) @ CHR ''}'' # r"
    obtain ds where ds: "?b = CHR 0x22 # ds"
      using Cons by (simp add: join_Cons quote_with_def)
    have "parse_members m ?b = Some (map (map_prod id denoted) kvs, r)"
      using assms Cons len n unfolding print_obj by (intro parse_members_join) auto
    with ds n show ?thesis
      by (simp add: print_obj del: json_print.simps)
  qed
qed

lemma all_read_back: "reads_back v"
proof (induction v)
  case JNull
  then show ?case
    by (auto simp: reads_back_def gr0_conv_Suc skip_ws_def is_json_ws_def parse_word_def less_iff_Suc_add)
next
  case (JBool b)
  then show ?case
    by (cases b)
      (auto simp: reads_back_def skip_ws_def is_json_ws_def parse_word_def less_iff_Suc_add)
next
  case (JInt i)
  show ?case
    unfolding reads_back_def
  proof (intro allI impI)
    fix n r assume "num_stop r" "length (json_print esc (JInt i)) < n"
    then show "parse_value n (json_print esc (JInt i) @ r) = Some (denoted (JInt i), r)"
      using parse_value_number by (cases n) auto
  qed
next
  case (JStr s)
  show ?case
    by (auto simp: reads_back_def quote_with_def parse_str_quote less_iff_Suc_add)
next
  case (JList vs)
  then show ?case by (intro reads_back_list) auto
next
  case (JObj kvs)
  then show ?case by (intro reads_back_obj) (metis prod.collapse snds.intros)
qed

text \<open>Reading back, also with trailing blanks.\<close>

lemma loads_print:
  assumes "num_stop r" "skip_ws r = []"
  shows "json_loads (json_print esc v @ r) = Some (denoted v)"
  using reads_backD [OF all_read_back assms(1), of v "Suc (length (json_print esc v @ r))"] assms(2)
  by (simp add: json_loads_def)

end

interpretation canonical_printer: json_printer escape_char
  by unfold_locales (rule parse_str_escape)

interpretation ascii_printer: json_printer escape_ascii
  by unfold_locales (rule parse_str_escape_ascii)

text \<open>\<open>json.loads(json.dumps(v)) == v\<close>\<close>

lemma json_loads_dumps: "wf_json v \<Longrightarrow> json_loads (json_dumps v) = Some v"
  using canonical_printer.loads_print [of "[]" v] by (simp add: json_dumps_def denoted_wf num_stop_def skip_ws_def)

lemma json_loads_dumps_ascii: "json_loads (json_dumps_ascii v) = Some (denoted v)"
  using ascii_printer.loads_print [of "[]" v] by (simp add: json_dumps_ascii_def num_stop_def skip_ws_def)


section \<open>UTF-8\<close>

definition utf8_char :: "char \<Rightarrow> string" where
  "utf8_char c =
    (let n = (of_char c :: nat)
     in if n < 128 then [c] else [char_of (192 + n div 64), char_of (128 + n mod 64)])"

definition utf8_encode :: "string \<Rightarrow> string" where
  "utf8_encode s = concat (map utf8_char s)"

text \<open>Decoding fails on invalid input, and on code points outside the alphabet.\<close>

fun utf8_decode :: "string \<Rightarrow> string option" where
  "utf8_decode [] = Some []"
| "utf8_decode (b # bs) =
    (let n = (of_char b :: nat)
     in if n < 128 then map_option (Cons b) (utf8_decode bs)
        else if n = 194 \<or> n = 195 then
          (case bs of
             [] \<Rightarrow> None
           | c # cs \<Rightarrow>
              let m = (of_char c :: nat)
              in if 128 \<le> m \<and> m < 192
                 then map_option (Cons (char_of ((n - 192) * 64 + (m - 128)))) (utf8_decode cs)
                 else None)
        else None)"

lemma utf8_decode_char: "utf8_decode (utf8_char c @ r) = map_option (Cons c) (utf8_decode r)"
proof (cases "(of_char c :: nat) < 128")
  case True
  then show ?thesis by (simp add: utf8_char_def)
next
  case False
  define n where "n = (of_char c :: nat)"
  have n: "128 \<le> n" "n < 256" using False by (simp_all add: n_def)
  then have d: "n div 64 = 2 \<or> n div 64 = 3" by auto
  have lead: "(of_char (char_of (192 + n div 64)) :: nat) = 192 + n div 64"
    using d by auto
  have tail: "(of_char (char_of (128 + n mod 64)) :: nat) = 128 + n mod 64"
    by (simp add: order.strict_trans1)
  have whole: "char_of (n div 64 * 64 + n mod 64) = c"
    by (simp add: n_def)
  have "utf8_char c = [char_of (192 + n div 64), char_of (128 + n mod 64)]"
    using False by (simp add: utf8_char_def n_def Let_def)
  then show ?thesis
    using d lead tail whole by (auto simp: Let_def)
qed

lemma utf8_decode_encode [simp]: "utf8_decode (utf8_encode s) = Some s"
  by (induction s) (simp_all add: utf8_encode_def utf8_decode_char)

text \<open>\<open>json.loads(raw)\<close> on bytes.\<close>

definition json_loads_bytes :: "string \<Rightarrow> json option" where
  "json_loads_bytes raw = (case utf8_decode raw of None \<Rightarrow> None | Some s \<Rightarrow> json_loads s)"

lemma json_loads_bytes_encode:
  "wf_json v \<Longrightarrow> json_loads_bytes (utf8_encode (json_dumps v)) = Some v"
  by (simp add: json_loads_bytes_def json_loads_dumps)


section \<open>Conversions\<close>

text \<open>\<open>==\<close> between values: \<open>True == 1\<close> and \<open>False == 0\<close> in Python.\<close>

primrec py_norm :: "json \<Rightarrow> json" where
  "py_norm JNull = JNull"
| "py_norm (JBool b) = JInt (if b then 1 else 0)"
| "py_norm (JInt i) = JInt i"
| "py_norm (JStr s) = JStr s"
| "py_norm (JList vs) = JList (map py_norm vs)"
| "py_norm (JObj kvs) = JObj (map (map_prod id py_norm) kvs)"

definition py_eq :: "json \<Rightarrow> json \<Rightarrow> bool" where
  "py_eq a b \<longleftrightarrow> py_norm a = py_norm b"

lemma py_eq_refl [simp]: "py_eq a a"
  by (simp add: py_eq_def)

text \<open>\<open>repr\<close> of a string and \<open>str\<close> of a value (a dictionary in key order).\<close>

definition repr_char :: "char \<Rightarrow> char \<Rightarrow> string" where
  "repr_char q c =
    (let n = (of_char c :: nat)
     in if c = q \<or> c = CHR 0x5C then [CHR 0x5C, c]
        else if n = 10 then [CHR 0x5C, CHR ''n'']
        else if n = 13 then [CHR 0x5C, CHR ''r'']
        else if n = 9 then [CHR 0x5C, CHR ''t'']
        else if n < 32 \<or> 127 \<le> n \<and> n \<le> 160 \<or> n = 173
        then [CHR 0x5C, CHR ''x'', hex_char (n div 16), hex_char (n mod 16)]
        else [c])"

definition repr_str :: "string \<Rightarrow> string" where
  "repr_str s =
    (let q = (if CHR 0x27 \<in> set s \<and> CHR 0x22 \<notin> set s then CHR 0x22 else CHR 0x27)
     in q # concat (map (repr_char q) s) @ [q])"

primrec py_repr :: "json \<Rightarrow> string" where
  "py_repr JNull = ''None''"
| "py_repr (JBool b) = (if b then ''True'' else ''False'')"
| "py_repr (JInt i) = show_int i"
| "py_repr (JStr s) = repr_str s"
| "py_repr (JList vs) = ''['' @ join '', '' (map py_repr vs) @ '']''"
| "py_repr (JObj kvs) =
     ''{'' @ join '', '' (map (\<lambda>(k, r). repr_str k @ '': '' @ r) (map (map_prod id py_repr) kvs)) @ ''}''"

definition py_str :: "json \<Rightarrow> string" where
  "py_str v = (case v of JStr s \<Rightarrow> s | _ \<Rightarrow> py_repr v)"

lemma py_str_JStr [simp]: "py_str (JStr s) = s"
  by (simp add: py_str_def)

text \<open>\<open>int(v)\<close>: \<open>ValueError\<close> for a string that is no numeral, \<open>TypeError\<close> for other types.\<close>

datatype py_error = TypeError | ValueError | AttributeError | KeyError string | UnicodeDecodeError

fun underscores_ok :: "string \<Rightarrow> bool" where
  "underscores_ok [] = False"
| "underscores_ok [c] = is_digit c"
| "underscores_ok (c # d # cs) =
     (is_digit c \<and> (if d = CHR ''_'' then underscores_ok cs else underscores_ok (d # cs)))"

definition int_of_str :: "string \<Rightarrow> int option" where
  "int_of_str s =
    (let t = py_strip s;
         neg = (t \<noteq> [] \<and> hd t = CHR ''-'');
         body = (if t \<noteq> [] \<and> (hd t = CHR ''-'' \<or> hd t = CHR ''+'') then tl t else t)
     in if underscores_ok body
        then (let n = int (digits_val (filter is_digit body)) in Some (if neg then - n else n))
        else None)"

fun py_int :: "json \<Rightarrow> py_error + int" where
  "py_int (JBool b) = Inr (if b then 1 else 0)"
| "py_int (JInt i) = Inr i"
| "py_int (JStr s) = (case int_of_str s of None \<Rightarrow> Inl ValueError | Some i \<Rightarrow> Inr i)"
| "py_int _ = Inl TypeError"

text \<open>\<open>int(v or d)\<close> and \<open>list(v or [])\<close>\<close>

definition int_or :: "json \<Rightarrow> int \<Rightarrow> py_error + int" where
  "int_or v d = (if jtruthy v then py_int v else Inr d)"

fun list_or_empty :: "json \<Rightarrow> py_error + json list" where
  "list_or_empty v =
    (if \<not> jtruthy v then Inr []
     else case v of
            JList vs \<Rightarrow> Inr vs
          | JStr s \<Rightarrow> Inr (map (\<lambda>c. JStr [c]) s)
          | JObj kvs \<Rightarrow> Inr (map (\<lambda>p. JStr (fst p)) kvs)
          | _ \<Rightarrow> Inl TypeError)"

lemma int_or_JInt [simp]: "int_or (JInt i) 0 = Inr i"
  by (simp add: int_or_def)

lemma list_or_empty_JList [simp]: "list_or_empty (JList vs) = Inr vs"
  by simp

declare list_or_empty.simps [simp del]

text \<open>The character class of a hexadecimal digest.\<close>

definition is_lower_hex :: "char \<Rightarrow> bool" where
  "is_lower_hex c \<longleftrightarrow> c \<in> set ''0123456789abcdef''"

section \<open>Dictionaries as values\<close>

lemma map_of_dict_of: "map_of (dict_of kvs) k = map_of (rev kvs) k"
  by (induction kvs rule: rev_induct) (simp_all add: dict_of_def)

lemma dict_ok_dict_of: "dict_ok (dict_of kvs)"
  by (induction kvs rule: rev_induct) (simp_all add: dict_of_snoc dict_ok_dset, simp add: dict_of_def dict_ok_def)

lemma get_dset [simp]: "dict_get_json (dset k v d) k' = (if k' = k then v else dict_get_json d k')"
  by (simp add: dict_get_json_def)

lemma get_ddel [simp]: "dict_get_json (ddel k d) k' = (if k' = k then JNull else dict_get_json d k')"
  by (simp add: dict_get_json_def)

lemma wf_json_objI: "dict_ok d \<Longrightarrow> (\<And>k v. map_of d k = Some v \<Longrightarrow> wf_json v) \<Longrightarrow> wf_json (JObj d)"
  by (auto simp: wf_json_obj dict_ok_distinct)

lemma wf_json_objD: "wf_json (JObj d) \<Longrightarrow> map_of d k = Some v \<Longrightarrow> wf_json v"
  by (auto simp: wf_json_obj dest: map_of_SomeD)

lemma wf_json_dict_ok: "wf_json (JObj d) \<Longrightarrow> dict_ok d"
  by (simp add: wf_json_obj)

lemma wf_dict_of: "\<forall>(k, v) \<in> set kvs. wf_json v \<Longrightarrow> wf_json (JObj (dict_of kvs))"
  by (rule wf_json_objI [OF dict_ok_dict_of])
     (auto simp: map_of_dict_of dest!: map_of_SomeD)

lemma wf_dset: "wf_json (JObj d) \<Longrightarrow> wf_json v \<Longrightarrow> wf_json (JObj (dset k v d))"
  by (rule wf_json_objI) (auto simp: dict_ok_dset wf_json_dict_ok dest: wf_json_objD split: if_splits)

lemma wf_ddel: "wf_json (JObj d) \<Longrightarrow> wf_json (JObj (ddel k d))"
  by (rule wf_json_objI) (auto simp: dict_ok_ddel wf_json_dict_ok dest: wf_json_objD split: if_splits)

lemma wf_get: "wf_json (JObj d) \<Longrightarrow> wf_json (dict_get_json d k)"
  by (auto simp: dict_get_json_def dest: wf_json_objD split: option.splits)

lemma py_eq_JStr [simp]: "py_eq v (JStr s) \<longleftrightarrow> v = JStr s"
  by (cases v) (auto simp: py_eq_def)

text \<open>A document followed by a line feed, as the writers of JSON files leave it.\<close>

lemma json_loads_dumps_newline: "wf_json v \<Longrightarrow> json_loads (json_dumps v @ [CHR 0x0A]) = Some v"
  using canonical_printer.loads_print [of "[CHR 0x0A]" v]
  by (simp add: json_dumps_def denoted_wf num_stop_def skip_ws_def is_json_ws_def is_digit_def)

lemma utf8_encode_append: "utf8_encode (s @ t) = utf8_encode s @ utf8_encode t"
  by (simp add: utf8_encode_def)

lemma utf8_encode_newline: "utf8_encode [CHR 0x0A] = [CHR 0x0A]"
  by (simp add: utf8_encode_def utf8_char_def)

end
