(* ===== verification/Gitllery_Segments.thy ===== *)
theory Gitllery_Segments
  imports Json
begin

text \<open>
  The append-only segment repository of \<^verbatim>\<open>backend/gitllery_format/repository.py\<close>.

  The directory is a record: the bytes of \<^verbatim>\<open>manifest.json\<close> and \<^verbatim>\<open>config.json\<close>, and for every
  segment file its digest (the file name) with the result of \<^verbatim>\<open>zlib.decompress\<close> on its bytes,
  \<open>None\<close> when that raises. A write through a temporary file and \<^verbatim>\<open>os.replace\<close> is one update.
  \<^verbatim>\<open>hashlib.sha256(raw).hexdigest()\<close> is the argument \<open>H\<close> and the clock is an argument.
  A generator is the list of what it yields, with the exception that ends it, if any.
\<close>

section \<open>Format constants, errors and the directory\<close>

definition PRODUCT_VERSION :: string where "PRODUCT_VERSION = ''v1''"
definition FORMAT_ID :: string where "FORMAT_ID = ''gitllery-segment''"
definition FORMAT_REVISION :: int where "FORMAT_REVISION = 1"
definition MAX_COMMITS_PER_SEGMENT :: nat where "MAX_COMMITS_PER_SEGMENT = 100"
definition MAX_SEGMENT_BYTES :: nat where "MAX_SEGMENT_BYTES = 4 * 1024 * 1024"
definition MAX_CHANGES_PER_FRAME :: nat where "MAX_CHANGES_PER_FRAME = 25"
definition MAX_FRAME_BYTES :: nat where "MAX_FRAME_BYTES = 1024 * 1024"

datatype gl_error = GitlleryFormatError string | PyError py_error

definition lift_py :: "py_error + 'a \<Rightarrow> gl_error + 'a" where
  "lift_py r = (case r of Inl e \<Rightarrow> Inl (PyError e) | Inr x \<Rightarrow> Inr x)"

lemma lift_py_simps [simp]: "lift_py (Inr x) = Inr x" "lift_py (Inl e) = Inl (PyError e)"
  by (simp_all add: lift_py_def)

type_synonym obj = "json sdict"

record gl_repo =
  manifest_file :: "string option"
  config_file :: "string option"
  segment_files :: "(string, string option) dict"

text \<open>An entry of \<^verbatim>\<open>VerifyResult.errors\<close>; the text of an operating system or decoder error is left out.\<close>

datatype verify_error = ErrorText string | UnreadableConfig

record verify_result =
  vr_ok :: bool
  vr_segments :: nat
  vr_commits :: nat
  vr_changes :: nat
  vr_errors :: "verify_error list"

definition canonical_bytes :: "json \<Rightarrow> string" where
  "canonical_bytes v = utf8_encode (json_dumps v)"

definition atomic_json :: "obj \<Rightarrow> string" where
  "atomic_json d = canonical_bytes (JObj d) @ [CHR 0x0A]"

section \<open>Reading\<close>

definition repo_exists :: "gl_repo \<Rightarrow> bool" where
  "repo_exists r \<longleftrightarrow> manifest_file r \<noteq> None"

text \<open>The header check; the value it accepts is a dictionary, which it returns.\<close>

definition validate_header :: "json \<Rightarrow> string \<Rightarrow> gl_error + obj" where
  "validate_header v kind =
    (case v of
       JObj d \<Rightarrow>
         if \<not> py_eq (dict_get_json d ''product_version'') (JStr PRODUCT_VERSION)
         then Inl (GitlleryFormatError (''unsupported '' @ kind @ '' product version''))
         else if \<not> py_eq (dict_get_json d ''format_id'') (JStr FORMAT_ID)
         then Inl (GitlleryFormatError (''unsupported '' @ kind @ '' format''))
         else if \<not> py_eq (dict_get_json d ''format_revision'') (JInt FORMAT_REVISION)
         then Inl (GitlleryFormatError (''unsupported '' @ kind @ '' format revision''))
         else Inr d
     | _ \<Rightarrow> Inl (PyError AttributeError))"

definition read_manifest :: "gl_repo \<Rightarrow> gl_error + obj" where
  "read_manifest r =
    (case manifest_file r of
       None \<Rightarrow> Inl (GitlleryFormatError ''cannot read Gitllery manifest'')
     | Some raw \<Rightarrow>
         (case utf8_decode raw of
            None \<Rightarrow> Inl (PyError UnicodeDecodeError)
          | Some txt \<Rightarrow>
              (case json_loads txt of
                 None \<Rightarrow> Inl (GitlleryFormatError ''cannot read Gitllery manifest'')
               | Some v \<Rightarrow> validate_header v ''manifest'')))"

definition segment_path :: "string \<Rightarrow> gl_error + string" where
  "segment_path dig =
    (if length dig \<noteq> 64 \<or> \<not> list_all is_lower_hex dig
     then Inl (GitlleryFormatError ''invalid segment digest'') else Inr dig)"

definition read_segment :: "(string \<Rightarrow> string) \<Rightarrow> gl_repo \<Rightarrow> string \<Rightarrow> gl_error + obj" where
  "read_segment H r dig =
    bindE (segment_path dig) (\<lambda>path.
      case map_of (segment_files r) path of
        Some (Some raw) \<Rightarrow>
          (case utf8_decode raw of
             None \<Rightarrow> Inl (PyError UnicodeDecodeError)
           | Some txt \<Rightarrow>
               (case json_loads txt of
                  None \<Rightarrow> Inl (GitlleryFormatError (''cannot read segment '' @ dig))
                | Some v \<Rightarrow>
                    if H raw \<noteq> dig
                    then Inl (GitlleryFormatError (''segment hash mismatch: '' @ dig))
                    else validate_header v ''segment''))
      | _ \<Rightarrow> Inl (GitlleryFormatError (''cannot read segment '' @ dig)))"

section \<open>Initialising\<close>

definition json_opt :: "string option \<Rightarrow> json" where
  "json_opt x = (case x of None \<Rightarrow> JNull | Some s \<Rightarrow> JStr s)"

definition initial_config :: "string \<Rightarrow> string option \<Rightarrow> string option \<Rightarrow> obj" where
  "initial_config repository_id source creator_dir =
    dict_of
     [(''product'', JStr ''gitllery''),
      (''product_version'', JStr PRODUCT_VERSION),
      (''format_id'', JStr FORMAT_ID),
      (''format_revision'', JInt FORMAT_REVISION),
      (''repository_id'', JStr repository_id),
      (''source'', json_opt source),
      (''creator_dir'', json_opt creator_dir)]"

definition initial_manifest :: "string \<Rightarrow> string \<Rightarrow> string \<Rightarrow> obj" where
  "initial_manifest repository_id generation now =
    dict_of
     [(''product'', JStr ''gitllery''),
      (''product_version'', JStr PRODUCT_VERSION),
      (''format_id'', JStr FORMAT_ID),
      (''format_revision'', JInt FORMAT_REVISION),
      (''repository_id'', JStr repository_id),
      (''generation'', JStr generation),
      (''head_segment'', JNull),
      (''last_complete_commit_id'', JNull),
      (''last_complete_position'', JNull),
      (''segment_count'', JInt 0),
      (''commit_count'', JInt 0),
      (''change_count'', JInt 0),
      (''updated_at'', JStr now)]"

definition initialise ::
  "string \<Rightarrow> string option \<Rightarrow> string option \<Rightarrow> string option \<Rightarrow> string \<Rightarrow> gl_repo
   \<Rightarrow> (gl_error + unit) \<times> gl_repo" where
  "initialise repository_id source creator_dir generation now r =
    (if repo_exists r then (bindE (read_manifest r) (\<lambda>_. Inr ()), r)
     else
       let gen = (case generation of Some (c # cs) \<Rightarrow> c # cs | _ \<Rightarrow> now)
       in (Inr (), r\<lparr>config_file := Some (atomic_json (initial_config repository_id source creator_dir)),
                     manifest_file := Some (atomic_json (initial_manifest repository_id gen now))\<rparr>))"

section \<open>Frames of a commit\<close>

definition encoded_frame :: "obj \<Rightarrow> json list \<Rightarrow> nat" where
  "encoded_frame base chs = length (canonical_bytes (JObj (dset ''changes'' (JList chs) base)))"

fun split_changes :: "obj \<Rightarrow> json list \<Rightarrow> json list \<Rightarrow> gl_error + json list list" where
  "split_changes base current [] = Inr (if current = [] then [] else [current])"
| "split_changes base current (change # rest) =
    (let candidate = current @ [change];
         cut = (current \<noteq> [] \<and>
                (MAX_CHANGES_PER_FRAME \<le> length current \<or>
                 MAX_FRAME_BYTES < encoded_frame base candidate));
         current' = (if cut then [change] else candidate)
     in if MAX_FRAME_BYTES < encoded_frame base current'
        then Inl (GitlleryFormatError ''one curation change exceeds 1 MiB frame limit'')
        else bindE (split_changes base current' rest)
               (\<lambda>chunks. Inr (if cut then current # chunks else chunks)))"

definition frame_of :: "obj \<Rightarrow> nat \<Rightarrow> nat \<Rightarrow> json list \<Rightarrow> obj" where
  "frame_of base n i chunk =
    dset ''changes'' (JList chunk) (dset ''frame_count'' (JInt (int n)) (dset ''frame'' (JInt (int i)) base))"

definition frames_for_commit :: "obj \<Rightarrow> gl_error + obj list" where
  "frames_for_commit commit =
    bindE (lift_py (list_or_empty (dict_get_json commit ''changes''))) (\<lambda>changes.
      let base = ddel ''changes'' commit
      in if changes = [] then Inr [frame_of base 1 0 []]
         else bindE (split_changes base [] changes) (\<lambda>chunks.
                Inr (map2 (frame_of base (length chunks)) [0..<length chunks] chunks)))"

section \<open>Publishing\<close>

text \<open>\<open>str(v or "")\<close>\<close>

definition str_or_empty :: "json \<Rightarrow> string" where
  "str_or_empty v = (if jtruthy v then py_str v else [])"

definition segment_doc :: "json \<Rightarrow> int \<Rightarrow> json \<Rightarrow> obj list \<Rightarrow> obj" where
  "segment_doc repository_id sequence previous_segment frames =
    dict_of
     [(''product'', JStr ''gitllery''),
      (''product_version'', JStr PRODUCT_VERSION),
      (''format_id'', JStr FORMAT_ID),
      (''format_revision'', JInt FORMAT_REVISION),
      (''repository_id'', repository_id),
      (''sequence'', JInt sequence),
      (''previous_segment'', previous_segment),
      (''frames'', JList (map JObj frames))]"

definition segment_size :: "obj \<Rightarrow> nat" where
  "segment_size seg = length (canonical_bytes (JObj seg))"

definition write_segment ::
  "(string \<Rightarrow> string) \<Rightarrow> obj \<Rightarrow> gl_repo \<Rightarrow> (gl_error + string) \<times> gl_repo" where
  "write_segment H seg r =
    (let raw = canonical_bytes (JObj seg)
     in if MAX_SEGMENT_BYTES < length raw
        then (Inl (GitlleryFormatError ''segment exceeds 4 MiB uncompressed limit''), r)
        else let dig = H raw
             in case segment_path dig of
                  Inl e \<Rightarrow> (Inl e, r)
                | Inr path \<Rightarrow>
                    if map_of (segment_files r) path \<noteq> None
                    then (bindE (read_segment H r dig) (\<lambda>_. Inr dig), r)
                    else (Inr dig, r\<lparr>segment_files := (path, Some raw) # segment_files r\<rparr>))"

text \<open>The first loop of \<^verbatim>\<open>append\<close>: the frames of the pending commits, and the counters.\<close>

fun check_pending :: "json \<Rightarrow> int \<Rightarrow> int \<Rightarrow> obj list \<Rightarrow> gl_error + (json \<times> int \<times> int \<times> obj list)" where
  "check_pending previous_commit commit_count change_count [] =
     Inr (previous_commit, commit_count, change_count, [])"
| "check_pending previous_commit commit_count change_count (commit # rest) =
    (let commit_id = str_or_empty (dict_get_json commit ''commit_id'');
         parent = dict_get_json commit ''parent_commit_id''
     in if commit_id = [] then Inl (GitlleryFormatError ''commit_id is required'')
        else if previous_commit \<noteq> JNull \<and> py_str parent \<noteq> py_str previous_commit
        then Inl (GitlleryFormatError
                   (''commit '' @ commit_id @ '' does not follow '' @ py_str previous_commit))
        else bindE (frames_for_commit commit) (\<lambda>frames.
               bindE (lift_py (list_or_empty (dict_get_json commit ''changes''))) (\<lambda>chs.
                 bindE (check_pending (JStr commit_id) (commit_count + 1)
                          (change_count + int (length chs)) rest)
                   (\<lambda>(p, n, m, fs). Inr (p, n, m, frames @ fs)))))"

definition publish_segment ::
  "(string \<Rightarrow> string) \<Rightarrow> json \<Rightarrow> obj list \<Rightarrow> json \<Rightarrow> int \<Rightarrow> gl_repo
   \<Rightarrow> (gl_error + (json \<times> int)) \<times> gl_repo" where
  "publish_segment H repository_id frames previous_segment segment_count r =
    (if frames = [] then (Inr (previous_segment, segment_count), r)
     else case write_segment H (segment_doc repository_id (segment_count + 1) previous_segment frames) r of
            (Inl e, r') \<Rightarrow> (Inl e, r')
          | (Inr dig, r') \<Rightarrow> (Inr (JStr dig, segment_count + 1), r'))"

text \<open>The second loop: frames are gathered until the next one would make the segment too large.\<close>

fun publish_frames ::
  "(string \<Rightarrow> string) \<Rightarrow> obj \<Rightarrow> obj list \<Rightarrow> string list \<Rightarrow> json \<Rightarrow> int \<Rightarrow> obj list \<Rightarrow> gl_repo
   \<Rightarrow> (gl_error + (json \<times> int)) \<times> gl_repo" where
  "publish_frames H manifest frames ids prev cnt [] r =
     (if frames = [] then (Inr (prev, cnt), r)
      else case map_of manifest ''repository_id'' of
             None \<Rightarrow> (Inl (PyError (KeyError ''repository_id'')), r)
           | Some rid \<Rightarrow> publish_segment H rid frames prev cnt r)"
| "publish_frames H manifest frames ids prev cnt (frame # rest) r =
    (case map_of frame ''commit_id'' of
       None \<Rightarrow> (Inl (PyError (KeyError ''commit_id'')), r)
     | Some cid \<Rightarrow>
      (case map_of manifest ''repository_id'' of
         None \<Rightarrow> (Inl (PyError (KeyError ''repository_id'')), r)
       | Some rid \<Rightarrow>
           if frames \<noteq> [] \<and>
              (MAX_COMMITS_PER_SEGMENT < length (List.insert (py_str cid) ids) \<or>
               MAX_SEGMENT_BYTES < segment_size (segment_doc rid (cnt + 1) prev (frames @ [frame])))
           then (case publish_segment H rid frames prev cnt r of
                   (Inl e, r') \<Rightarrow> (Inl e, r')
                 | (Inr (prev', cnt'), r') \<Rightarrow>
                     if MAX_SEGMENT_BYTES < segment_size (segment_doc rid (cnt' + 1) prev' [frame])
                     then (Inl (GitlleryFormatError ''one continuation frame exceeds segment limit''), r')
                     else publish_frames H manifest [frame] [py_str cid] prev' cnt' rest r')
           else if MAX_SEGMENT_BYTES < segment_size (segment_doc rid (cnt + 1) prev (frames @ [frame]))
           then (Inl (GitlleryFormatError ''one continuation frame exceeds segment limit''), r)
           else publish_frames H manifest (frames @ [frame]) (List.insert (py_str cid) ids) prev cnt rest r))"

definition updated_manifest :: "obj \<Rightarrow> json \<Rightarrow> json \<Rightarrow> int \<Rightarrow> int \<Rightarrow> int \<Rightarrow> string \<Rightarrow> obj" where
  "updated_manifest manifest previous_segment previous_commit segment_count commit_count change_count now =
    dset ''updated_at'' (JStr now)
     (dset ''change_count'' (JInt change_count)
      (dset ''commit_count'' (JInt commit_count)
       (dset ''segment_count'' (JInt segment_count)
        (dset ''last_complete_position''
           (JObj (dict_of [(''segment'', previous_segment), (''sequence'', JInt segment_count)]))
         (dset ''last_complete_commit_id'' previous_commit
          (dset ''head_segment'' previous_segment manifest))))))"

text \<open>What is decided before the first write: the counters and the frames.\<close>

definition append_plan :: "obj \<Rightarrow> obj list \<Rightarrow> gl_error + (int \<times> json \<times> int \<times> int \<times> obj list)" where
  "append_plan manifest pending =
    bindE (lift_py (int_or (dict_get_json manifest ''segment_count'') 0)) (\<lambda>segment_count.
    bindE (lift_py (int_or (dict_get_json manifest ''commit_count'') 0)) (\<lambda>commit_count.
    bindE (lift_py (int_or (dict_get_json manifest ''change_count'') 0)) (\<lambda>change_count.
    bindE (check_pending (dict_get_json manifest ''last_complete_commit_id'') commit_count change_count pending)
      (\<lambda>checked. Inr (segment_count, checked)))))"

definition already_published :: "obj \<Rightarrow> obj list \<Rightarrow> bool" where
  "already_published manifest pending \<longleftrightarrow>
    length pending = 1 \<and>
    py_str (dict_get_json (hd pending) ''commit_id'') =
    py_str (dict_get_json manifest ''last_complete_commit_id'')"

definition append_commits ::
  "(string \<Rightarrow> string) \<Rightarrow> string \<Rightarrow> obj list \<Rightarrow> gl_repo \<Rightarrow> (gl_error + obj) \<times> gl_repo" where
  "append_commits H now pending r =
    (case read_manifest r of
       Inl e \<Rightarrow> (Inl e, r)
     | Inr manifest \<Rightarrow>
         if pending = [] \<or> already_published manifest pending then (Inr manifest, r)
         else case append_plan manifest pending of
           Inl e \<Rightarrow> (Inl e, r)
         | Inr (segment_count, previous_commit, commit_count, change_count, all_frames) \<Rightarrow>
             (case publish_frames H manifest [] [] (dict_get_json manifest ''head_segment'')
                     segment_count all_frames r of
                (Inl e, r') \<Rightarrow> (Inl e, r')
              | (Inr (previous_segment, segment_count'), r') \<Rightarrow>
                  let updated = updated_manifest manifest previous_segment previous_commit
                                  segment_count' commit_count change_count now
                  in (Inr updated, r'\<lparr>manifest_file := Some (atomic_json updated)\<rparr>)))"

section \<open>Iterating\<close>

text \<open>
  Following \<^verbatim>\<open>previous_segment\<close> from the head. The loop ends because every round reads a stored
  segment whose digest was not seen before.
\<close>

function walk_chain ::
  "(string \<Rightarrow> string) \<Rightarrow> gl_repo \<Rightarrow> json \<Rightarrow> string list \<Rightarrow> (string \<times> obj) list \<times> gl_error option" where
  "walk_chain H r dig seen =
    (if \<not> jtruthy dig then ([], None)
     else case dig of
            JStr d \<Rightarrow>
              if d \<in> set seen then ([], Some (GitlleryFormatError ''segment chain contains a cycle''))
              else (case read_segment H r d of
                      Inl e \<Rightarrow> ([], Some e)
                    | Inr seg \<Rightarrow>
                        (case walk_chain H r (dict_get_json seg ''previous_segment'') (d # seen) of
                           (ys, e) \<Rightarrow> ((d, seg) # ys, e)))
          | _ \<Rightarrow> ([], Some (PyError TypeError)))"
  by pat_completeness auto

lemma read_segment_stored: "read_segment H r d = Inr seg \<Longrightarrow> d \<in> fst ` set (segment_files r)"
  by (force simp: read_segment_def segment_path_def split: if_splits option.splits dest: map_of_SomeD)

termination walk_chain
proof (relation "measure (\<lambda>(H, r, dig, seen). card (fst ` set (segment_files r) - set seen))", goal_cases)
  case 1
  then show ?case by simp
next
  case (2 H r dig seen d seg)
  then have "d \<in> fst ` set (segment_files r) - set seen" by (simp add: read_segment_stored)
  then have "card (fst ` set (segment_files r) - set seen - {d}) < card (fst ` set (segment_files r) - set seen)"
    by (intro psubset_card_mono) auto
  moreover have "fst ` set (segment_files r) - set (d # seen) = fst ` set (segment_files r) - set seen - {d}"
    by auto
  ultimately show ?case by simp
qed

declare walk_chain.simps [simp del]

fun yield_segments :: "(string \<Rightarrow> string) \<Rightarrow> gl_repo \<Rightarrow> string list \<Rightarrow> (string \<times> obj) list \<times> gl_error option" where
  "yield_segments H r [] = ([], None)"
| "yield_segments H r (d # ds) =
    (case read_segment H r d of
       Inl e \<Rightarrow> ([], Some e)
     | Inr seg \<Rightarrow> (case yield_segments H r ds of (ys, e) \<Rightarrow> ((d, seg) # ys, e)))"

definition iter_segments ::
  "(string \<Rightarrow> string) \<Rightarrow> gl_repo \<Rightarrow> bool \<Rightarrow> (string \<times> obj) list \<times> gl_error option" where
  "iter_segments H r newest_first =
    (case read_manifest r of
       Inl e \<Rightarrow> ([], Some e)
     | Inr manifest \<Rightarrow>
         (case walk_chain H r (dict_get_json manifest ''head_segment'') [] of
            (chain, err) \<Rightarrow>
              if newest_first then (chain, err)
              else case err of
                     Some e \<Rightarrow> ([], Some e)
                   | None \<Rightarrow> yield_segments H r (rev (map fst chain))))"

text \<open>\<^verbatim>\<open>assemble\<close>: the frames of one commit in frame order, checked to be complete.\<close>

definition assemble :: "obj list \<Rightarrow> gl_error + obj" where
  "assemble items =
    bindE (mapE (\<lambda>f. lift_py (int_or (dict_get_json f ''frame'') 0)) items) (\<lambda>keys.
      let keyed = sort_key fst (zip keys items);
          ordered = map snd keyed
      in bindE (lift_py (int_or (dict_get_json (hd ordered) ''frame_count'') 1)) (\<lambda>count.
           if int (length ordered) \<noteq> count \<or> map fst keyed \<noteq> map int [0..<nat count]
           then Inl (GitlleryFormatError
                  (''incomplete continuation frames for '' @
                   py_str (dict_get_json (hd ordered) ''commit_id'')))
           else bindE (mapE (\<lambda>f. lift_py (list_or_empty (dict_get_json f ''changes''))) ordered)
                  (\<lambda>chunks. Inr (dset ''changes'' (JList (concat chunks))
                     (ddel ''frame_count'' (ddel ''frame'' (ddel ''changes'' (hd ordered))))))))"

text \<open>
  The grouping loop of \<^verbatim>\<open>iter_commits\<close>: the state is \<^verbatim>\<open>current_id\<close> and the frames gathered so far.
\<close>

type_synonym scan_state = "string option \<times> obj list"

fun scan_frames :: "json list \<Rightarrow> scan_state \<Rightarrow> obj list \<times> (gl_error + scan_state)" where
  "scan_frames [] st = ([], Inr st)"
| "scan_frames (frame # rest) (current_id, frames) =
    (case frame of
       JObj f \<Rightarrow>
         (let commit_id = str_or_empty (dict_get_json f ''commit_id'')
          in if commit_id = [] then ([], Inl (GitlleryFormatError ''segment frame has no commit_id''))
             else if current_id \<noteq> None \<and> Some commit_id \<noteq> current_id
             then (case assemble frames of
                     Inl e \<Rightarrow> ([], Inl e)
                   | Inr c \<Rightarrow> (case scan_frames rest (Some commit_id, [f]) of (ys, s) \<Rightarrow> (c # ys, s)))
             else scan_frames rest (Some commit_id, frames @ [f]))
     | _ \<Rightarrow> ([], Inl (PyError AttributeError)))"

fun scan_segments :: "bool \<Rightarrow> (string \<times> obj) list \<Rightarrow> scan_state \<Rightarrow> obj list \<times> (gl_error + scan_state)" where
  "scan_segments newest_first [] st = ([], Inr st)"
| "scan_segments newest_first ((d, seg) # segs) st =
    (case lift_py (list_or_empty (dict_get_json seg ''frames'')) of
       Inl e \<Rightarrow> ([], Inl e)
     | Inr fs \<Rightarrow>
         (case scan_frames (if newest_first then rev fs else fs) st of
            (ys, Inl e) \<Rightarrow> (ys, Inl e)
          | (ys, Inr st') \<Rightarrow>
              (case scan_segments newest_first segs st' of (zs, s) \<Rightarrow> (ys @ zs, s))))"

definition iter_commits :: "(string \<Rightarrow> string) \<Rightarrow> gl_repo \<Rightarrow> bool \<Rightarrow> obj list \<times> gl_error option" where
  "iter_commits H r newest_first =
    (case iter_segments H r newest_first of
       (segs, err) \<Rightarrow>
         (case scan_segments newest_first segs (None, []) of
            (ys, Inl e) \<Rightarrow> (ys, Some e)
          | (ys, Inr (_, frames)) \<Rightarrow>
              (case err of
                 Some e \<Rightarrow> (ys, Some e)
               | None \<Rightarrow>
                   if frames = [] then (ys, None)
                   else case assemble frames of
                          Inl e \<Rightarrow> (ys, Some e)
                        | Inr c \<Rightarrow> (ys @ [c], None))))"

definition find_commit :: "(string \<Rightarrow> string) \<Rightarrow> gl_repo \<Rightarrow> string \<Rightarrow> gl_error + obj option" where
  "find_commit H r commit_id =
    (case iter_commits H r True of
       (cs, err) \<Rightarrow>
         (case List.find (\<lambda>c. py_str (dict_get_json c ''commit_id'') = commit_id) cs of
            Some c \<Rightarrow> Inr (Some c)
          | None \<Rightarrow> (case err of Some e \<Rightarrow> Inl e | None \<Rightarrow> Inr None)))"

definition export_repo :: "(string \<Rightarrow> string) \<Rightarrow> gl_repo \<Rightarrow> gl_error + (obj \<times> obj list)" where
  "export_repo H r =
    bindE (read_manifest r) (\<lambda>manifest.
      case iter_commits H r False of
        (cs, None) \<Rightarrow> Inr (manifest, cs)
      | (_, Some e) \<Rightarrow> Inl e)"

section \<open>Verifying\<close>

definition check_config :: "gl_repo \<Rightarrow> obj \<Rightarrow> gl_error + verify_error list" where
  "check_config r manifest =
    (case config_file r of
       None \<Rightarrow> Inr [UnreadableConfig]
     | Some raw \<Rightarrow>
         (case utf8_decode raw of
            None \<Rightarrow> Inl (PyError UnicodeDecodeError)
          | Some txt \<Rightarrow>
              (case json_loads txt of
                 None \<Rightarrow> Inr [UnreadableConfig]
               | Some v \<Rightarrow>
                   (case validate_header v ''config'' of
                      Inl (GitlleryFormatError msg) \<Rightarrow>
                        Inr [ErrorText (''cannot verify Gitllery config: '' @ msg)]
                    | Inl e \<Rightarrow> Inl e
                    | Inr config \<Rightarrow>
                        if \<not> py_eq (dict_get_json config ''repository_id'') (dict_get_json manifest ''repository_id'')
                        then Inr [ErrorText ''config repository does not match manifest'']
                        else Inr []))))"

definition err_if :: "bool \<Rightarrow> string \<Rightarrow> verify_error list" where
  "err_if b msg = (if b then [ErrorText msg] else [])"

fun verify_segments ::
  "obj \<Rightarrow> (string \<times> obj) list \<Rightarrow> nat \<Rightarrow> json \<Rightarrow> gl_error + (nat \<times> json \<times> verify_error list)" where
  "verify_segments manifest [] n prev = Inr (n, prev, [])"
| "verify_segments manifest ((d, seg) # segs) n prev =
    bindE (lift_py (int_or (dict_get_json seg ''sequence'') 0)) (\<lambda>sequence.
      let errs =
        err_if (\<not> py_eq (dict_get_json seg ''previous_segment'') prev)
          (''segment '' @ d @ '' has a broken parent'') @
        err_if (sequence \<noteq> int (n + 1)) (''segment '' @ d @ '' has an invalid sequence'') @
        err_if (\<not> py_eq (dict_get_json seg ''repository_id'') (dict_get_json manifest ''repository_id''))
          (''segment '' @ d @ '' belongs to another repository'')
      in bindE (verify_segments manifest segs (n + 1) (JStr d))
           (\<lambda>(n', prev', errs'). Inr (n', prev', errs @ errs')))"

fun verify_commits ::
  "obj list \<Rightarrow> nat \<Rightarrow> nat \<Rightarrow> string option \<Rightarrow> gl_error + (nat \<times> nat \<times> string option \<times> verify_error list)" where
  "verify_commits [] n m prev = Inr (n, m, prev, [])"
| "verify_commits (c # cs) n m prev =
    (let errs = err_if (prev \<noteq> None \<and> Some (py_str (dict_get_json c ''parent_commit_id'')) \<noteq> prev)
                  (''commit '' @ py_str (dict_get_json c ''commit_id'') @ '' has a broken parent'')
     in bindE (lift_py (list_or_empty (dict_get_json c ''changes''))) (\<lambda>chs.
          bindE (verify_commits cs (n + 1) (m + length chs) (Some (py_str (dict_get_json c ''commit_id''))))
            (\<lambda>(n', m', prev', errs'). Inr (n', m', prev', errs @ errs'))))"

definition verify_report :: "nat \<Rightarrow> nat \<Rightarrow> nat \<Rightarrow> verify_error list \<Rightarrow> verify_result" where
  "verify_report n c k errs =
    \<lparr>vr_ok = (errs = []), vr_segments = n, vr_commits = c, vr_changes = k, vr_errors = errs\<rparr>"

definition verify_counts ::
  "obj \<Rightarrow> bool \<Rightarrow> json \<Rightarrow> string option \<Rightarrow> nat \<Rightarrow> nat \<Rightarrow> nat \<Rightarrow> gl_error + verify_error list" where
  "verify_counts manifest deep prev prev_commit n c k =
    bindE (lift_py (int_or (dict_get_json manifest ''segment_count'') 0)) (\<lambda>segment_count.
    bindE (if deep then lift_py (int_or (dict_get_json manifest ''commit_count'') 0) else Inr 0) (\<lambda>commit_count.
    bindE (if deep then lift_py (int_or (dict_get_json manifest ''change_count'') 0) else Inr 0) (\<lambda>change_count.
      Inr (err_if (\<not> py_eq prev (dict_get_json manifest ''head_segment''))
             ''manifest head does not match segment chain'' @
           err_if (deep \<and> \<not> py_eq (json_opt prev_commit) (dict_get_json manifest ''last_complete_commit_id''))
             ''manifest commit watermark does not match history'' @
           err_if (segment_count \<noteq> int n) ''manifest segment count is incorrect'' @
           err_if (deep \<and> commit_count \<noteq> int c) ''manifest commit count is incorrect'' @
           err_if (deep \<and> change_count \<noteq> int k) ''manifest change count is incorrect''))))"

text \<open>A format error that ends an iteration is the last entry of the report; others propagate.\<close>

definition format_error :: "nat \<Rightarrow> nat \<Rightarrow> nat \<Rightarrow> verify_error list \<Rightarrow> gl_error \<Rightarrow> gl_error + verify_result" where
  "format_error n c k errs e =
    (case e of
       GitlleryFormatError msg \<Rightarrow> Inr (verify_report n c k (errs @ [ErrorText msg]))
     | PyError _ \<Rightarrow> Inl e)"

definition verify :: "(string \<Rightarrow> string) \<Rightarrow> gl_repo \<Rightarrow> bool \<Rightarrow> gl_error + verify_result" where
  "verify H r deep =
    (case read_manifest r of
       Inl e \<Rightarrow> format_error 0 0 0 [] e
     | Inr manifest \<Rightarrow>
         bindE (check_config r manifest) (\<lambda>errs0.
         case iter_segments H r False of
           (segs, serr) \<Rightarrow>
             bindE (verify_segments manifest segs 0 JNull) (\<lambda>(n, prev, errs1).
             case serr of
               Some e \<Rightarrow> format_error n 0 0 (errs0 @ errs1) e
             | None \<Rightarrow>
                 (case (if deep then iter_commits H r False else ([], None)) of
                    (cs, cerr) \<Rightarrow>
                      bindE (verify_commits cs 0 0 None) (\<lambda>(c, k, prev_commit, errs2).
                      case cerr of
                        Some e \<Rightarrow> format_error n c k (errs0 @ errs1 @ errs2) e
                      | None \<Rightarrow>
                          bindE (verify_counts manifest deep prev prev_commit n c k) (\<lambda>errs3.
                            Inr (verify_report n c k (errs0 @ errs1 @ errs2 @ errs3))))))))"

lemmas gl_consts =
  PRODUCT_VERSION_def FORMAT_ID_def FORMAT_REVISION_def MAX_COMMITS_PER_SEGMENT_def
  MAX_SEGMENT_BYTES_def MAX_CHANGES_PER_FRAME_def MAX_FRAME_BYTES_def

end
