(* ===== verification/Gitllery_History.thy ===== *)
theory Gitllery_History
  imports Gitllery_Segments "HOL-Library.Multiset"
begin

text \<open>
  What the segment repository promises: a commit survives the cutting into frames, the history
  that was appended is the history that is read back, in both directions, and \<^verbatim>\<open>verify\<close>
  accepts it; a failed append changes nothing that can be read.
\<close>

section \<open>Documents read back\<close>

lemma canonical_bytes_decode: "utf8_decode (canonical_bytes v) = Some (json_dumps v)"
  by (simp add: canonical_bytes_def)

lemma canonical_bytes_inj: "wf_json v \<Longrightarrow> wf_json w \<Longrightarrow> canonical_bytes v = canonical_bytes w \<Longrightarrow> v = w"
  by (metis canonical_bytes_decode json_loads_dumps option.inject)


section \<open>Cutting a commit into frames\<close>

lemma split_changes_concat:
  "split_changes base cur rest = Inr chunks \<Longrightarrow> concat chunks = cur @ rest"
  by (induction base cur rest arbitrary: chunks rule: split_changes.induct)
     (auto simp: Let_def bindE_Inr split: if_splits)

lemma split_changes_nonempty:
  "split_changes base cur rest = Inr chunks \<Longrightarrow> cur \<noteq> [] \<or> rest \<noteq> [] \<Longrightarrow> chunks \<noteq> []"
  using split_changes_concat [of base cur rest chunks] by auto

definition frame_bounded :: "obj \<Rightarrow> json list \<Rightarrow> bool" where
  "frame_bounded base chunk \<longleftrightarrow>
     length chunk \<le> MAX_CHANGES_PER_FRAME \<and> encoded_frame base chunk \<le> MAX_FRAME_BYTES"

lemma split_changes_bounded:
  "split_changes base cur rest = Inr chunks \<Longrightarrow> cur = [] \<or> frame_bounded base cur \<Longrightarrow>
     \<forall>chunk \<in> set chunks. frame_bounded base chunk"
proof (induction base cur rest arbitrary: chunks rule: split_changes.induct)
  case (1 base current)
  then show ?case by (auto split: if_splits)
next
  case (2 base current change rest)
  define cut where "cut \<longleftrightarrow> current \<noteq> [] \<and>
    (MAX_CHANGES_PER_FRAME \<le> length current \<or> MAX_FRAME_BYTES < encoded_frame base (current @ [change]))"
  define cur' where "cur' = (if cut then [change] else current @ [change])"
  have small: "encoded_frame base cur' \<le> MAX_FRAME_BYTES"
    using "2.prems"(1) by (auto simp: Let_def cut_def cur'_def split: if_splits)
  then obtain cs where cs: "split_changes base cur' rest = Inr cs"
    and chunks: "chunks = (if cut then current # cs else cs)"
    using "2.prems"(1) by (auto simp: Let_def bindE_Inr cut_def cur'_def split: if_splits)
  have "length cur' \<le> MAX_CHANGES_PER_FRAME"
    by (auto simp: cur'_def cut_def gl_consts)
  with small have "cur' = [] \<or> frame_bounded base cur'"
    by (simp add: frame_bounded_def)
  then have "\<forall>chunk \<in> set cs. frame_bounded base chunk"
    using "2.IH" [OF refl cut_def cur'_def _ cs] small
    by simp
  with chunks "2.prems"(2) show ?case by (auto simp: cut_def)
qed

text \<open>
  The commits the application appends: a well-formed dictionary with a non-empty \<^verbatim>\<open>commit_id\<close>
  string and a list of \<^verbatim>\<open>changes\<close>, and without the two keys the frames add.
\<close>

definition commit_ok :: "obj \<Rightarrow> bool" where
  "commit_ok c \<longleftrightarrow> wf_json (JObj c) \<and>
     (case dict_get_json c ''commit_id'' of JStr s \<Rightarrow> s \<noteq> [] | _ \<Rightarrow> False) \<and>
     (case dict_get_json c ''changes'' of JList _ \<Rightarrow> True | _ \<Rightarrow> False) \<and>
     map_of c ''frame'' = None \<and> map_of c ''frame_count'' = None"

definition commit_id_of :: "obj \<Rightarrow> string" where
  "commit_id_of c = py_str (dict_get_json c ''commit_id'')"

definition changes_of :: "obj \<Rightarrow> json list" where
  "changes_of c = (case dict_get_json c ''changes'' of JList chs \<Rightarrow> chs | _ \<Rightarrow> [])"

lemma commit_okD:
  assumes "commit_ok c"
  shows "wf_json (JObj c)" "map_of c ''commit_id'' = Some (JStr (commit_id_of c))" "commit_id_of c \<noteq> []"
    "map_of c ''changes'' = Some (JList (changes_of c))"
    "map_of c ''frame'' = None" "map_of c ''frame_count'' = None"
  using assms
  by (auto simp: commit_ok_def commit_id_of_def changes_of_def dict_get_json_def
      split: option.splits json.splits)

definition chunk_frames :: "obj \<Rightarrow> json list list \<Rightarrow> obj list" where
  "chunk_frames c chunks =
     map2 (frame_of (ddel ''changes'' c) (length chunks)) [0..<length chunks] chunks"

lemma length_chunk_frames [simp]: "length (chunk_frames c chunks) = length chunks"
  by (simp add: chunk_frames_def)

lemma nth_chunk_frames:
  "i < length chunks \<Longrightarrow>
     chunk_frames c chunks ! i = frame_of (ddel ''changes'' c) (length chunks) i (chunks ! i)"
  by (simp add: chunk_frames_def)

lemma frames_for_commit_chunks:
  assumes "commit_ok c" "frames_for_commit c = Inr fs"
  obtains chunks where "fs = chunk_frames c chunks" "chunks \<noteq> []" "concat chunks = changes_of c"
    "changes_of c \<noteq> [] \<longrightarrow> (\<forall>chunk \<in> set chunks. frame_bounded (ddel ''changes'' c) chunk)"
proof -
  have get: "dict_get_json c ''changes'' = JList (changes_of c)"
    using commit_okD(4) [OF assms(1)] by (simp add: dict_get_json_def)
  show ?thesis
  proof (cases "changes_of c = []")
    case True
    then have "fs = chunk_frames c [[]]"
      using assms(2) get by (simp add: frames_for_commit_def chunk_frames_def)
    with True show ?thesis by (intro that [of "[[]]"]) auto
  next
    case False
    then obtain chunks where sp: "split_changes (ddel ''changes'' c) [] (changes_of c) = Inr chunks"
      and fs: "fs = chunk_frames c chunks"
      using assms(2) get by (auto simp: frames_for_commit_def Let_def bindE_Inr chunk_frames_def)
    with False show ?thesis
      by (intro that [of chunks])
         (auto dest: split_changes_concat split_changes_nonempty split_changes_bounded)
  qed
qed

lemma get_frame_of:
  "dict_get_json (frame_of base n i chunk) k =
     (if k = ''changes'' then JList chunk else if k = ''frame_count'' then JInt (int n)
      else if k = ''frame'' then JInt (int i) else dict_get_json base k)"
  by (simp add: frame_of_def)

text \<open>The key \<^verbatim>\<open>assemble\<close> sorts by, on a frame that was written by this code.\<close>

definition frame_no :: "obj \<Rightarrow> int" where
  "frame_no f = (case dict_get_json f ''frame'' of JInt i \<Rightarrow> i | _ \<Rightarrow> 0)"

lemma frame_no_chunk_frames: "map frame_no (chunk_frames c chunks) = map int [0..<length chunks]"
  by (rule nth_equalityI) (simp_all add: nth_chunk_frames frame_no_def get_frame_of)

lemma int_or_frame_no:
  "f \<in> set (chunk_frames c chunks) \<Longrightarrow> int_or (dict_get_json f ''frame'') 0 = Inr (frame_no f)"
  by (auto simp: in_set_conv_nth nth_chunk_frames frame_no_def get_frame_of)

lemma changes_chunk_frames:
  "mapE (\<lambda>f. lift_py (list_or_empty (dict_get_json f ''changes''))) (chunk_frames c chunks) = Inr chunks"
proof -
  have "mapE (\<lambda>f. lift_py (list_or_empty (dict_get_json f ''changes''))) (chunk_frames c chunks) =
        Inr (map changes_of (chunk_frames c chunks))"
    by (rule mapE_Inr) (auto simp: in_set_conv_nth nth_chunk_frames get_frame_of changes_of_def)
  moreover have "map changes_of (chunk_frames c chunks) = chunks"
    by (rule nth_equalityI) (simp_all add: nth_chunk_frames get_frame_of changes_of_def)
  ultimately show ?thesis by simp
qed

lemma frame_header:
  assumes "commit_ok c"
  shows "dset ''changes'' (JList (changes_of c))
           (ddel ''frame_count'' (ddel ''frame'' (ddel ''changes''
             (frame_of (ddel ''changes'' c) n i chunk)))) = c" (is "?d = c")
proof (rule dict_ext)
  have "dict_ok c" using commit_okD(1) [OF assms] by (rule wf_json_dict_ok)
  then show "dict_ok c" "dict_ok ?d" by (simp_all add: dict_ok_dset dict_ok_ddel frame_of_def)
  show "map_of ?d = map_of c"
    using commit_okD(4-6) [OF assms] by (auto simp: frame_of_def)
qed

lemma assemble_frames:
  assumes c: "commit_ok c" and fs: "frames_for_commit c = Inr fs" and items: "mset items = mset fs"
  shows "assemble items = Inr c"
proof -
  obtain chunks where fs_eq: "fs = chunk_frames c chunks" and ne: "chunks \<noteq> []"
    and cat: "concat chunks = changes_of c"
    using frames_for_commit_chunks [OF c fs] by metis
  have set_eq: "set items = set fs" using items by (rule mset_eq_setD)
  have keys: "mapE (\<lambda>f. lift_py (int_or (dict_get_json f ''frame'') 0)) items = Inr (map frame_no items)"
    using set_eq fs_eq by (intro mapE_Inr) (simp add: int_or_frame_no)
  have nos: "map frame_no fs = map int [0..<length chunks]"
    by (simp add: fs_eq frame_no_chunk_frames)
  have dist: "inj_on frame_no (set fs)"
    using nos by (metis distinct_map distinct_upt inj_on_of_nat)
  have "mset (zip (map frame_no items) items) = mset (map (\<lambda>f. (frame_no f, f)) fs)"
    using items by (simp add: zip_map1 zip_same_conv_map comp_def)
  moreover have "inj_on fst (set (zip (map frame_no items) items))"
    using dist set_eq by (auto simp: zip_map1 zip_same_conv_map inj_on_def)
  moreover have "sorted (map fst (map (\<lambda>f. (frame_no f, f)) fs))"
    using nos by (simp add: comp_def sorted_map)
  ultimately have sorted: "sort_key fst (zip (map frame_no items) items) = map (\<lambda>f. (frame_no f, f)) fs"
    by (rule sort_key_inj_key_eq)
  have hd: "hd fs = frame_of (ddel ''changes'' c) (length chunks) 0 (chunks ! 0)"
    using ne fs_eq by (simp add: hd_conv_nth nth_chunk_frames flip: length_greater_0_conv)
  have fst_eq: "map (fst \<circ> (\<lambda>f. (frame_no f, f))) fs = map int [0..<length chunks]"
    and snd_eq: "map (snd \<circ> (\<lambda>f. (frame_no f, f))) fs = fs"
    using nos by (simp_all add: comp_def)
  have cnt: "int_or (dict_get_json (hd fs) ''frame_count'') 1 = Inr (int (length chunks))"
    using ne by (simp add: hd get_frame_of int_or_def)
  have "length items = length chunks"
    using items by (metis fs_eq length_chunk_frames size_mset)
  moreover have "dset ''changes'' (JList (changes_of c))
           (ddel ''frame_count'' (ddel ''frame'' (ddel ''changes'' (hd fs)))) = c"
    by (simp add: hd frame_header [OF c])
  moreover have "mapE (\<lambda>f. lift_py (list_or_empty (dict_get_json f ''changes''))) fs = Inr chunks"
    by (simp add: fs_eq changes_chunk_frames)
  ultimately show ?thesis
    by (simp add: assemble_def keys sorted Let_def fst_eq snd_eq cnt cat)
qed

section \<open>Grouping frames into commits\<close>

text \<open>\<open>gs\<close> holds the frames of the commit \<open>c\<close>, in any order.\<close>

definition frames_rep :: "obj \<Rightarrow> obj list \<Rightarrow> bool" where
  "frames_rep c gs \<longleftrightarrow> commit_ok c \<and> (\<exists>fs. frames_for_commit c = Inr fs \<and> mset gs = mset fs)"

lemma frames_rep_assemble: "frames_rep c gs \<Longrightarrow> assemble gs = Inr c"
  by (auto simp: frames_rep_def assemble_frames)

lemma frames_rep_ids:
  assumes "frames_rep c gs"
  shows "gs \<noteq> []" "\<forall>g \<in> set gs. str_or_empty (dict_get_json g ''commit_id'') = commit_id_of c"
    "commit_id_of c \<noteq> []"
proof -
  obtain fs where c: "commit_ok c" and fs: "frames_for_commit c = Inr fs" and gs: "mset gs = mset fs"
    using assms by (auto simp: frames_rep_def)
  obtain chunks where eq: "fs = chunk_frames c chunks" and ne: "chunks \<noteq> []"
    using frames_for_commit_chunks [OF c fs] by metis
  show "gs \<noteq> []" using gs eq ne by (metis length_0_conv length_chunk_frames size_mset)
  show "commit_id_of c \<noteq> []" by (rule commit_okD [OF c])
  have "dict_get_json c ''commit_id'' = JStr (commit_id_of c)"
    using commit_okD(2) [OF c] by (simp add: dict_get_json_def)
  then show "\<forall>g \<in> set gs. str_or_empty (dict_get_json g ''commit_id'') = commit_id_of c"
    using mset_eq_setD [OF gs] eq commit_okD(3) [OF c]
    by (auto simp: in_set_conv_nth nth_chunk_frames get_frame_of str_or_empty_def)
qed

lemma scan_same_id:
  "\<forall>g \<in> set gs. str_or_empty (dict_get_json g ''commit_id'') = s \<Longrightarrow> s \<noteq> [] \<Longrightarrow>
     scan_frames (map JObj gs @ rest) (Some s, acc) = scan_frames rest (Some s, acc @ gs)"
  by (induction gs arbitrary: acc) auto

lemma scan_new_id:
  assumes "frames_rep c gs" "assemble acc = Inr b" "s \<noteq> commit_id_of c"
  shows "scan_frames (map JObj gs @ rest) (Some s, acc) =
    (case scan_frames rest (Some (commit_id_of c), gs) of (ys, st) \<Rightarrow> (b # ys, st))"
proof -
  obtain g gs' where gs: "gs = g # gs'" using frames_rep_ids(1) [OF assms(1)] by (cases gs) auto
  then show ?thesis
    using frames_rep_ids(2,3) [OF assms(1)] assms(2,3) scan_same_id [of gs' "commit_id_of c" rest "[g]"]
    by simp
qed

lemma scan_groups:
  assumes "list_all2 frames_rep cs gss" "distinct_adj (map commit_id_of (c # cs))" "frames_rep c g"
  shows "scan_frames (map JObj (concat gss)) (Some (commit_id_of c), g) =
     (butlast (c # cs), Inr (Some (commit_id_of (last (c # cs))), last (g # gss)))
     \<and> frames_rep (last (c # cs)) (last (g # gss))"
  using assms
proof (induction cs gss arbitrary: c g rule: list_all2_induct)
  case Nil
  then show ?case by simp
next
  case (Cons d ds h hs)
  have "commit_id_of c \<noteq> commit_id_of d" using Cons.prems(1) by simp
  from scan_new_id [OF Cons.hyps(1) frames_rep_assemble [OF Cons.prems(2)] this, of "map JObj (concat hs)"]
  have "scan_frames (map JObj (concat (h # hs))) (Some (commit_id_of c), g) =
    (case scan_frames (map JObj (concat hs)) (Some (commit_id_of d), h) of (ys, st) \<Rightarrow> (c # ys, st))"
    by simp
  with Cons.IH [OF _ Cons.hyps(1)] Cons.prems(1) show ?case by auto
qed

lemma scan_frames_append:
  "scan_frames (xs @ ys) st =
    (case scan_frames xs st of
       (a, Inl e) \<Rightarrow> (a, Inl e)
     | (a, Inr st') \<Rightarrow> (case scan_frames ys st' of (b, r) \<Rightarrow> (a @ b, r)))"
  by (induction xs st rule: scan_frames.induct)
     (auto simp: Let_def split: json.splits sum.splits prod.splits)

text \<open>The frames stored in a segment.\<close>

definition seg_frames :: "obj \<Rightarrow> json list" where
  "seg_frames seg = (case dict_get_json seg ''frames'' of JList fs \<Rightarrow> fs | _ \<Rightarrow> [])"

definition has_frames :: "obj \<Rightarrow> bool" where
  "has_frames seg \<longleftrightarrow> dict_get_json seg ''frames'' = JList (seg_frames seg)"

lemma scan_segments_flat:
  "\<forall>p \<in> set segs. has_frames (snd p) \<Longrightarrow>
     scan_segments b segs st =
     scan_frames (concat (map (\<lambda>p. (if b then rev else id) (seg_frames (snd p))) segs)) st"
proof (induction b segs st rule: scan_segments.induct)
  case (1 b st)
  then show ?case by simp
next
  case (2 b d seg segs st)
  then have "dict_get_json seg ''frames'' = JList (seg_frames seg)" by (simp add: has_frames_def)
  with 2 show ?case
    by (auto simp: scan_frames_append split: sum.splits prod.splits)
qed

text \<open>Scanning all frames of a history yields its commits, in the direction of the frames.\<close>

lemma scan_history:
  assumes "list_all2 frames_rep cs gss" "distinct_adj (map commit_id_of cs)"
  shows "(case scan_frames (map JObj (concat gss)) (None, []) of
            (ys, Inl e) \<Rightarrow> (ys, Some e)
          | (ys, Inr (_, frames)) \<Rightarrow>
              if frames = [] then (ys, None)
              else case assemble frames of Inl e \<Rightarrow> (ys, Some e) | Inr c \<Rightarrow> (ys @ [c], None)) = (cs, None)"
proof (cases cs)
  case Nil
  with assms show ?thesis by simp
next
  case (Cons c cs')
  then obtain g gss' where gss: "gss = g # gss'" and g: "frames_rep c g" and rep: "list_all2 frames_rep cs' gss'"
    using assms(1) by (auto simp: list_all2_Cons1)
  obtain f g' where fg: "g = f # g'" using frames_rep_ids(1) [OF g] by (cases g) auto
  have "scan_frames (map JObj (concat gss)) (None, []) =
        scan_frames (map JObj (concat gss')) (Some (commit_id_of c), g)"
    using gss fg frames_rep_ids(2,3) [OF g]
      scan_same_id [of g' "commit_id_of c" "map JObj (concat gss')" "[f]"] by simp
  moreover have last: "scan_frames (map JObj (concat gss')) (Some (commit_id_of c), g) =
        (butlast cs, Inr (Some (commit_id_of (last cs)), last (g # gss')))"
      "frames_rep (last cs) (last (g # gss'))"
    using scan_groups [OF rep _ g] assms(2) Cons by (simp_all del: butlast.simps last.simps)
  moreover have "butlast cs @ [last cs] = cs" using Cons by (simp del: butlast.simps last.simps)
  ultimately show ?thesis
    using frames_rep_ids(1) [OF last(2)] frames_rep_assemble [OF last(2)]
    by (simp del: butlast.simps last.simps)
qed

end
