(* ===== verification/Gitllery_Append.thy ===== *)
theory Gitllery_Append
  imports Gitllery_History
begin

text \<open>
  Publishing: the segments an append writes form a chain that continues the stored one, files are
  only added, and what was written is what is read.
\<close>

section \<open>The segments an append publishes\<close>

definition seg_digest :: "(string \<Rightarrow> string) \<Rightarrow> obj \<Rightarrow> string" where
  "seg_digest H seg = H (canonical_bytes (JObj seg))"

definition head_from :: "(string \<Rightarrow> string) \<Rightarrow> json \<Rightarrow> obj list \<Rightarrow> json" where
  "head_from H prev segs = (if segs = [] then prev else JStr (seg_digest H (last segs)))"

lemma head_from_Nil [simp]: "head_from H prev [] = prev"
  by (simp add: head_from_def)

lemma head_from_Cons [simp]: "head_from H prev (seg # segs) = head_from H (JStr (seg_digest H seg)) segs"
  by (simp add: head_from_def)

text \<open>
  A reference version of the second loop: which segments are published, as a function of the
  frames alone. The files play no part in it.
\<close>

fun plan_segments ::
  "(string \<Rightarrow> string) \<Rightarrow> json \<Rightarrow> obj list \<Rightarrow> string list \<Rightarrow> json \<Rightarrow> int \<Rightarrow> obj list \<Rightarrow> obj list" where
  "plan_segments H rid frames ids prev cnt [] =
     (if frames = [] then [] else [segment_doc rid (cnt + 1) prev frames])"
| "plan_segments H rid frames ids prev cnt (frame # rest) =
    (let cid = py_str (dict_get_json frame ''commit_id'');
         seg = segment_doc rid (cnt + 1) prev frames
     in if frames \<noteq> [] \<and>
           (MAX_COMMITS_PER_SEGMENT < length (List.insert cid ids) \<or>
            MAX_SEGMENT_BYTES < segment_size (segment_doc rid (cnt + 1) prev (frames @ [frame])))
        then seg # plan_segments H rid [frame] [cid] (JStr (seg_digest H seg)) (cnt + 1) rest
        else plan_segments H rid (frames @ [frame]) (List.insert cid ids) prev cnt rest)"

fun segs_linked :: "(string \<Rightarrow> string) \<Rightarrow> json \<Rightarrow> json \<Rightarrow> int \<Rightarrow> obj list \<Rightarrow> bool" where
  "segs_linked H rid prev cnt [] \<longleftrightarrow> True"
| "segs_linked H rid prev cnt (seg # segs) \<longleftrightarrow>
     (\<exists>frames. frames \<noteq> [] \<and> seg = segment_doc rid (cnt + 1) prev frames) \<and>
     segs_linked H rid (JStr (seg_digest H seg)) (cnt + 1) segs"

lemma segs_linked_append:
  "segs_linked H rid prev cnt (xs @ ys) \<longleftrightarrow>
     segs_linked H rid prev cnt xs \<and> segs_linked H rid (head_from H prev xs) (cnt + int (length xs)) ys"
  by (induction xs arbitrary: prev cnt) (auto simp: algebra_simps)

lemma plan_linked: "segs_linked H rid prev cnt (plan_segments H rid frames ids prev cnt rest)"
  by (induction H rid frames ids prev cnt rest rule: plan_segments.induct) (auto simp: Let_def)

lemma get_segment_doc [simp]:
  "dict_get_json (segment_doc rid n prev fs) ''frames'' = JList (map JObj fs)"
  "dict_get_json (segment_doc rid n prev fs) ''previous_segment'' = prev"
  "dict_get_json (segment_doc rid n prev fs) ''sequence'' = JInt n"
  "dict_get_json (segment_doc rid n prev fs) ''repository_id'' = rid"
  by (simp_all add: segment_doc_def dict_get_json_def map_of_dict_of)

lemma seg_frames_doc [simp]: "seg_frames (segment_doc rid n prev fs) = map JObj fs"
  by (simp add: seg_frames_def)

lemma plan_frames:
  "concat (map seg_frames (plan_segments H rid frames ids prev cnt rest)) = map JObj (frames @ rest)"
  by (induction H rid frames ids prev cnt rest rule: plan_segments.induct) (auto simp: Let_def)

lemma header_segment_doc [simp]:
  "validate_header (JObj (segment_doc rid n prev fs)) kind = Inr (segment_doc rid n prev fs)"
  by (simp add: validate_header_def segment_doc_def dict_get_json_def map_of_dict_of)

lemma wf_segment_doc:
  "wf_json rid \<Longrightarrow> wf_json prev \<Longrightarrow> \<forall>f \<in> set fs. wf_json (JObj f) \<Longrightarrow> wf_json (JObj (segment_doc rid n prev fs))"
  unfolding segment_doc_def by (rule wf_dict_of) auto

lemma segs_linked_doc:
  "segs_linked H rid prev cnt segs \<Longrightarrow> seg \<in> set segs \<Longrightarrow> \<exists>n p fs. seg = segment_doc rid n p fs"
  by (induction segs arbitrary: prev cnt) auto

lemma plan_wf:
  "seg \<in> set (plan_segments H rid frames ids prev cnt rest) \<Longrightarrow> wf_json rid \<Longrightarrow> wf_json prev \<Longrightarrow>
     \<forall>f \<in> set frames \<union> set rest. wf_json (JObj f) \<Longrightarrow> wf_json (JObj seg)"
proof (induction H rid frames ids prev cnt rest rule: plan_segments.induct)
  case (1 H rid frames ids prev cnt)
  then show ?case by (auto intro: wf_segment_doc split: if_splits)
next
  case (2 H rid frames ids prev cnt frame rest)
  then show ?case by (auto simp: Let_def intro: wf_segment_doc split: if_splits)
qed

section \<open>Files are only added\<close>

definition extends :: "gl_repo \<Rightarrow> gl_repo \<Rightarrow> bool" where
  "extends r r' \<longleftrightarrow> manifest_file r' = manifest_file r \<and> config_file r' = config_file r \<and>
     map_of (segment_files r) \<subseteq>\<^sub>m map_of (segment_files r')"

lemma extends_refl [simp]: "extends r r"
  by (simp add: extends_def)

lemma extends_trans [trans]: "extends a b \<Longrightarrow> extends b c \<Longrightarrow> extends a c"
  by (auto simp: extends_def intro: map_le_trans)

lemma extends_read:
  assumes "extends r r'" "read_segment H r d = Inr seg"
  shows "read_segment H r' d = Inr seg"
proof -
  have "map_of (segment_files r) d \<noteq> None"
    using assms(2) by (auto simp: read_segment_def segment_path_def split: if_splits option.splits)
  then have "map_of (segment_files r') d = map_of (segment_files r) d"
    using assms(1) unfolding extends_def map_le_def by force
  with assms(2) show ?thesis by (simp add: read_segment_def segment_path_def split: if_splits)
qed

lemma write_segment_extends: "write_segment H seg r = (res, r') \<Longrightarrow> extends r r'"
  by (auto simp: write_segment_def Let_def extends_def map_le_def segment_path_def
      split: if_splits sum.splits)

lemma publish_segment_extends: "publish_segment H rid frames prev cnt r = (res, r') \<Longrightarrow> extends r r'"
  by (auto simp: publish_segment_def split: if_splits prod.splits sum.splits dest: write_segment_extends)

lemma publish_frames_extends: "publish_frames H m frames ids prev cnt rest r = (res, r') \<Longrightarrow> extends r r'"
proof (induction rest arbitrary: frames ids prev cnt r res r')
  case Nil
  then show ?case by (auto split: if_splits option.splits dest: publish_segment_extends)
next
  case (Cons frame rest)
  have step: "publish_segment H rid frames prev cnt r = (x, r1) \<Longrightarrow>
      publish_frames H m [frame] [i] p n rest r1 = (res, r') \<Longrightarrow> extends r r'" for rid x r1 i p n
    using Cons.IH publish_segment_extends extends_trans by metis
  from Cons.prems show ?case
    by (auto split: if_splits option.splits prod.splits sum.splits
        dest: publish_segment_extends Cons.IH step)
qed

section \<open>What was written is read\<close>

definition stored_texts :: "gl_repo \<Rightarrow> string set" where
  "stored_texts r = {raw. Some raw \<in> snd ` set (segment_files r)}"

fun write_all :: "(string \<Rightarrow> string) \<Rightarrow> obj list \<Rightarrow> gl_repo \<Rightarrow> gl_repo option" where
  "write_all H [] r = Some r"
| "write_all H (seg # segs) r =
    (case write_segment H seg r of (Inl _, _) \<Rightarrow> None | (Inr _, r') \<Rightarrow> write_all H segs r')"

lemma write_segment_digest: "write_segment H seg r = (Inr d, r') \<Longrightarrow> d = seg_digest H seg"
  by (auto simp: write_segment_def Let_def seg_digest_def segment_path_def bindE_Inr split: if_splits)

text \<open>The loop with the files is the reference loop followed by writing its segments.\<close>

lemma publish_frames_plan:
  assumes "publish_frames H m frames ids prev cnt rest r = (Inr (prev', cnt'), r')"
    and "map_of m ''repository_id'' = Some rid"
  shows "write_all H (plan_segments H rid frames ids prev cnt rest) r = Some r' \<and>
     prev' = head_from H prev (plan_segments H rid frames ids prev cnt rest) \<and>
     cnt' = cnt + int (length (plan_segments H rid frames ids prev cnt rest))"
  using assms
proof (induction rest arbitrary: frames ids prev cnt r)
  case Nil
  then show ?case
    by (auto simp: publish_segment_def split: if_splits prod.splits sum.splits dest: write_segment_digest)
next
  case (Cons frame rest)
  obtain cid where cid: "map_of frame ''commit_id'' = Some cid"
    using Cons.prems(1) by (cases "map_of frame ''commit_id''") auto
  then have get: "dict_get_json frame ''commit_id'' = cid" by (simp add: dict_get_json_def)
  let ?full = "frames \<noteq> [] \<and> (MAX_COMMITS_PER_SEGMENT < length (List.insert (py_str cid) ids) \<or>
      MAX_SEGMENT_BYTES < segment_size (segment_doc rid (cnt + 1) prev (frames @ [frame])))"
  show ?case
  proof (cases ?full)
    case True
    let ?seg = "segment_doc rid (cnt + 1) prev frames"
    obtain d r1 where w: "write_segment H ?seg r = (Inr d, r1)"
      using Cons.prems True cid
      by (auto simp: publish_segment_def split: prod.splits sum.splits)
    then have p: "publish_segment H rid frames prev cnt r = (Inr (JStr (seg_digest H ?seg), cnt + 1), r1)"
      using True by (simp add: publish_segment_def write_segment_digest)
    have "publish_frames H m [frame] [py_str cid] (JStr (seg_digest H ?seg)) (cnt + 1) rest r1 =
        (Inr (prev', cnt'), r')"
      using Cons.prems True cid p by (auto split: if_splits)
    from Cons.IH [OF this Cons.prems(2)] True w get show ?thesis by (simp add: Let_def)
  next
    case False
    then have "publish_frames H m (frames @ [frame]) (List.insert (py_str cid) ids) prev cnt rest r =
        (Inr (prev', cnt'), r')"
      using Cons.prems cid by (auto split: if_splits)
    from Cons.IH [OF this Cons.prems(2)] False get show ?thesis by (auto simp: Let_def)
  qed
qed

lemma write_segment_reads:
  assumes w: "write_segment H seg r = (Inr d, r')"
    and wf: "wf_json (JObj seg)" and hdr: "validate_header (JObj seg) ''segment'' = Inr seg"
    and cf: "\<forall>raw \<in> stored_texts r. H raw = seg_digest H seg \<longrightarrow> raw = canonical_bytes (JObj seg)"
  shows "read_segment H r' d = Inr seg" "stored_texts r' \<subseteq> insert (canonical_bytes (JObj seg)) (stored_texts r)"
proof -
  let ?raw = "canonical_bytes (JObj seg)"
  have d: "d = H ?raw" using write_segment_digest [OF w] by (simp add: seg_digest_def)
  have path: "segment_path d = Inr d"
    using w d by (auto simp: write_segment_def Let_def segment_path_def split: if_splits)
  show "stored_texts r' \<subseteq> insert ?raw (stored_texts r)"
    using w by (auto simp: write_segment_def Let_def stored_texts_def split: if_splits sum.splits)
  have content: "map_of (segment_files r') d = Some (Some ?raw)"
  proof (cases "map_of (segment_files r) d")
    case None
    then show ?thesis
      using w d path by (auto simp: write_segment_def Let_def split: if_splits)
  next
    case (Some x)
    then have "r' = r" and "\<exists>s. read_segment H r d = Inr s"
      using w d path by (auto simp: write_segment_def Let_def bindE_Inr split: if_splits)
    then obtain raw where x: "x = Some raw" and "H raw = d"
      using Some path by (auto simp: read_segment_def split: option.splits if_splits)
    moreover have "raw \<in> stored_texts r"
      using map_of_SomeD [OF Some] x by (force simp: stored_texts_def)
    ultimately have "raw = ?raw" using cf d by (auto simp: seg_digest_def)
    with Some x \<open>r' = r\<close> show ?thesis by simp
  qed
  show "read_segment H r' d = Inr seg"
    using path content hdr d by (simp add: read_segment_def canonical_bytes_decode json_loads_dumps [OF wf] del: json_dumps_simps)
qed

lemma write_all_extends: "write_all H segs r = Some r' \<Longrightarrow> extends r r'"
proof (induction segs arbitrary: r)
  case (Cons seg segs)
  then show ?case
    by (auto split: prod.splits sum.splits intro: extends_trans dest: write_segment_extends)
qed simp

lemma write_all_reads:
  assumes "write_all H segs r = Some r'"
    and "\<forall>seg \<in> set segs. wf_json (JObj seg) \<and> validate_header (JObj seg) ''segment'' = Inr seg"
    and "inj_on H (stored_texts r \<union> (\<lambda>seg. canonical_bytes (JObj seg)) ` set segs)"
  shows "\<forall>seg \<in> set segs. read_segment H r' (seg_digest H seg) = Inr seg"
  using assms
proof (induction segs arbitrary: r)
  case (Cons seg segs)
  then obtain d r1 where w: "write_segment H seg r = (Inr d, r1)" and rest: "write_all H segs r1 = Some r'"
    by (auto split: prod.splits sum.splits)
  have cf: "\<forall>raw \<in> stored_texts r. H raw = seg_digest H seg \<longrightarrow> raw = canonical_bytes (JObj seg)"
    using inj_onD [OF Cons.prems(3), of _ "canonical_bytes (JObj seg)"] by (auto simp: seg_digest_def)
  note this_seg = write_segment_reads [OF w _ _ cf]
  have "inj_on H (stored_texts r1 \<union> (\<lambda>seg. canonical_bytes (JObj seg)) ` set segs)"
    by (rule inj_on_subset [OF Cons.prems(3)]) (use this_seg(2) Cons.prems(2) in auto)
  with Cons.IH [OF rest] Cons.prems(2)
  have "\<forall>seg \<in> set segs. read_segment H r' (seg_digest H seg) = Inr seg" by simp
  moreover have "read_segment H r' (seg_digest H seg) = Inr seg"
    using extends_read [OF write_all_extends [OF rest]] this_seg(1) Cons.prems(2) write_segment_digest [OF w]
    by simp
  ultimately show ?case by simp
qed simp

section \<open>Walking the chain\<close>

definition segs_stored :: "(string \<Rightarrow> string) \<Rightarrow> gl_repo \<Rightarrow> obj list \<Rightarrow> bool" where
  "segs_stored H r segs \<longleftrightarrow> (\<forall>seg \<in> set segs. read_segment H r (seg_digest H seg) = Inr seg)"

lemma segs_stored_extends: "segs_stored H r segs \<Longrightarrow> extends r r' \<Longrightarrow> segs_stored H r' segs"
  by (simp add: segs_stored_def extends_read)

lemma stored_digest_nonempty: "read_segment H r d = Inr seg \<Longrightarrow> d \<noteq> []"
  by (auto simp: read_segment_def segment_path_def split: if_splits)

lemma segs_linked_sequence:
  "segs_linked H rid prev cnt segs \<Longrightarrow> seg \<in> set segs \<Longrightarrow>
     \<exists>n. dict_get_json seg ''sequence'' = JInt n \<and> n \<le> cnt + int (length segs)"
  by (induction segs arbitrary: prev cnt) fastforce+

lemma walk_chain_linked:
  "segs_linked H rid JNull 0 segs \<Longrightarrow> segs_stored H r segs \<Longrightarrow>
     \<forall>seg \<in> set segs. seg_digest H seg \<notin> set seen \<Longrightarrow>
     walk_chain H r (head_from H JNull segs) seen = (rev (map (\<lambda>seg. (seg_digest H seg, seg)) segs), None)"
proof (induction segs arbitrary: seen rule: rev_induct)
  case Nil
  then show ?case by (subst walk_chain.simps) simp
next
  case (snoc seg segs)
  obtain frames where seg: "seg = segment_doc rid (int (length segs) + 1) (head_from H JNull segs) frames"
    and linked: "segs_linked H rid JNull 0 segs"
    using snoc.prems(1) by (auto simp: segs_linked_append)
  have read: "read_segment H r (seg_digest H seg) = Inr seg" and stored: "segs_stored H r segs"
    using snoc.prems(2) by (auto simp: segs_stored_def)
  have new: "seg_digest H s \<noteq> seg_digest H seg" if "s \<in> set segs" for s
  proof
    assume "seg_digest H s = seg_digest H seg"
    then have "s = seg" using that stored read by (metis Inr_inject segs_stored_def)
    with segs_linked_sequence [OF linked that] seg show False by simp
  qed
  have "walk_chain H r (head_from H JNull segs) (seg_digest H seg # seen) =
        (rev (map (\<lambda>seg. (seg_digest H seg, seg)) segs), None)"
    using new snoc.prems(3) by (intro snoc.IH linked stored) auto
  moreover have "dict_get_json seg ''previous_segment'' = head_from H JNull segs"
    by (simp add: seg)
  ultimately show ?case
    using snoc.prems(3) read stored_digest_nonempty [OF read]
    by (subst walk_chain.simps) (simp add: head_from_def [of H JNull "segs @ [seg]"])
qed

lemma yield_segments_stored:
  "segs_stored H r segs \<Longrightarrow>
     yield_segments H r (map (seg_digest H) segs) = (map (\<lambda>seg. (seg_digest H seg, seg)) segs, None)"
  by (induction segs) (auto simp: segs_stored_def)

lemma iter_segments_linked:
  assumes "read_manifest r = Inr m" "dict_get_json m ''head_segment'' = head_from H JNull segs"
    and "segs_linked H rid JNull 0 segs" "segs_stored H r segs"
  shows "iter_segments H r newest =
    ((if newest then rev else id) (map (\<lambda>seg. (seg_digest H seg, seg)) segs), None)"
  using assms walk_chain_linked [OF assms(3,4), of "[]"] yield_segments_stored [OF assms(4)]
  by (simp add: iter_segments_def rev_map comp_def)

end
