(* ===== verification/Gitllery_Repository.thy ===== *)
theory Gitllery_Repository
  imports Gitllery_Append
begin

text \<open>
  Whole histories of a segment repository: every state reached from \<^verbatim>\<open>initialise\<close> by appends,
  successful or failed, satisfies one invariant, and the readers return the appended commits.
\<close>

section \<open>Headers\<close>

definition header_ok :: "obj \<Rightarrow> bool" where
  "header_ok d \<longleftrightarrow> dict_get_json d ''product_version'' = JStr PRODUCT_VERSION \<and>
     dict_get_json d ''format_id'' = JStr FORMAT_ID \<and>
     py_eq (dict_get_json d ''format_revision'') (JInt FORMAT_REVISION)"

lemma validate_header_Inr: "validate_header v kind = Inr d \<longleftrightarrow> v = JObj d \<and> header_ok d"
  by (auto simp: validate_header_def header_ok_def split: json.splits)

lemma read_manifest_header: "read_manifest r = Inr m \<Longrightarrow> header_ok m"
  by (auto simp: read_manifest_def validate_header_Inr split: option.splits)

lemma atomic_json_decode: "utf8_decode (atomic_json d) = Some (json_dumps (JObj d) @ [CHR 0x0A])"
proof -
  have "atomic_json d = utf8_encode (json_dumps (JObj d) @ [CHR 0x0A])"
    by (simp only: atomic_json_def canonical_bytes_def utf8_encode_append utf8_encode_newline)
  then show ?thesis by (simp only: utf8_decode_encode)
qed

lemma read_manifest_written:
  assumes "wf_json (JObj d)" "header_ok d" "manifest_file r = Some (atomic_json d)"
  shows "read_manifest r = Inr d"
proof -
  have "validate_header (JObj d) ''manifest'' = Inr d" using assms(2) by (simp add: validate_header_Inr)
  then show ?thesis
    using assms(3)
    by (simp add: read_manifest_def atomic_json_decode json_loads_dumps_newline [OF assms(1)] del: json_dumps_simps)
qed

section \<open>The invariant\<close>

definition history_ok :: "obj list \<Rightarrow> bool" where
  "history_ok cs \<longleftrightarrow> distinct (map commit_id_of cs) \<and>
     successively (\<lambda>a b. py_str (dict_get_json b ''parent_commit_id'') = commit_id_of a) cs"

definition last_id :: "obj list \<Rightarrow> string option" where
  "last_id cs = (if cs = [] then None else Some (commit_id_of (last cs)))"

definition total_changes :: "obj list \<Rightarrow> nat" where
  "total_changes cs = (\<Sum>c\<leftarrow>cs. length (changes_of c))"

definition cut_into :: "obj \<Rightarrow> obj list \<Rightarrow> bool" where
  "cut_into c gs \<longleftrightarrow> commit_ok c \<and> frames_for_commit c = Inr gs"

definition manifest_inv :: "(string \<Rightarrow> string) \<Rightarrow> obj \<Rightarrow> obj list \<Rightarrow> obj list \<Rightarrow> bool" where
  "manifest_inv H m segs cs \<longleftrightarrow>
     dict_get_json m ''head_segment'' = head_from H JNull segs \<and>
     dict_get_json m ''segment_count'' = JInt (int (length segs)) \<and>
     dict_get_json m ''commit_count'' = JInt (int (length cs)) \<and>
     dict_get_json m ''change_count'' = JInt (int (total_changes cs)) \<and>
     dict_get_json m ''last_complete_commit_id'' = json_opt (last_id cs)"

definition chain_inv :: "(string \<Rightarrow> string) \<Rightarrow> gl_repo \<Rightarrow> json \<Rightarrow> obj list \<Rightarrow> obj list \<Rightarrow> bool" where
  "chain_inv H r rid segs cs \<longleftrightarrow>
     segs_linked H rid JNull 0 segs \<and> segs_stored H r segs \<and>
     (\<exists>gss. list_all2 cut_into cs gss \<and> concat (map seg_frames segs) = map JObj (concat gss))"

definition repo_inv :: "(string \<Rightarrow> string) \<Rightarrow> gl_repo \<Rightarrow> obj \<Rightarrow> json \<Rightarrow> obj list \<Rightarrow> obj list \<Rightarrow> bool" where
  "repo_inv H r m rid segs cs \<longleftrightarrow>
     read_manifest r = Inr m \<and> wf_json (JObj m) \<and> check_config r m = Inr [] \<and>
     map_of m ''repository_id'' = Some rid \<and>
     manifest_inv H m segs cs \<and> chain_inv H r rid segs cs \<and> history_ok cs"

lemma cut_into_rep: "cut_into c gs \<Longrightarrow> frames_rep c gs" "cut_into c gs \<Longrightarrow> frames_rep c (rev gs)"
  by (auto simp: cut_into_def frames_rep_def)

lemma cut_into_wf: "cut_into c gs \<Longrightarrow> g \<in> set gs \<Longrightarrow> wf_json (JObj g)"
proof -
  assume a: "cut_into c gs" "g \<in> set gs"
  then have c: "commit_ok c" and fs: "frames_for_commit c = Inr gs" by (auto simp: cut_into_def)
  obtain chunks where gs: "gs = chunk_frames c chunks" and cat: "concat chunks = changes_of c"
    using frames_for_commit_chunks [OF c fs] by metis
  have wf: "wf_json (JObj c)" by (rule commit_okD [OF c])
  obtain i where i: "i < length chunks" and g: "g = frame_of (ddel ''changes'' c) (length chunks) i (chunks ! i)"
    using a(2) gs by (auto simp: in_set_conv_nth nth_chunk_frames)
  have "\<forall>v \<in> set (changes_of c). wf_json v"
    using wf_json_objD [OF wf commit_okD(4) [OF c]] by simp
  moreover have "set (chunks ! i) \<subseteq> set (changes_of c)"
    using nth_mem [OF i] by (auto simp flip: cat)
  ultimately have "wf_json (JList (chunks ! i))" by auto
  then show ?thesis
    unfolding g frame_of_def by (intro wf_dset wf_ddel wf) simp_all
qed

section \<open>Reading a repository that satisfies the invariant\<close>

lemma inv_iter_segments:
  "repo_inv H r m rid segs cs \<Longrightarrow> iter_segments H r newest =
     ((if newest then rev else id) (map (\<lambda>seg. (seg_digest H seg, seg)) segs), None)"
  unfolding repo_inv_def manifest_inv_def chain_inv_def by (blast intro: iter_segments_linked)

lemma linked_has_frames: "segs_linked H rid prev cnt segs \<Longrightarrow> seg \<in> set segs \<Longrightarrow> has_frames seg"
  by (auto simp: has_frames_def dest!: segs_linked_doc)

lemma distinct_distinct_adj: "distinct xs \<Longrightarrow> distinct_adj xs"
  by (induction xs) (auto simp: distinct_adj_Cons)

lemma rev_frames: "concat (map (rev \<circ> f) (rev xs)) = rev (concat (map f xs))"
  by (induction xs) auto

lemma inv_iter_commits:
  assumes inv: "repo_inv H r m rid segs cs"
  shows "iter_commits H r newest = ((if newest then rev else id) cs, None)"
proof -
  obtain gss where rep: "list_all2 cut_into cs gss"
    and frames: "concat (map seg_frames segs) = map JObj (concat gss)"
    and linked: "segs_linked H rid JNull 0 segs" and dist: "distinct (map commit_id_of cs)"
    using inv by (auto simp: repo_inv_def chain_inv_def history_ok_def)
  define cs' where "cs' = (if newest then rev else id) cs"
  define gss' where "gss' = (if newest then rev (map rev gss) else gss)"
  let ?segs = "(if newest then rev else id) (map (\<lambda>seg. (seg_digest H seg, seg)) segs)"
  have rep': "list_all2 frames_rep cs' gss'"
    using list_all2_mono [OF rep cut_into_rep(1)] list_all2_mono [OF rep cut_into_rep(2)]
    by (auto simp: cs'_def gss'_def list_all2_map2 list_all2_rev)
  have dist': "distinct_adj (map commit_id_of cs')"
    using dist by (simp add: cs'_def distinct_distinct_adj flip: rev_map)
  have "concat (map (\<lambda>p. (if newest then rev else id) (seg_frames (snd p))) ?segs) = map JObj (concat gss')"
    using frames rev_frames [of seg_frames segs]
    by (simp add: gss'_def rev_map comp_def rev_concat)
  moreover have "\<forall>p \<in> set ?segs. has_frames (snd p)"
    using linked_has_frames [OF linked] by auto
  ultimately have "scan_segments newest ?segs (None, []) = scan_frames (map JObj (concat gss')) (None, [])"
    by (simp add: scan_segments_flat)
  then have "iter_commits H r newest = (cs', None)"
    using scan_history [OF rep' dist'] inv_iter_segments [OF inv, of newest]
    by (simp add: iter_commits_def)
  then show ?thesis by (simp add: cs'_def)
qed

lemma verify_segments_linked:
  "segs_linked H rid prev (int n) segs \<Longrightarrow> py_eq rid (dict_get_json m ''repository_id'') \<Longrightarrow>
     verify_segments m (map (\<lambda>seg. (seg_digest H seg, seg)) segs) n prev =
     Inr (n + length segs, head_from H prev segs, [])"
proof (induction segs arbitrary: n prev)
  case (Cons seg segs)
  then have "segs_linked H rid (JStr (seg_digest H seg)) (int (n + 1)) segs"
    and "dict_get_json seg ''sequence'' = JInt (int n + 1)" "dict_get_json seg ''previous_segment'' = prev"
      "dict_get_json seg ''repository_id'' = rid"
    by (auto simp: add.commute)
  with Cons.IH [of "JStr (seg_digest H seg)" "n + 1"] Cons.prems(2) show ?case
    by (simp add: err_if_def Let_def)
qed simp

lemma verify_commits_linked:
  "\<forall>c \<in> set cs. commit_ok c \<Longrightarrow>
   successively (\<lambda>a b. py_str (dict_get_json b ''parent_commit_id'') = commit_id_of a) cs \<Longrightarrow>
   prev = None \<or> cs = [] \<or> prev = Some (py_str (dict_get_json (hd cs) ''parent_commit_id'')) \<Longrightarrow>
     verify_commits cs n k prev =
     Inr (n + length cs, k + total_changes cs, if cs = [] then prev else last_id cs, [])"
proof (induction cs arbitrary: n k prev)
  case (Cons c cs)
  have "dict_get_json c ''changes'' = JList (changes_of c)"
    using commit_okD(4) [of c] Cons.prems(1) by (simp add: dict_get_json_def)
  moreover have "verify_commits cs (n + 1) (k + length (changes_of c)) (Some (commit_id_of c)) =
     Inr (n + 1 + length cs, k + length (changes_of c) + total_changes cs,
          if cs = [] then Some (commit_id_of c) else last_id cs, [])"
    using Cons.prems by (intro Cons.IH) (auto simp: successively_Cons)
  ultimately show ?case
    using Cons.prems(3) by (auto simp: err_if_def commit_id_of_def total_changes_def last_id_def)
qed (simp add: total_changes_def)

lemma inv_verify:
  assumes inv: "repo_inv H r m rid segs cs"
  shows "verify H r True = Inr (verify_report (length segs) (length cs) (total_changes cs) [])"
proof -
  have ok: "\<forall>c \<in> set cs. commit_ok c"
    using inv by (auto simp: repo_inv_def chain_inv_def cut_into_def list_all2_conv_all_nth in_set_conv_nth)
  have succ: "successively (\<lambda>a b. py_str (dict_get_json b ''parent_commit_id'') = commit_id_of a) cs"
    using inv by (simp add: repo_inv_def history_ok_def)
  have rid: "py_eq rid (dict_get_json m ''repository_id'')" and linked: "segs_linked H rid JNull (int 0) segs"
    using inv by (auto simp: repo_inv_def chain_inv_def dict_get_json_def)
  note segs = verify_segments_linked [OF linked rid]
  have commits: "verify_commits cs 0 0 None = Inr (length cs, total_changes cs, last_id cs, [])"
    using verify_commits_linked [OF ok succ, of None 0 0] by (auto simp: last_id_def)
  have counts: "verify_counts m True (head_from H JNull segs) (last_id cs) (length segs) (length cs) (total_changes cs) = Inr []"
    using inv by (simp add: repo_inv_def manifest_inv_def verify_counts_def err_if_def)
  show ?thesis
    using inv inv_iter_segments [OF inv, of False] inv_iter_commits [OF inv, of False] segs commits counts
    by (simp add: verify_def repo_inv_def)
qed

section \<open>The invariant is established and kept\<close>

lemma inv_initialise:
  assumes "\<not> repo_exists r0" "initialise repository_id source creator_dir generation now r0 = (res, r)"
  shows "\<exists>m. repo_inv H r m (JStr repository_id) [] []"
proof -
  define gen where "gen = (case generation of Some (c # cs) \<Rightarrow> c # cs | _ \<Rightarrow> now)"
  define m where "m = initial_manifest repository_id gen now"
  let ?c = "initial_config repository_id source creator_dir"
  have files: "manifest_file r = Some (atomic_json m)" "config_file r = Some (atomic_json ?c)"
    using assms by (auto simp: initialise_def Let_def m_def gen_def)
  have wf_m: "wf_json (JObj m)" unfolding m_def initial_manifest_def by (rule wf_dict_of) auto
  have wf_c: "wf_json (JObj ?c)"
    unfolding initial_config_def by (rule wf_dict_of) (auto simp: json_opt_def split: option.splits)
  have hdr_m: "header_ok m" and hdr_c: "header_ok ?c"
    by (simp_all add: header_ok_def m_def initial_manifest_def initial_config_def dict_get_json_def map_of_dict_of)
  have read: "read_manifest r = Inr m" by (rule read_manifest_written [OF wf_m hdr_m files(1)])
  have "validate_header (JObj ?c) ''config'' = Inr ?c" using hdr_c by (simp add: validate_header_Inr)
  moreover have "dict_get_json ?c ''repository_id'' = dict_get_json m ''repository_id''"
    by (simp add: m_def initial_manifest_def initial_config_def dict_get_json_def map_of_dict_of)
  ultimately have config: "check_config r m = Inr []"
    using files(2)
    by (simp add: check_config_def atomic_json_decode json_loads_dumps_newline [OF wf_c] del: json_dumps_simps)
  have "map_of m ''repository_id'' = Some (JStr repository_id)"
    by (simp add: m_def initial_manifest_def map_of_dict_of)
  moreover have "manifest_inv H m [] []"
    by (simp add: manifest_inv_def m_def initial_manifest_def dict_get_json_def map_of_dict_of
        total_changes_def last_id_def json_opt_def)
  ultimately have "repo_inv H r m (JStr repository_id) [] []"
    using read wf_m config by (simp add: repo_inv_def chain_inv_def segs_stored_def history_ok_def)
  then show ?thesis ..
qed

lemma check_pending_Inr:
  assumes "check_pending prev n k pend = Inr (p, n', k', frames)" "\<forall>c \<in> set pend. commit_ok c"
  shows "\<exists>gss. list_all2 cut_into pend gss \<and> frames = concat gss \<and>
     p = (if pend = [] then prev else json_opt (last_id pend)) \<and>
     n' = n + int (length pend) \<and> k' = k + int (total_changes pend) \<and>
     (pend \<noteq> [] \<longrightarrow> prev \<noteq> JNull \<longrightarrow> py_str (dict_get_json (hd pend) ''parent_commit_id'') = py_str prev) \<and>
     successively (\<lambda>a b. py_str (dict_get_json b ''parent_commit_id'') = commit_id_of a) pend"
  using assms
proof (induction pend arbitrary: prev n k p n' k' frames)
  case Nil
  then show ?case by (simp add: total_changes_def)
next
  case (Cons c pend)
  have c: "commit_ok c" using Cons.prems(2) by simp
  have id: "str_or_empty (dict_get_json c ''commit_id'') = commit_id_of c"
    and chs: "dict_get_json c ''changes'' = JList (changes_of c)"
    using commit_okD(2-4) [OF c] by (simp_all add: dict_get_json_def str_or_empty_def)
  obtain g frames' where g: "frames_for_commit c = Inr g" and fr: "frames = g @ frames'"
    and rest: "check_pending (JStr (commit_id_of c)) (n + 1) (k + int (length (changes_of c))) pend =
       Inr (p, n', k', frames')"
    and parent: "prev \<noteq> JNull \<longrightarrow> py_str (dict_get_json c ''parent_commit_id'') = py_str prev"
    using Cons.prems(1) id chs commit_okD(3) [OF c]
    by (auto simp: Let_def bindE_Inr split: if_splits)
  from Cons.IH [OF rest] Cons.prems(2) obtain gss where
    "list_all2 cut_into pend gss" "frames' = concat gss"
    "p = (if pend = [] then JStr (commit_id_of c) else json_opt (last_id pend))"
    "n' = n + 1 + int (length pend)" "k' = k + int (length (changes_of c)) + int (total_changes pend)"
    "pend \<noteq> [] \<longrightarrow> py_str (dict_get_json (hd pend) ''parent_commit_id'') = commit_id_of c"
    "successively (\<lambda>a b. py_str (dict_get_json b ''parent_commit_id'') = commit_id_of a) pend"
    by auto
  with c g fr parent show ?case
    by (intro exI [of _ "g # gss"])
       (auto simp: cut_into_def [of c g] total_changes_def last_id_def json_opt_def successively_Cons)
qed

text \<open>The segments a successful append publishes.\<close>

definition published_segments :: "(string \<Rightarrow> string) \<Rightarrow> obj \<Rightarrow> obj list \<Rightarrow> obj list" where
  "published_segments H m pend =
    (case append_plan m pend of
       Inl _ \<Rightarrow> []
     | Inr (n, _, _, _, frames) \<Rightarrow>
         plan_segments H (dict_get_json m ''repository_id'') [] [] (dict_get_json m ''head_segment'') n frames)"

definition no_collision :: "(string \<Rightarrow> string) \<Rightarrow> gl_repo \<Rightarrow> obj list \<Rightarrow> bool" where
  "no_collision H r segs \<longleftrightarrow> inj_on H (stored_texts r \<union> (\<lambda>seg. canonical_bytes (JObj seg)) ` set segs)"

lemma append_success:
  assumes "append_commits H now pend r = (Inr m', r')" "read_manifest r = Inr m"
    and "pend \<noteq> []" "\<not> already_published m pend" "map_of m ''repository_id'' = Some rid"
  obtains n p nc nk frames where "append_plan m pend = Inr (n, p, nc, nk, frames)"
    "write_all H (published_segments H m pend) r = Some (r'\<lparr>manifest_file := manifest_file r\<rparr>)"
    "m' = updated_manifest m (head_from H (dict_get_json m ''head_segment'') (published_segments H m pend))
            p (n + int (length (published_segments H m pend))) nc nk now"
    "manifest_file r' = Some (atomic_json m')"
proof -
  obtain n p nc nk frames where plan: "append_plan m pend = Inr (n, p, nc, nk, frames)"
    using assms by (cases "append_plan m pend") (auto simp: append_commits_def)
  obtain hd n' r1 where pub: "publish_frames H m [] [] (dict_get_json m ''head_segment'') n frames r = (Inr (hd, n'), r1)"
    and m': "m' = updated_manifest m hd p n' nc nk now" and r': "r' = r1\<lparr>manifest_file := Some (atomic_json m')\<rparr>"
    using assms plan by (auto simp: append_commits_def Let_def split: prod.splits sum.splits)
  have "r'\<lparr>manifest_file := manifest_file r\<rparr> = r1"
    using publish_frames_extends [OF pub] r' by (simp add: extends_def)
  moreover have "published_segments H m pend = plan_segments H rid [] [] (dict_get_json m ''head_segment'') n frames"
    using plan assms(5) by (simp add: published_segments_def dict_get_json_def)
  moreover note publish_frames_plan [OF pub assms(5)]
  ultimately show ?thesis using that [OF plan] m' r' by simp
qed

lemma get_updated_manifest:
  "dict_get_json (updated_manifest m seg com n c k now) ''head_segment'' = seg"
  "dict_get_json (updated_manifest m seg com n c k now) ''last_complete_commit_id'' = com"
  "dict_get_json (updated_manifest m seg com n c k now) ''segment_count'' = JInt n"
  "dict_get_json (updated_manifest m seg com n c k now) ''commit_count'' = JInt c"
  "dict_get_json (updated_manifest m seg com n c k now) ''change_count'' = JInt k"
  "map_of (updated_manifest m seg com n c k now) ''repository_id'' = map_of m ''repository_id''"
  "dict_get_json (updated_manifest m seg com n c k now) ''repository_id'' = dict_get_json m ''repository_id''"
  "header_ok (updated_manifest m seg com n c k now) = header_ok m"
  by (simp_all add: updated_manifest_def header_ok_def)

lemma wf_updated_manifest:
  "wf_json (JObj m) \<Longrightarrow> wf_json seg \<Longrightarrow> wf_json com \<Longrightarrow> wf_json (JObj (updated_manifest m seg com n c k now))"
  unfolding updated_manifest_def by (intro wf_dset wf_dict_of) auto

lemma wf_head_from [simp]: "wf_json prev \<Longrightarrow> wf_json (head_from H prev segs)"
  by (simp add: head_from_def)

lemma wf_json_opt [simp]: "wf_json (json_opt x)"
  by (simp add: json_opt_def split: option.splits)

lemma head_from_append: "head_from H (head_from H prev xs) ys = head_from H prev (xs @ ys)"
  by (simp add: head_from_def)

lemma check_config_cong:
  "config_file r' = config_file r \<Longrightarrow> dict_get_json m' ''repository_id'' = dict_get_json m ''repository_id'' \<Longrightarrow>
     check_config r' m' = check_config r m"
  unfolding check_config_def by (simp only:)

lemma segs_stored_manifest: "segs_stored H (r\<lparr>manifest_file := x\<rparr>) segs = segs_stored H r segs"
  by (simp add: segs_stored_def read_segment_def)

lemma history_ok_append:
  assumes "history_ok cs" "pend \<noteq> []" "distinct (map commit_id_of (cs @ pend))"
    and "cs \<noteq> [] \<longrightarrow> py_str (dict_get_json (hd pend) ''parent_commit_id'') = commit_id_of (last cs)"
    and "successively (\<lambda>a b. py_str (dict_get_json b ''parent_commit_id'') = commit_id_of a) pend"
  shows "history_ok (cs @ pend)"
  using assms by (auto simp: history_ok_def successively_append_iff)

lemma inv_append:
  assumes inv: "repo_inv H r m rid segs cs"
    and app: "append_commits H now pend r = (Inr m', r')"
    and pend: "pend \<noteq> []" "\<not> already_published m pend" "\<forall>c \<in> set pend. commit_ok c"
    and ids: "distinct (map commit_id_of (cs @ pend))"
    and cf: "no_collision H r (published_segments H m pend)"
  shows "repo_inv H r' m' rid (segs @ published_segments H m pend) (cs @ pend)"
proof -
  let ?new = "published_segments H m pend"
  have m: "read_manifest r = Inr m" "wf_json (JObj m)" "map_of m ''repository_id'' = Some rid"
    and mi: "manifest_inv H m segs cs" and ci: "chain_inv H r rid segs cs" and hi: "history_ok cs"
    and cfg: "check_config r m = Inr []"
    using inv by (auto simp: repo_inv_def)
  obtain n p nc nk frames where plan: "append_plan m pend = Inr (n, p, nc, nk, frames)"
    and wr: "write_all H ?new r = Some (r'\<lparr>manifest_file := manifest_file r\<rparr>)"
    and m': "m' = updated_manifest m (head_from H (dict_get_json m ''head_segment'') ?new) p (n + int (length ?new)) nc nk now"
    and file': "manifest_file r' = Some (atomic_json m')"
    by (rule append_success [OF app m(1) pend(1,2) m(3)])
  have n: "n = int (length segs)"
    and chk: "check_pending (json_opt (last_id cs)) (int (length cs)) (int (total_changes cs)) pend =
      Inr (p, nc, nk, frames)"
    using plan mi by (auto simp: append_plan_def manifest_inv_def bindE_Inr)
  obtain gss where gss: "list_all2 cut_into pend gss" "frames = concat gss"
    and p: "p = json_opt (last_id pend)" and nc: "nc = int (length (cs @ pend))"
    and nk: "nk = int (total_changes (cs @ pend))"
    and par: "cs \<noteq> [] \<longrightarrow> py_str (dict_get_json (hd pend) ''parent_commit_id'') = commit_id_of (last cs)"
    and suc: "successively (\<lambda>a b. py_str (dict_get_json b ''parent_commit_id'') = commit_id_of a) pend"
    using check_pending_Inr [OF chk pend(3)] pend(1)
    by (auto simp: total_changes_def json_opt_def last_id_def split: if_splits)
  have new: "?new = plan_segments H rid [] [] (head_from H JNull segs) (int (length segs)) frames"
    using plan m(3) mi n by (simp add: published_segments_def manifest_inv_def dict_get_json_def)
  have wf_frames: "\<forall>f \<in> set frames. wf_json (JObj f)"
    using gss(1) unfolding gss(2) by (induction pend gss rule: list_all2_induct) (auto intro: cut_into_wf)
  have "\<forall>seg \<in> set ?new. wf_json (JObj seg)"
    using plan_wf wf_frames wf_json_objD [OF m(2,3)] unfolding new by fastforce
  moreover have linked': "segs_linked H rid (head_from H JNull segs) (int (length segs)) ?new"
    unfolding new by (rule plan_linked)
  moreover have "\<forall>seg \<in> set ?new. validate_header (JObj seg) ''segment'' = Inr seg"
    using segs_linked_doc [OF linked'] by fastforce
  ultimately have "segs_stored H (r'\<lparr>manifest_file := manifest_file r\<rparr>) ?new"
    unfolding segs_stored_def by (intro write_all_reads [OF wr] cf [unfolded no_collision_def]) simp
  then have "segs_stored H r' ?new" by (simp only: segs_stored_manifest)
  moreover have "segs_stored H r' segs"
    using segs_stored_extends [OF _ write_all_extends [OF wr], of H segs] ci
    by (simp add: segs_stored_manifest chain_inv_def)
  ultimately have stored: "segs_stored H r' (segs @ ?new)" by (auto simp: segs_stored_def)
  have "concat (map seg_frames ?new) = map JObj (concat gss)"
    unfolding new plan_frames by (simp add: gss)
  moreover obtain gss0 where "list_all2 cut_into cs gss0" "concat (map seg_frames segs) = map JObj (concat gss0)"
    using ci by (auto simp: chain_inv_def)
  ultimately have chain': "chain_inv H r' rid (segs @ ?new) (cs @ pend)"
    using ci stored linked' gss(1)
    by (auto simp: chain_inv_def segs_linked_append intro!: exI [of _ "gss0 @ gss"] list_all2_appendI)
  have mi': "manifest_inv H m' (segs @ ?new) (cs @ pend)"
    using mi pend(1) by (simp add: m' manifest_inv_def get_updated_manifest n nc nk p head_from_append last_id_def)
  have wf': "wf_json (JObj m')"
    unfolding m' using m(2) p by (intro wf_updated_manifest) (simp_all add: wf_get)
  have "header_ok m'" using read_manifest_header [OF m(1)] by (simp add: m' get_updated_manifest)
  then have read': "read_manifest r' = Inr m'" by (rule read_manifest_written [OF wf' _ file'])
  have "config_file r' = config_file r"
    using write_all_extends [OF wr] by (simp add: extends_def)
  then have "check_config r' m' = Inr []"
    using cfg check_config_cong [of r' r m' m] by (simp add: m' get_updated_manifest)
  moreover have "history_ok (cs @ pend)" by (rule history_ok_append [OF hi pend(1) ids par suc])
  ultimately show ?thesis
    using read' wf' mi' chain' m(3) by (simp add: repo_inv_def m' get_updated_manifest)
qed

lemma append_failed_extends:
  assumes "append_commits H now pend r = (Inl e, r')"
  shows "extends r r'"
proof (cases "read_manifest r")
  case (Inl x)
  with assms show ?thesis by (simp add: append_commits_def)
next
  case (Inr m)
  with assms show ?thesis
    by (auto simp: append_commits_def Let_def split: if_splits sum.splits prod.splits
        dest: publish_frames_extends)
qed

lemma inv_extends: "repo_inv H r m rid segs cs \<Longrightarrow> extends r r' \<Longrightarrow> repo_inv H r' m rid segs cs"
proof -
  assume inv: "repo_inv H r m rid segs cs" and ext: "extends r r'"
  then have "read_manifest r' = read_manifest r" "check_config r' m = check_config r m"
    by (simp_all only: read_manifest_def extends_def check_config_def)
  with inv segs_stored_extends [OF _ ext] show ?thesis by (simp add: repo_inv_def chain_inv_def)
qed

section \<open>Histories\<close>

text \<open>
  \<open>published H r cs\<close>: the directory \<open>r\<close> was initialised and then went through appends, and \<open>cs\<close>
  are the commits of the appends that succeeded. Commit ids are not reused, the texts of the
  segments do not collide under \<open>H\<close>, and an append of nothing or of the last commit again
  (a retry) is accepted without effect.
\<close>

inductive published :: "(string \<Rightarrow> string) \<Rightarrow> gl_repo \<Rightarrow> obj list \<Rightarrow> bool" for H where
  initialised: "\<not> repo_exists r0 \<Longrightarrow>
    initialise repository_id source creator_dir generation now r0 = (res, r) \<Longrightarrow> published H r []"
| appended: "published H r cs \<Longrightarrow> append_commits H now pend r = (Inr m', r') \<Longrightarrow>
    read_manifest r = Inr m \<Longrightarrow> pend \<noteq> [] \<Longrightarrow> \<not> already_published m pend \<Longrightarrow>
    \<forall>c \<in> set pend. commit_ok c \<Longrightarrow> distinct (map commit_id_of (cs @ pend)) \<Longrightarrow>
    no_collision H r (published_segments H m pend) \<Longrightarrow> published H r' (cs @ pend)"
| retried: "published H r cs \<Longrightarrow> append_commits H now pend r = (res, r') \<Longrightarrow>
    read_manifest r = Inr m \<Longrightarrow> pend = [] \<or> already_published m pend \<Longrightarrow> published H r' cs"
| failed: "published H r cs \<Longrightarrow> append_commits H now pend r = (Inl e, r') \<Longrightarrow> published H r' cs"

lemma published_inv: "published H r cs \<Longrightarrow> \<exists>m rid segs. repo_inv H r m rid segs cs"
proof (induction rule: published.induct)
  case (initialised r0 repository_id source creator_dir generation now res r)
  then show ?case using inv_initialise by blast
next
  case (appended r cs now pend m' r' m)
  then obtain m0 rid segs where inv: "repo_inv H r m0 rid segs cs" by blast
  with appended.hyps(3) have "m0 = m" by (simp add: repo_inv_def)
  with inv_append [OF inv appended.hyps(2)] appended.hyps show ?case by blast
next
  case (retried r cs now pend res r' m)
  then have "r' = r" by (auto simp: append_commits_def)
  with retried.IH show ?case by simp
next
  case (failed r cs now pend e r')
  then show ?case using inv_extends append_failed_extends by blast
qed

section \<open>Failed appends and readers\<close>

lemma walk_chain_extends:
  "walk_chain H r dig seen = (ys, None) \<Longrightarrow> extends r r' \<Longrightarrow> walk_chain H r' dig seen = (ys, None)"
proof (induction H r dig seen arbitrary: ys rule: walk_chain.induct)
  case (1 H r dig seen)
  show ?case
  proof (cases "jtruthy dig")
    case False
    with "1.prems"(1) show ?thesis by (simp add: walk_chain.simps)
  next
    case True
    then obtain d seg zs where d: "dig = JStr d" "d \<notin> set seen" and seg: "read_segment H r d = Inr seg"
      and rest: "walk_chain H r (dict_get_json seg ''previous_segment'') (d # seen) = (zs, None)"
      and ys: "ys = (d, seg) # zs"
      using "1.prems"(1)
      by (subst (asm) walk_chain.simps) (auto split: if_splits json.splits sum.splits prod.splits)
    have "walk_chain H r' (dict_get_json seg ''previous_segment'') (d # seen) = (zs, None)"
      using "1.IH" [of d seg zs] True d seg rest "1.prems"(2) by simp
    with True d extends_read [OF "1.prems"(2) seg] ys show ?thesis
      by (subst walk_chain.simps) simp
  qed
qed

lemma yield_segments_extends:
  "yield_segments H r ds = (ys, None) \<Longrightarrow> extends r r' \<Longrightarrow> yield_segments H r' ds = (ys, None)"
  by (induction ds arbitrary: ys) (auto split: sum.splits prod.splits simp: extends_read)

lemma read_manifest_extends: "extends r r' \<Longrightarrow> read_manifest r' = read_manifest r"
  by (simp add: read_manifest_def extends_def)

lemma iter_segments_extends:
  assumes "iter_segments H r b = (ys, None)" and ext: "extends r r'"
  shows "iter_segments H r' b = (ys, None)"
proof -
  obtain m chain where m: "read_manifest r = Inr m"
    and walk: "walk_chain H r (dict_get_json m ''head_segment'') [] = (chain, None)"
    and ys: "if b then ys = chain else yield_segments H r (rev (map fst chain)) = (ys, None)"
    using assms(1) by (auto simp: iter_segments_def split: sum.splits prod.splits if_splits option.splits)
  show ?thesis
    using m ys walk_chain_extends [OF walk ext] yield_segments_extends [OF _ ext]
    by (simp add: iter_segments_def read_manifest_extends [OF ext] split: if_splits)
qed

lemma iter_commits_extends:
  assumes "iter_commits H r b = (cs, None)" "extends r r'"
  shows "iter_commits H r' b = (cs, None)"
proof -
  obtain segs where "iter_segments H r b = (segs, None)"
    using assms(1) by (auto simp: iter_commits_def split: prod.splits sum.splits option.splits if_splits)
  with iter_segments_extends [OF this assms(2)] assms(1) show ?thesis by (simp add: iter_commits_def)
qed

section \<open>An example history\<close>

text \<open>
  Two commits published in one segment, with a digest that only looks at the length of the text:
  the hypotheses of the theorems below can be met.
\<close>

definition toy_digest :: "string \<Rightarrow> string" where
  "toy_digest s = replicate 63 (CHR ''0'') @ [if even (length s) then CHR ''0'' else CHR ''1'']"

definition demo_commit :: "string \<Rightarrow> json \<Rightarrow> json list \<Rightarrow> obj" where
  "demo_commit i p chs = [(''changes'', JList chs), (''commit_id'', JStr i), (''parent_commit_id'', p)]"

definition demo_commits :: "obj list" where
  "demo_commits = [demo_commit ''a'' JNull [JInt 1], demo_commit ''b'' (JStr ''a'') []]"

definition demo_empty :: gl_repo where
  "demo_empty = \<lparr>manifest_file = None, config_file = None, segment_files = []\<rparr>"

definition demo_init :: gl_repo where
  "demo_init = snd (initialise ''r'' None None None ''t'' demo_empty)"

definition demo_manifest :: obj where
  "demo_manifest = initial_manifest ''r'' ''t'' ''t''"

definition demo_repo :: gl_repo where
  "demo_repo = snd (append_commits toy_digest ''u'' demo_commits demo_init)"

definition demo_frame_a :: obj where
  "demo_frame_a = frame_of [(''commit_id'', JStr ''a''), (''parent_commit_id'', JNull)] 1 0 [JInt 1]"

definition demo_frame_b :: obj where
  "demo_frame_b = frame_of [(''commit_id'', JStr ''b''), (''parent_commit_id'', JStr ''a'')] 1 0 []"

lemmas eval_bytes = canonical_bytes_def json_quote_def quote_with_def escape_char_def utf8_encode_def utf8_char_def Let_def
  show_int_def show_nat.simps digit_char_def 

lemma demo_size: "encoded_frame [(''commit_id'', JStr ''a''), (''parent_commit_id'', JNull)] [JInt 1] \<le> MAX_FRAME_BYTES"
  "segment_size (segment_doc (JStr ''r'') 1 JNull [demo_frame_a]) \<le> MAX_SEGMENT_BYTES"
  "segment_size (segment_doc (JStr ''r'') 1 JNull [demo_frame_a, demo_frame_b]) \<le> MAX_SEGMENT_BYTES"
  by (simp_all add: encoded_frame_def eval_bytes gl_consts segment_size_def segment_doc_def dict_of_def demo_frame_a_def demo_frame_b_def frame_of_def)

lemma demo_init: "initialise ''r'' None None None ''t'' demo_empty = (Inr (), demo_init)"
  by (simp add: demo_init_def initialise_def demo_empty_def repo_exists_def)

lemma demo_read: "read_manifest demo_init = Inr demo_manifest"
proof (rule read_manifest_written)
  show "wf_json (JObj demo_manifest)" 
    unfolding demo_manifest_def initial_manifest_def by (rule wf_dict_of) auto
  show "header_ok demo_manifest"
    by (simp add: header_ok_def demo_manifest_def initial_manifest_def dict_get_json_def map_of_dict_of)
  show "manifest_file demo_init = Some (atomic_json demo_manifest)"
    by (simp add: demo_init_def initialise_def demo_empty_def repo_exists_def demo_manifest_def Let_def)
qed

lemma demo_plan: "append_plan demo_manifest demo_commits = Inr (0, JStr ''b'', 2, 1, [demo_frame_a, demo_frame_b])"
  using demo_size(1) by (simp add: append_plan_def demo_manifest_def demo_commits_def demo_commit_def initial_manifest_def
   dict_get_json_def map_of_dict_of int_or_def Let_def str_or_empty_def frames_for_commit_def ddel_def demo_frame_a_def demo_frame_b_def gl_consts)

lemma demo_fields: "map_of demo_manifest ''repository_id'' = Some (JStr ''r'')"
   "dict_get_json demo_manifest ''head_segment'' = JNull"
   "dict_get_json demo_manifest ''last_complete_commit_id'' = JNull"
   "map_of demo_frame_a ''commit_id'' = Some (JStr ''a'')"
   "map_of demo_frame_b ''commit_id'' = Some (JStr ''b'')"
  by (simp_all add: demo_manifest_def initial_manifest_def map_of_dict_of dict_get_json_def demo_frame_a_def demo_frame_b_def frame_of_def)

lemma toy_path: "segment_path (toy_digest s) = Inr (toy_digest s)"
  by (simp add: segment_path_def toy_digest_def list_all_iff is_lower_hex_def)

lemma demo_publish: "\<exists>d r. publish_frames toy_digest demo_manifest [] [] JNull 0 [demo_frame_a, demo_frame_b] demo_init = (Inr d, r)"
proof -
  have "segment_files demo_init = []" by (simp add: demo_init_def initialise_def demo_empty_def repo_exists_def Let_def)
  then show ?thesis
    using demo_size(2,3) demo_fields toy_path by (simp add: publish_segment_def write_segment_def Let_def segment_size_def gl_consts)
qed

lemma demo_append: "\<exists>m. append_commits toy_digest ''u'' demo_commits demo_init = (Inr m, demo_repo)"
proof -
  have "\<not> already_published demo_manifest demo_commits" "demo_commits \<noteq> []"
    by (simp_all add: already_published_def demo_commits_def)
  with demo_read demo_plan demo_publish demo_fields(2) show ?thesis
    by (auto simp: append_commits_def demo_repo_def Let_def)
qed

lemma demo_published: "published toy_digest demo_repo demo_commits"
proof -
  have "published toy_digest demo_init []"
    by (rule published.initialised [OF _ demo_init]) (simp add: repo_exists_def demo_empty_def)
  moreover have "\<not> already_published demo_manifest demo_commits" "demo_commits \<noteq> []"
    by (simp_all add: already_published_def demo_commits_def)
  moreover have "\<forall>c \<in> set demo_commits. commit_ok c" "distinct (map commit_id_of demo_commits)"
    by (simp_all add: demo_commits_def demo_commit_def commit_ok_def wf_json_obj dict_ok_def dict_get_json_def commit_id_of_def)
  moreover have "no_collision toy_digest demo_init (published_segments toy_digest demo_manifest demo_commits)"
  proof -
    have "published_segments toy_digest demo_manifest demo_commits = [segment_doc (JStr ''r'') 1 JNull [demo_frame_a, demo_frame_b]]"
      using demo_plan demo_size(2,3) demo_fields by (simp add: published_segments_def dict_get_json_def gl_consts Let_def)
    moreover have "stored_texts demo_init = {}"
      by (simp add: demo_init_def initialise_def demo_empty_def repo_exists_def Let_def stored_texts_def)
    ultimately show ?thesis by (simp add: no_collision_def)
  qed
  ultimately show ?thesis
    using published.appended [of toy_digest demo_init "[]" "''u''" demo_commits _ demo_repo demo_manifest] demo_append demo_read
    by auto
qed

end
