(* ===== verification/Gitllery_Properties.thy ===== *)
theory Gitllery_Properties
  imports Gitllery_Repository
begin

text \<open>
  The contract of the segment repository, as properties of the operations of
  \<^verbatim>\<open>SegmentRepository\<close>.
\<close>

section \<open>Properties\<close>

lemma find_absent: "y \<notin> f ` set xs \<Longrightarrow> List.find (\<lambda>x. f x = y) xs = None"
  by (auto simp: find_None_iff)

lemma find_distinct:
  "distinct (map f xs) \<Longrightarrow> x \<in> set xs \<Longrightarrow> List.find (\<lambda>y. f y = f x) xs = Some x"
  by (induction xs) auto

text \<open>C1. The history that was appended is the history that is read. After any sequence of
  appends, including failed ones and retries, \<^verbatim>\<open>iter_commits\<close> yields exactly the commits of the
  successful appends, oldest first or newest first, without an error, and \<^verbatim>\<open>find_commit\<close> returns
  each commit by its id and \<open>None\<close> for every other id.\<close>

theorem published_reads_back:
  assumes "published H r cs"
  shows "iter_commits H r False = (cs, None) \<and> iter_commits H r True = (rev cs, None) \<and>
    (\<forall>c \<in> set cs. find_commit H r (commit_id_of c) = Inr (Some c)) \<and>
    (\<forall>i. i \<notin> set (map commit_id_of cs) \<longrightarrow> find_commit H r i = Inr None)"
proof -
  obtain m rid segs where inv: "repo_inv H r m rid segs cs" using published_inv [OF assms] by blast
  then have dist: "distinct (map commit_id_of (rev cs))"
    by (simp add: repo_inv_def history_ok_def flip: rev_map)
  note reads = inv_iter_commits [OF inv]
  have "\<forall>c \<in> set cs. find_commit H r (commit_id_of c) = Inr (Some c)"
    using find_distinct [OF dist] reads by (simp add: find_commit_def commit_id_of_def)
  moreover have "\<forall>i. i \<notin> set (map commit_id_of cs) \<longrightarrow> find_commit H r i = Inr None"
    using find_absent [of _ commit_id_of "rev cs"] reads by (simp add: find_commit_def commit_id_of_def)
  ultimately show ?thesis using reads by simp
qed

theorem published_reads_back_witness:
  "published toy_digest demo_repo demo_commits \<and>
   iter_commits toy_digest demo_repo False = (demo_commits, None)"
  using published_reads_back [OF demo_published] demo_published by simp

text \<open>C2. Every repository written by this code passes its own deep verification: \<^verbatim>\<open>verify\<close>
  reports no error and counts exactly the commits and changes that were appended.\<close>

theorem published_verifies:
  assumes "published H r cs"
  shows "\<exists>n. verify H r True =
    Inr \<lparr>vr_ok = True, vr_segments = n, vr_commits = length cs, vr_changes = total_changes cs, vr_errors = []\<rparr>"
  using published_inv [OF assms] inv_verify by (fastforce simp: verify_report_def)

theorem published_verifies_witness:
  "\<exists>n. verify toy_digest demo_repo True =
    Inr \<lparr>vr_ok = True, vr_segments = n, vr_commits = 2, vr_changes = 1, vr_errors = []\<rparr>"
  using published_verifies [OF demo_published]
  by (simp add: demo_commits_def demo_commit_def total_changes_def changes_of_def dict_get_json_def
      numeral_2_eq_2)






lemma lift_py_Inr [simp]: "lift_py r = Inr x \<longleftrightarrow> r = Inr x"
  by (cases r) auto

lemma err_if_Nil [simp]: "err_if b msg = [] \<longleftrightarrow> \<not> b"
  by (simp add: err_if_def)







text \<open>C39. A commit without an id is not always refused: appended alone to a repository without
  commits it is taken for a retry of the last commit (both ids print as \<open>None\<close>), and the append
  returns as if it had been published.\<close>

theorem missing_id_taken_for_retry:
  assumes "read_manifest r = Inr m" "dict_get_json m ''last_complete_commit_id'' = JNull"
    and "dict_get_json c ''commit_id'' = JNull"
  shows "append_commits H now [c] r = (Inr m, r)"
  using assms by (simp add: append_commits_def already_published_def)

theorem missing_id_taken_for_retry_witness:
  "append_commits toy_digest ''u'' [[]] demo_init = (Inr demo_manifest, demo_init)"
  by (rule missing_id_taken_for_retry [OF demo_read demo_fields(3)]) (simp add: dict_get_json_def)

end
