(* ===== verification/Pressure_State.thy ===== *)
theory Pressure_State
  imports Gallery_Prelude
begin

text \<open>
  The resource pressure controller of \<^verbatim>\<open>backend/app/services/resource_pressure_state.py\<close>: thresholds,
  work profiles, and the state machine that turns memory, swap and latency samples into a mode
  and a throughput scale. Floats are rationals. The settings object, the clock and the samples
  are arguments; \<^verbatim>\<open>update\<close> is a function from state to state, and the report it returns is
  computed from the new state by the functions of the last section.
\<close>

section \<open>Settings, samples and thresholds\<close>

abbreviation MIB :: int where "MIB \<equiv> 1048576"

record resource_settings =
  cfg_reserve_mode :: string
  cfg_reserve_ratio :: rat
  cfg_reserve_min_mb :: int
  cfg_reserve_max_mb :: int
  cfg_warning_available_mb :: int
  cfg_pause_available_mb :: int
  cfg_resume_available_mb :: int
  cfg_warning_swap_free_ratio :: rat
  cfg_pause_swap_free_ratio :: rat
  cfg_critical_swap_free_ratio :: rat
  cfg_resume_swap_free_ratio :: rat
  cfg_swap_activity_mb_per_minute :: rat
  cfg_pause_memory_psi :: rat
  cfg_pause_io_psi :: rat
  cfg_resume_memory_psi :: rat
  cfg_resume_io_psi :: rat
  cfg_pause_samples :: int
  cfg_failure_samples :: int
  cfg_resume_seconds :: rat
  cfg_budget_min_scale :: rat
  cfg_budget_decrease_factor :: rat
  cfg_budget_increase_step :: rat
  cfg_budget_increase_stable_seconds :: rat
  cfg_governance_max_scale :: rat
  cfg_base_read_mb_per_second :: rat
  cfg_base_write_mb_per_second :: rat
  cfg_governance_mode :: string
  cfg_enforced_profiles :: string
  cfg_foreground_p95_limit_ms :: rat
  cfg_foreground_min_samples :: int
  cfg_foreground_slow_samples :: int

text \<open>The fields of \<^verbatim>\<open>ResourceSample\<close> the controller reads.\<close>

record resource_sample =
  memory_total_bytes :: int
  memory_available_bytes :: int
  swap_total_bytes :: int
  swap_free_bytes :: int
  memory_full_avg10 :: "rat option"
  io_full_avg10 :: "rat option"
  swap_in_bytes_per_second :: "rat option"
  swap_out_bytes_per_second :: "rat option"
  memory_available_change :: "rat option"
  cgroup_memory_max_delta :: "int option"
  cgroup_memory_oom_delta :: "int option"
  cgroup_memory_oom_kill_delta :: "int option"
  foreground_p95_ms :: "rat option"
  foreground_sample_count :: int
  foreground_sample_generation :: int
  memory_psi_soft_trigger :: "rat option"
  io_psi_soft_trigger :: "rat option"
  sample_time :: "string option"

definition swap_free_ratio :: "resource_sample \<Rightarrow> rat" where
  "swap_free_ratio s =
    (if swap_total_bytes s \<le> 0 then 1 else of_int (swap_free_bytes s) / of_int (swap_total_bytes s))"

definition swap_activity :: "resource_sample \<Rightarrow> rat option" where
  "swap_activity s =
    (case (swap_in_bytes_per_second s, swap_out_bytes_per_second s) of
       (None, None) \<Rightarrow> None
     | (Some a, None) \<Rightarrow> Some a
     | (None, Some b) \<Rightarrow> Some b
     | (Some a, Some b) \<Rightarrow> Some (a + b))"

record pressure_thresholds =
  warning_available_bytes :: int
  pause_available_bytes :: int
  resume_available_bytes :: int
  warning_swap_free_ratio :: rat
  pause_swap_free_ratio :: rat
  critical_swap_free_ratio :: rat
  swap_activity_limit :: rat
  resume_swap_free_ratio :: rat
  pause_memory_psi :: rat
  pause_io_psi :: rat
  resume_memory_psi :: rat
  resume_io_psi :: rat
  pause_samples :: int
  failure_samples :: int
  resume_seconds :: rat
  memory_reserve_mode :: string
  memory_reserve_ratio :: "rat option"
  memory_reserve_min_bytes :: "int option"
  memory_reserve_max_bytes :: "int option"
  detected_memory_total_bytes :: "int option"

definition automatic_memory_reserve_bytes :: "int \<Rightarrow> rat \<Rightarrow> int \<Rightarrow> int \<Rightarrow> int" where
  "automatic_memory_reserve_bytes memory_total ratio minimum_bytes maximum_bytes =
    (let lower = max (128 * MIB) minimum_bytes;
         upper = max lower maximum_bytes;
         proportional = py_trunc (of_int (max 0 memory_total) * max (1/100) ratio)
     in min upper (max lower proportional))"

text \<open>\<open>detected\<close> is what reading \<^verbatim>\<open>/proc/meminfo\<close> gives, used when no total is passed.\<close>

definition thresholds_from_settings ::
  "resource_settings \<Rightarrow> int option \<Rightarrow> int option \<Rightarrow> pressure_thresholds" where
  "thresholds_from_settings cfg detected memory_total =
    (let reserve_mode0 = py_lower (py_strip (cfg_reserve_mode cfg));
         detected_total = (case memory_total of None \<Rightarrow> detected | Some t \<Rightarrow> Some (max 0 t));
         reserve_min = cfg_reserve_min_mb cfg * MIB;
         reserve_max = cfg_reserve_max_mb cfg * MIB;
         is_auto = (reserve_mode0 = ''auto'' \<and> detected_total \<noteq> None \<and> detected_total \<noteq> Some 0);
         pause_available =
           (if is_auto
            then automatic_memory_reserve_bytes (the detected_total) (cfg_reserve_ratio cfg) reserve_min reserve_max
            else cfg_pause_available_mb cfg * MIB);
         warning_available = max (pause_available + 128 * MIB) (py_trunc (of_int pause_available * (12/10)));
         resume_available = max (pause_available + 256 * MIB) (py_trunc (of_int pause_available * (14/10)))
     in \<lparr>warning_available_bytes = (if is_auto then warning_available else cfg_warning_available_mb cfg * MIB),
         pause_available_bytes = pause_available,
         resume_available_bytes = (if is_auto then resume_available else cfg_resume_available_mb cfg * MIB),
         warning_swap_free_ratio = cfg_warning_swap_free_ratio cfg,
         pause_swap_free_ratio = cfg_pause_swap_free_ratio cfg,
         critical_swap_free_ratio = cfg_critical_swap_free_ratio cfg,
         swap_activity_limit = cfg_swap_activity_mb_per_minute cfg * of_int MIB / 60,
         resume_swap_free_ratio = cfg_resume_swap_free_ratio cfg,
         pause_memory_psi = cfg_pause_memory_psi cfg,
         pause_io_psi = cfg_pause_io_psi cfg,
         resume_memory_psi = cfg_resume_memory_psi cfg,
         resume_io_psi = cfg_resume_io_psi cfg,
         pause_samples = max 1 (cfg_pause_samples cfg),
         failure_samples = max 1 (cfg_failure_samples cfg),
         resume_seconds = max 0 (cfg_resume_seconds cfg),
         memory_reserve_mode = (if is_auto then ''auto'' else ''fixed''),
         memory_reserve_ratio = (if is_auto then Some (cfg_reserve_ratio cfg) else None),
         memory_reserve_min_bytes = (if is_auto then Some reserve_min else None),
         memory_reserve_max_bytes = (if is_auto then Some reserve_max else None),
         detected_memory_total_bytes = detected_total\<rparr>)"

section \<open>Work profiles\<close>

record resource_profile =
  profile_name :: string
  memory_reservation_bytes :: int
  base_slice_seconds :: "rat option"
  base_work_units :: int

definition profile :: "string \<Rightarrow> int \<Rightarrow> rat option \<Rightarrow> int \<Rightarrow> resource_profile" where
  "profile n m s u =
    \<lparr>profile_name = n, memory_reservation_bytes = m, base_slice_seconds = s, base_work_units = u\<rparr>"

definition RESOURCE_PROFILES :: "(string, resource_profile) dict" where
  "RESOURCE_PROFILES =
    [(''light'', profile ''light'' 0 (Some 30) 100),
     (''download_network'', profile ''download_network'' (128 * MIB) None 1),
     (''import_db'', profile ''import_db'' (96 * MIB) (Some 20) 25),
     (''image_derive'', profile ''image_derive'' (256 * MIB) (Some 20) 1),
     (''video_derive'', profile ''video_derive'' (384 * MIB) (Some 20) 1),
     (''search_index'', profile ''search_index'' (192 * MIB) (Some 20) 2000),
     (''git_projection'', profile ''git_projection'' (128 * MIB) (Some 20) 1),
     (''maintenance'', profile ''maintenance'' (256 * MIB) (Some 20) 1)]"

definition RESOURCE_PROFILE_ALIASES :: "(string, string) dict" where
  "RESOURCE_PROFILE_ALIASES =
    [(''download'', ''download_network''), (''downloads'', ''download_network''),
     (''import'', ''import_db''), (''imports'', ''import_db''), (''import-projection'', ''import_db''),
     (''media'', ''video_derive''), (''image'', ''image_derive''), (''video'', ''video_derive''),
     (''search'', ''search_index''), (''meili'', ''search_index''),
     (''git'', ''git_projection''), (''gitllery'', ''git_projection''),
     (''operations'', ''maintenance''), (''backup'', ''maintenance''), (''sqlite'', ''maintenance''),
     (''vacuum'', ''maintenance''), (''dedup'', ''image_derive'')]"

definition workload_profile_name :: "string option \<Rightarrow> string" where
  "workload_profile_name workload =
    (let w = (case workload of Some (c # cs) \<Rightarrow> c # cs | _ \<Rightarrow> ''light'');
         normalized = replace_char (CHR ''_'') (CHR ''-'') (py_lower (py_strip w))
     in case map_of RESOURCE_PROFILE_ALIASES normalized of
          Some direct \<Rightarrow> direct
        | None \<Rightarrow>
            if startswith normalized ''download'' then ''download_network''
            else if startswith normalized ''import'' then ''import_db''
            else if str_in ''media-derivative'' normalized \<or> str_in ''media-derive'' normalized then ''video_derive''
            else if str_in ''image'' normalized \<or> str_in ''asset-dedup'' normalized then ''image_derive''
            else if str_in ''video'' normalized \<or> str_in ''ffmpeg'' normalized then ''video_derive''
            else if startswith normalized ''search'' \<or> str_in ''meili'' normalized then ''search_index''
            else if str_in ''gitllery-projection'' normalized \<or> startswith normalized ''git-projection''
            then ''git_projection''
            else if str_in ''operation:gitllery'' normalized then ''maintenance''
            else if str_in ''gitllery'' normalized \<or> startswith normalized ''git'' then ''git_projection''
            else if startswith normalized ''backup'' \<or> startswith normalized ''sqlite''
                 \<or> str_in ''vacuum'' normalized \<or> startswith normalized ''operation''
            then ''maintenance''
            else if normalized \<in> {''light'', ''scheduled'', ''default''} then ''light''
            else ''maintenance'')"

definition configured_enforced_profiles :: "resource_settings \<Rightarrow> string list option" where
  "configured_enforced_profiles cfg =
    (let raw = py_strip (cfg_enforced_profiles cfg)
     in if raw = [] then None
        else Some (map (\<lambda>v. workload_profile_name (Some v))
               (filter (\<lambda>v. py_strip v \<noteq> []) (split_on (CHR '','') raw))))"

definition profile_soft_budget_enforced :: "resource_settings \<Rightarrow> string \<Rightarrow> bool" where
  "profile_soft_budget_enforced cfg name =
    (if py_lower (py_strip (cfg_governance_mode cfg)) \<noteq> ''enforce'' then False
     else case configured_enforced_profiles cfg of None \<Rightarrow> True | Some ps \<Rightarrow> name \<in> set ps)"

section \<open>The state machine\<close>

datatype controller_mode = Normal | Constrained | Critical

definition legacy_status :: "controller_mode \<Rightarrow> string" where
  "legacy_status m = (case m of Normal \<Rightarrow> ''normal'' | Constrained \<Rightarrow> ''warning'' | Critical \<Rightarrow> ''paused'')"

record pressure_state =
  controller_mode :: controller_mode
  legacy :: string
  reasons :: "string list"
  throughput_scale :: rat
  generation :: int
  pause_count :: int
  failure_count :: int
  recovery_started_at :: "rat option"
  stable_since :: "rat option"
  last_increase_at :: "rat option"
  foreground_slow_count :: int
  foreground_last_generation :: "int option"
  current_sample :: "resource_sample option"
  sampled_at :: "string option"
  trigger_reasons :: "string list"
  snapshot_now :: "rat option"
  local_cgroup_max_until :: rat
  local_cgroup_oom_until :: rat
  local_cgroup_max_delta :: int
  local_cgroup_oom_delta :: int

definition initial_state :: pressure_state where
  "initial_state =
    \<lparr>controller_mode = Normal, legacy = ''normal'', reasons = [], throughput_scale = 1, generation = 0,
     pause_count = 0, failure_count = 0, recovery_started_at = None, stable_since = None,
     last_increase_at = None, foreground_slow_count = 0, foreground_last_generation = None,
     current_sample = None, sampled_at = None, trigger_reasons = [], snapshot_now = None,
     local_cgroup_max_until = 0, local_cgroup_oom_until = 0, local_cgroup_max_delta = 0,
     local_cgroup_oom_delta = 0\<rparr>"

definition set_mode :: "controller_mode \<Rightarrow> pressure_state \<Rightarrow> pressure_state" where
  "set_mode m st =
    st\<lparr>generation := (if m \<noteq> controller_mode st then generation st + 1 else generation st),
       controller_mode := m, legacy := legacy_status m\<rparr>"

definition set_scale :: "rat \<Rightarrow> pressure_state \<Rightarrow> pressure_state" where
  "set_scale v st =
    (let value = py_round (max 0 (min 1 v)) 4
     in st\<lparr>generation := (if value \<noteq> throughput_scale st then generation st + 1 else generation st),
           throughput_scale := value\<rparr>)"

definition scale_floor :: "resource_settings \<Rightarrow> rat" where
  "scale_floor cfg = max (1/100) (min 1 (cfg_budget_min_scale cfg))"

definition decrease_budget :: "resource_settings \<Rightarrow> pressure_state \<Rightarrow> pressure_state" where
  "decrease_budget cfg st =
    (let factor = max (5/100) (min (95/100) (cfg_budget_decrease_factor cfg))
     in set_scale (max (scale_floor cfg) (throughput_scale st * factor)) st)"

definition increase_budget :: "resource_settings \<Rightarrow> rat \<Rightarrow> pressure_state \<Rightarrow> pressure_state" where
  "increase_budget cfg now st =
    (let stp = max (1/1000) (min (25/100) (cfg_budget_increase_step cfg))
     in (set_scale (min 1 (max (scale_floor cfg) (throughput_scale st) + stp)) st)
          \<lparr>last_increase_at := Some now\<rparr>)"

definition recover_budget_if_stable :: "resource_settings \<Rightarrow> rat \<Rightarrow> pressure_state \<Rightarrow> pressure_state" where
  "recover_budget_if_stable cfg now st =
    (if 1 \<le> throughput_scale st
     then st\<lparr>stable_since := Some (case stable_since st of Some t \<Rightarrow> if t = 0 then now else t | None \<Rightarrow> now)\<rparr>
     else case stable_since st of
            None \<Rightarrow> st\<lparr>stable_since := Some now\<rparr>
          | Some since \<Rightarrow>
              let stable_seconds = max 1 (cfg_budget_increase_stable_seconds cfg)
              in if now - since < stable_seconds then st
                 else if (case last_increase_at st of None \<Rightarrow> False | Some l \<Rightarrow> now - l < stable_seconds) then st
                 else increase_budget cfg now st)"

definition restore_paused :: "pressure_thresholds \<Rightarrow> string list \<Rightarrow> pressure_state \<Rightarrow> pressure_state" where
  "restore_paused t given st =
    (let rs = (if given = [] then [''restored_pressure_latch''] else given)
     in (set_scale 0 (set_mode Critical st))
          \<lparr>reasons := rs, trigger_reasons := rs, pause_count := pause_samples t, failure_count := 0,
           recovery_started_at := None, stable_since := None\<rparr>)"

definition reason_if :: "bool \<Rightarrow> string \<Rightarrow> string list" where
  "reason_if b r = (if b then [r] else [])"

definition hard_reasons :: "pressure_thresholds \<Rightarrow> resource_sample \<Rightarrow> string list" where
  "hard_reasons t s =
    reason_if (memory_available_bytes s < pause_available_bytes t) ''memory_available_critical'' @
    reason_if (swap_free_ratio s < critical_swap_free_ratio t) ''swap_free_critical'' @
    reason_if (swap_free_ratio s < pause_swap_free_ratio t \<and>
               (case swap_activity s of None \<Rightarrow> False | Some a \<Rightarrow> swap_activity_limit t \<le> a) \<and>
               (case memory_available_change s of None \<Rightarrow> False | Some c \<Rightarrow> c < 0)) ''swap_activity_critical'' @
    reason_if (case cgroup_memory_oom_kill_delta s of None \<Rightarrow> False | Some d \<Rightarrow> 0 < d) ''cgroup_oom_kill''"

text \<open>\<open>x or d\<close> on an optional float: zero counts as absent.\<close>

definition rat_or :: "rat option \<Rightarrow> rat \<Rightarrow> rat" where
  "rat_or x d = (case x of None \<Rightarrow> d | Some v \<Rightarrow> if v = 0 then d else v)"

definition at_least :: "rat option \<Rightarrow> rat \<Rightarrow> bool" where
  "at_least x d = (case x of None \<Rightarrow> False | Some v \<Rightarrow> d \<le> v)"

definition soft_reasons :: "pressure_thresholds \<Rightarrow> resource_sample \<Rightarrow> string list" where
  "soft_reasons t s =
    reason_if (memory_available_bytes s < warning_available_bytes t) ''memory_available_low'' @
    reason_if (swap_free_ratio s < warning_swap_free_ratio t) ''swap_free_low'' @
    reason_if (at_least (memory_full_avg10 s) (rat_or (memory_psi_soft_trigger s) (pause_memory_psi t)))
      ''memory_psi_high'' @
    reason_if (at_least (io_full_avg10 s) (rat_or (io_psi_soft_trigger s) (pause_io_psi t))) ''io_psi_high''"

definition hard_recovered :: "pressure_thresholds \<Rightarrow> resource_sample \<Rightarrow> bool" where
  "hard_recovered t s \<longleftrightarrow>
     resume_available_bytes t \<le> memory_available_bytes s \<and> hard_reasons t s = []"

text \<open>
  The four parts of \<^verbatim>\<open>update\<close>, in the order of the code: the cgroup warnings, a missing sample,
  the foreground latency counter, and the transition on a sample.
\<close>

definition LOCAL_CGROUP_WARNING_SECONDS :: rat where
  "LOCAL_CGROUP_WARNING_SECONDS = 60"

definition note_cgroup :: "resource_sample \<Rightarrow> rat \<Rightarrow> pressure_state \<Rightarrow> pressure_state" where
  "note_cgroup s now st =
    (let max_delta = max 0 (case cgroup_memory_max_delta s of None \<Rightarrow> 0 | Some d \<Rightarrow> d);
         oom_delta = max 0 (case cgroup_memory_oom_delta s of None \<Rightarrow> 0 | Some d \<Rightarrow> d);
         st1 = (if max_delta \<noteq> 0
                then st\<lparr>local_cgroup_max_until := now + LOCAL_CGROUP_WARNING_SECONDS, local_cgroup_max_delta := max_delta\<rparr>
                else st)
     in if oom_delta \<noteq> 0
        then st1\<lparr>local_cgroup_oom_until := now + LOCAL_CGROUP_WARNING_SECONDS, local_cgroup_oom_delta := oom_delta\<rparr>
        else st1)"

definition update_missing :: "resource_settings \<Rightarrow> pressure_thresholds \<Rightarrow> pressure_state \<Rightarrow> pressure_state" where
  "update_missing cfg t st =
    (let was_critical = (controller_mode st = Critical);
         st1 = st\<lparr>current_sample := None, failure_count := failure_count st + 1, pause_count := 0,
                  recovery_started_at := None, stable_since := None, foreground_slow_count := 0,
                  reasons := [''resource_metrics_unavailable'']\<rparr>
     in if failure_samples t \<le> failure_count st1
        then let st2 = set_scale 0 (set_mode Critical st1)
             in if was_critical then st2 else st2\<lparr>trigger_reasons := [''resource_metrics_unavailable'']\<rparr>
        else if controller_mode st1 \<noteq> Critical then decrease_budget cfg (set_mode Constrained st1)
        else st1)"

definition update_foreground :: "resource_settings \<Rightarrow> resource_sample \<Rightarrow> pressure_state \<Rightarrow> pressure_state" where
  "update_foreground cfg s st =
    (if foreground_sample_count s = 0 then st\<lparr>foreground_slow_count := 0\<rparr>
     else if (case foreground_last_generation st of None \<Rightarrow> True | Some g \<Rightarrow> g < foreground_sample_generation s)
     then let slow = (case foreground_p95_ms s of
                        None \<Rightarrow> False
                      | Some ms \<Rightarrow> max 30 (cfg_foreground_min_samples cfg) \<le> foreground_sample_count s \<and>
                                   cfg_foreground_p95_limit_ms cfg < ms)
          in st\<lparr>foreground_last_generation := Some (foreground_sample_generation s),
                foreground_slow_count := (if slow then foreground_slow_count st + 1 else 0)\<rparr>
     else st)"

definition foreground_slow :: "resource_settings \<Rightarrow> pressure_state \<Rightarrow> bool" where
  "foreground_slow cfg st \<longleftrightarrow> max 3 (cfg_foreground_slow_samples cfg) \<le> foreground_slow_count st"

definition update_critical ::
  "resource_settings \<Rightarrow> pressure_thresholds \<Rightarrow> resource_sample \<Rightarrow> string list \<Rightarrow> string list \<Rightarrow> rat
   \<Rightarrow> pressure_state \<Rightarrow> pressure_state" where
  "update_critical cfg t s hard soft now st0 =
    (let st = set_scale 0 st0
     in if hard \<noteq> [] then st\<lparr>recovery_started_at := None, stable_since := None, reasons := hard\<rparr>
        else if \<not> hard_recovered t s
        then st\<lparr>recovery_started_at := None,
                reasons := (if soft \<noteq> [] then soft else [''recovery_threshold_not_met''])\<rparr>
        else
          let since = (case recovery_started_at st of None \<Rightarrow> now | Some r \<Rightarrow> r);
              st1 = st\<lparr>recovery_started_at := Some since\<rparr>
          in if now - since < resume_seconds t
             then st1\<lparr>reasons := ''recovery_stabilizing'' # soft\<rparr>
             else
               let st2 = (set_mode (if soft \<noteq> [] then Constrained else Normal)
                            (st1\<lparr>pause_count := 0, recovery_started_at := None\<rparr>))
                           \<lparr>reasons := soft, trigger_reasons := []\<rparr>
               in if soft \<noteq> [] then decrease_budget cfg (st2\<lparr>stable_since := None\<rparr>)
                  else (set_scale (scale_floor cfg) st2)\<lparr>stable_since := Some now, last_increase_at := Some now\<rparr>)"

definition update_hard ::
  "resource_settings \<Rightarrow> pressure_thresholds \<Rightarrow> string list \<Rightarrow> pressure_state \<Rightarrow> pressure_state" where
  "update_hard cfg t hard st =
    (let count = (if ''cgroup_oom_kill'' \<in> set hard then pause_samples t else pause_count st + 1);
         st1 = st\<lparr>stable_since := None, pause_count := count, reasons := hard\<rparr>
     in if pause_samples t \<le> count
        then (set_scale 0 (set_mode Critical st1))\<lparr>trigger_reasons := hard\<rparr>
        else decrease_budget cfg (set_mode Constrained st1))"

definition update_soft ::
  "resource_settings \<Rightarrow> string list \<Rightarrow> rat \<Rightarrow> pressure_state \<Rightarrow> pressure_state" where
  "update_soft cfg soft now st =
    (let st1 = st\<lparr>pause_count := 0, recovery_started_at := None, trigger_reasons := []\<rparr>
     in if soft \<noteq> []
        then decrease_budget cfg ((set_mode Constrained (st1\<lparr>stable_since := None\<rparr>))\<lparr>reasons := soft\<rparr>)
        else recover_budget_if_stable cfg now ((set_mode Normal st1)\<lparr>reasons := []\<rparr>))"

definition update_sample ::
  "resource_settings \<Rightarrow> pressure_thresholds \<Rightarrow> resource_sample \<Rightarrow> rat \<Rightarrow> pressure_state \<Rightarrow> pressure_state" where
  "update_sample cfg t s now st =
    (let hard = hard_reasons t s;
         st1 = update_foreground cfg s st;
         soft = soft_reasons t s @ reason_if (foreground_slow cfg st1) ''foreground_latency_high''
     in if controller_mode st1 = Critical then update_critical cfg t s hard soft now st1
        else if hard \<noteq> [] then update_hard cfg t hard st1
        else update_soft cfg soft now st1)"

definition start_update :: "rat \<Rightarrow> string \<Rightarrow> pressure_state \<Rightarrow> pressure_state" where
  "start_update now now_iso st = st\<lparr>snapshot_now := Some now, sampled_at := Some now_iso\<rparr>"

definition accept_sample :: "resource_sample \<Rightarrow> pressure_state \<Rightarrow> pressure_state" where
  "accept_sample s st =
    st\<lparr>current_sample := Some s,
       sampled_at := (case sample_time s of Some (c # cs) \<Rightarrow> Some (c # cs) | _ \<Rightarrow> sampled_at st),
       failure_count := 0\<rparr>"

definition update ::
  "resource_settings \<Rightarrow> pressure_thresholds \<Rightarrow> resource_sample option \<Rightarrow> rat \<Rightarrow> string
   \<Rightarrow> pressure_state \<Rightarrow> pressure_state" where
  "update cfg t sample now now_iso st =
    (let st1 = start_update now now_iso st
     in case sample of
          None \<Rightarrow> update_missing cfg t st1
        | Some s \<Rightarrow> update_sample cfg t s now (accept_sample s (note_cgroup s now st1)))"

section \<open>What a snapshot reports\<close>

definition snapshot_reasons :: "pressure_thresholds \<Rightarrow> pressure_state \<Rightarrow> string list \<times> string list" where
  "snapshot_reasons t st =
    (case current_sample st of
       Some s \<Rightarrow>
         (hard_reasons t s,
          soft_reasons t s @ reason_if (''foreground_latency_high'' \<in> set (reasons st)) ''foreground_latency_high'')
     | None \<Rightarrow>
         if reasons st = [''resource_metrics_unavailable'']
         then if controller_mode st = Critical then ([''resource_metrics_unavailable''], [])
              else ([], [''resource_metrics_unavailable''])
         else ([], []))"

definition governance_mode :: "resource_settings \<Rightarrow> string" where
  "governance_mode cfg = (if py_lower (cfg_governance_mode cfg) = ''shadow'' then ''shadow'' else ''enforce'')"

definition capped_scale :: "resource_settings \<Rightarrow> pressure_state \<Rightarrow> rat" where
  "capped_scale cfg st = min (throughput_scale st) (max (1/100) (min 1 (cfg_governance_max_scale cfg)))"

definition snapshot_scale :: "resource_settings \<Rightarrow> pressure_state \<Rightarrow> rat" where
  "snapshot_scale cfg st =
    (if controller_mode st = Critical then 0
     else if governance_mode cfg = ''shadow'' then 1
     else capped_scale cfg st)"

definition snapshot_rates :: "resource_settings \<Rightarrow> pressure_state \<Rightarrow> int \<times> int" where
  "snapshot_rates cfg st =
    (py_trunc (cfg_base_read_mb_per_second cfg * of_int MIB * snapshot_scale cfg st),
     py_trunc (cfg_base_write_mb_per_second cfg * of_int MIB * snapshot_scale cfg st))"

definition recovery_remaining :: "pressure_thresholds \<Rightarrow> rat \<Rightarrow> pressure_state \<Rightarrow> rat" where
  "recovery_remaining t clock st =
    (case recovery_started_at st of
       Some r \<Rightarrow>
         if controller_mode st = Critical
         then let now = (case snapshot_now st of None \<Rightarrow> clock | Some n \<Rightarrow> n)
              in py_round (max 0 (resume_seconds t - (now - r))) 3
         else 0
     | None \<Rightarrow> 0)"

definition local_cgroup_warnings :: "rat \<Rightarrow> pressure_state \<Rightarrow> string list \<times> int \<times> int" where
  "local_cgroup_warnings clock st =
    (let now = (case snapshot_now st of None \<Rightarrow> clock | Some n \<Rightarrow> n)
     in (reason_if (now < local_cgroup_max_until st) ''cgroup_memory_max'' @
         reason_if (now < local_cgroup_oom_until st) ''cgroup_memory_oom'',
         if now < local_cgroup_max_until st then local_cgroup_max_delta st else 0,
         if now < local_cgroup_oom_until st then local_cgroup_oom_delta st else 0))"

text \<open>The grant of one profile.\<close>

record profile_budget =
  pb_allowed :: bool
  pb_soft_enforced :: bool
  pb_reason :: "string option"
  pb_grant :: string
  pb_token_scope :: string
  pb_memory_reservation :: int
  pb_reservation_capacity :: int
  pb_slice_seconds :: "rat option"
  pb_work_units :: int

definition profile_decision :: "pressure_thresholds \<Rightarrow> resource_profile \<Rightarrow> pressure_state \<Rightarrow> bool \<times> string option" where
  "profile_decision t p st =
    (if profile_name p = ''light'' then (True, None)
     else if controller_mode st = Critical then (False, Some ''controller_critical'')
     else case current_sample st of
            None \<Rightarrow> (False, Some ''resource_metrics_unavailable'')
          | Some s \<Rightarrow>
              if memory_available_bytes s - memory_reservation_bytes p < pause_available_bytes t
              then (False, Some ''profile_memory_reserve'') else (True, None))"

definition token_scope :: "string \<Rightarrow> string" where
  "token_scope name =
    (if name = ''light'' then ''none'' else if name = ''download_network'' then ''network''
     else if name = ''maintenance'' then ''maintenance'' else if name = ''import_db'' then ''ingest''
     else ''background'')"

definition profile_scale :: "resource_settings \<Rightarrow> resource_profile \<Rightarrow> pressure_state \<Rightarrow> rat" where
  "profile_scale cfg p st =
    (if controller_mode st = Critical then 0
     else if \<not> profile_soft_budget_enforced cfg (profile_name p) then 1
     else capped_scale cfg st)"

definition profile_budget_of ::
  "resource_settings \<Rightarrow> pressure_thresholds \<Rightarrow> resource_profile \<Rightarrow> pressure_state \<Rightarrow> profile_budget" where
  "profile_budget_of cfg t p st =
    (case profile_decision t p st of
       (allowed, reason) \<Rightarrow>
         let scale = (if allowed then profile_scale cfg p st else 0)
         in \<lparr>pb_allowed = allowed,
             pb_soft_enforced = profile_soft_budget_enforced cfg (profile_name p),
             pb_reason = reason,
             pb_grant = (if allowed then ''eligible'' else ''denied''),
             pb_token_scope = token_scope (profile_name p),
             pb_memory_reservation = memory_reservation_bytes p,
             pb_reservation_capacity =
               (case current_sample st of
                  None \<Rightarrow> 0 | Some s \<Rightarrow> max 0 (memory_available_bytes s - pause_available_bytes t)),
             pb_slice_seconds =
               map_option (\<lambda>b. py_round (b * max (1/10) scale) 2) (base_slice_seconds p),
             pb_work_units = max 1 (py_trunc (of_int (base_work_units p) * max (1/10) scale))\<rparr>)"

definition snapshot_budgets ::
  "resource_settings \<Rightarrow> pressure_thresholds \<Rightarrow> pressure_state \<Rightarrow> (string, profile_budget) dict" where
  "snapshot_budgets cfg t st =
    map (\<lambda>(name, p). (name, profile_budget_of cfg t p st)) RESOURCE_PROFILES"

lemma workload_profile_known: "dict_has RESOURCE_PROFILES (workload_profile_name workload)"
proof -
  have from_alias: "map_of RESOURCE_PROFILE_ALIASES k = Some v \<Longrightarrow> dict_has RESOURCE_PROFILES v" for k v
  proof -
    assume "map_of RESOURCE_PROFILE_ALIASES k = Some v"
    then have "v \<in> set (map snd RESOURCE_PROFILE_ALIASES)" by (force dest: map_of_SomeD)
    moreover have "list_all (dict_has RESOURCE_PROFILES) (map snd RESOURCE_PROFILE_ALIASES)"
      by (simp add: RESOURCE_PROFILE_ALIASES_def RESOURCE_PROFILES_def dict_has_def)
    ultimately show ?thesis unfolding list_all_iff by blast
  qed
  have fixed: "dict_has RESOURCE_PROFILES ''download_network''" "dict_has RESOURCE_PROFILES ''import_db''"
    "dict_has RESOURCE_PROFILES ''video_derive''" "dict_has RESOURCE_PROFILES ''image_derive''"
    "dict_has RESOURCE_PROFILES ''search_index''" "dict_has RESOURCE_PROFILES ''git_projection''"
    "dict_has RESOURCE_PROFILES ''maintenance''" "dict_has RESOURCE_PROFILES ''light''"
    by (simp_all add: RESOURCE_PROFILES_def dict_has_def)
  show ?thesis
    unfolding workload_profile_name_def Let_def
    by (intro option.split [where P = "dict_has RESOURCE_PROFILES", THEN iffD2] conjI impI allI)
       (simp_all only: fixed from_alias if_split simp_thms)
qed

end
