(* ===== verification/Pressure_Properties.thy ===== *)
theory Pressure_Properties
  imports Pressure_State
begin

text \<open>
  Properties of the pressure controller: its invariant, when it may enter and leave the critical
  mode along a sequence of observations, that it fails closed, and what its grants guarantee.
\<close>

section \<open>One step\<close>

text \<open>The range of the scale outside critical mode.\<close>

definition scale_on :: "rat \<Rightarrow> bool" where
  "scale_on x \<longleftrightarrow> 1/100 \<le> x \<and> x \<le> 1"

lemma set_scale_on:
  assumes "1/100 \<le> v"
  shows "scale_on (throughput_scale (set_scale v st))"
proof -
  have "py_round (1/100) 4 = 1/100" by (rule py_round_fix [of _ _ 100]) simp
  moreover have "py_round 1 4 = 1" by (rule py_round_fix [of _ _ 10000]) simp
  moreover have "1/100 \<le> max 0 (min 1 v)" "max 0 (min 1 v) \<le> 1" using assms by auto
  ultimately have "1/100 \<le> py_round (max 0 (min 1 v)) 4" "py_round (max 0 (min 1 v)) 4 \<le> 1"
    by (metis py_round_mono)+
  moreover have "throughput_scale (set_scale v st) = py_round (max 0 (min 1 v)) 4"
    by (simp add: set_scale_def Let_def)
  ultimately show ?thesis unfolding scale_on_def by metis
qed

lemma set_scale_zero [simp]: "throughput_scale (set_scale 0 st) = 0"
  by (simp add: set_scale_def Let_def py_round_def round_half_even_def)

lemma set_scale_fields [simp]:
  "controller_mode (set_scale v st) = controller_mode st" "legacy (set_scale v st) = legacy st"
  "pause_count (set_scale v st) = pause_count st" "failure_count (set_scale v st) = failure_count st"
  "recovery_started_at (set_scale v st) = recovery_started_at st"
  "current_sample (set_scale v st) = current_sample st"
  by (simp_all add: set_scale_def Let_def)

lemma set_mode_fields [simp]:
  "controller_mode (set_mode m st) = m" "legacy (set_mode m st) = legacy_status m"
  "pause_count (set_mode m st) = pause_count st" "failure_count (set_mode m st) = failure_count st"
  "throughput_scale (set_mode m st) = throughput_scale st"
  "recovery_started_at (set_mode m st) = recovery_started_at st"
  "current_sample (set_mode m st) = current_sample st"
  by (simp_all add: set_mode_def)

lemma scale_floor_ge: "1/100 \<le> scale_floor cfg"
  by (simp add: scale_floor_def)

lemma decrease_budget_on [simp]: "scale_on (throughput_scale (decrease_budget cfg st))"
  unfolding decrease_budget_def Let_def by (rule set_scale_on) (rule max.coboundedI1 [OF scale_floor_ge])

lemma set_scale_floor_on [simp]: "scale_on (throughput_scale (set_scale (scale_floor cfg) st))"
  by (rule set_scale_on [OF scale_floor_ge])

lemma decrease_budget_fields [simp]:
  "controller_mode (decrease_budget cfg st) = controller_mode st"
  "legacy (decrease_budget cfg st) = legacy st"
  "pause_count (decrease_budget cfg st) = pause_count st"
  "failure_count (decrease_budget cfg st) = failure_count st"
  "recovery_started_at (decrease_budget cfg st) = recovery_started_at st"
  by (simp_all add: decrease_budget_def Let_def)

lemma recover_budget_fields [simp]:
  "controller_mode (recover_budget_if_stable cfg now st) = controller_mode st"
  "legacy (recover_budget_if_stable cfg now st) = legacy st"
  "pause_count (recover_budget_if_stable cfg now st) = pause_count st"
  "failure_count (recover_budget_if_stable cfg now st) = failure_count st"
  "recovery_started_at (recover_budget_if_stable cfg now st) = recovery_started_at st"
  by (simp_all add: recover_budget_if_stable_def increase_budget_def Let_def split: option.splits)

lemma recover_budget_on [simp]:
  assumes "scale_on (throughput_scale st)"
  shows "scale_on (throughput_scale (recover_budget_if_stable cfg now st))"
proof -
  let ?stp = "max (1/1000) (min (25/100) (cfg_budget_increase_step cfg))"
  have "0 \<le> ?stp" by (rule max.coboundedI1) simp
  with scale_floor_ge [of cfg] have "1/100 \<le> max (scale_floor cfg) (throughput_scale st) + ?stp"
    by (meson add_increasing2 max.coboundedI1)
  then have "1/100 \<le> min 1 (max (scale_floor cfg) (throughput_scale st) + ?stp)" by simp
  from set_scale_on [OF this, of st] assms show ?thesis
    unfolding recover_budget_if_stable_def increase_budget_def Let_def by (simp split: option.splits)
qed

text \<open>
  The invariant: the legacy status mirrors the mode, the scale is 0 exactly in critical mode and
  at least one percent outside it, and outside critical mode the two counters are below their
  limits and no recovery is under way.
\<close>

definition pressure_inv :: "pressure_thresholds \<Rightarrow> pressure_state \<Rightarrow> bool" where
  "pressure_inv t st \<longleftrightarrow>
     legacy st = legacy_status (controller_mode st) \<and> 0 \<le> pause_count st \<and> 0 \<le> failure_count st \<and>
     (if controller_mode st = Critical then throughput_scale st = 0
      else scale_on (throughput_scale st) \<and>
           pause_count st < pause_samples t \<and> failure_count st < failure_samples t \<and>
           recovery_started_at st = None)"

definition thresholds_ok :: "pressure_thresholds \<Rightarrow> bool" where
  "thresholds_ok t \<longleftrightarrow> 1 \<le> pause_samples t \<and> 1 \<le> failure_samples t"

lemma thresholds_from_settings_ok: "thresholds_ok (thresholds_from_settings cfg detected memory_total)"
  by (simp add: thresholds_ok_def thresholds_from_settings_def Let_def)

lemma inv_initial: "thresholds_ok t \<Longrightarrow> pressure_inv t initial_state"
  by (simp add: pressure_inv_def initial_state_def thresholds_ok_def legacy_status_def scale_on_def)

lemma inv_restore: "thresholds_ok t \<Longrightarrow> pressure_inv t (restore_paused t rs st)"
  by (simp add: pressure_inv_def restore_paused_def Let_def thresholds_ok_def)

lemma inv_missing: "thresholds_ok t \<Longrightarrow> pressure_inv t st \<Longrightarrow> pressure_inv t (update_missing cfg t st)"
  by (auto simp: pressure_inv_def update_missing_def Let_def thresholds_ok_def)

lemma update_foreground_fields [simp]:
  "controller_mode (update_foreground cfg s st) = controller_mode st"
  "legacy (update_foreground cfg s st) = legacy st"
  "pause_count (update_foreground cfg s st) = pause_count st"
  "failure_count (update_foreground cfg s st) = failure_count st"
  "throughput_scale (update_foreground cfg s st) = throughput_scale st"
  "recovery_started_at (update_foreground cfg s st) = recovery_started_at st"
  by (simp_all add: update_foreground_def Let_def)

lemma note_cgroup_fields [simp]:
  "controller_mode (note_cgroup s now st) = controller_mode st"
  "legacy (note_cgroup s now st) = legacy st"
  "pause_count (note_cgroup s now st) = pause_count st"
  "failure_count (note_cgroup s now st) = failure_count st"
  "throughput_scale (note_cgroup s now st) = throughput_scale st"
  "recovery_started_at (note_cgroup s now st) = recovery_started_at st"
  by (simp_all add: note_cgroup_def Let_def)

lemma accept_sample_fields [simp]:
  "controller_mode (accept_sample s st) = controller_mode st"
  "legacy (accept_sample s st) = legacy st"
  "pause_count (accept_sample s st) = pause_count st"
  "failure_count (accept_sample s st) = 0"
  "throughput_scale (accept_sample s st) = throughput_scale st"
  "recovery_started_at (accept_sample s st) = recovery_started_at st"
  by (simp_all add: accept_sample_def)

lemma start_update_fields [simp]:
  "controller_mode (start_update now stamp st) = controller_mode st"
  "legacy (start_update now stamp st) = legacy st"
  "pause_count (start_update now stamp st) = pause_count st"
  "failure_count (start_update now stamp st) = failure_count st"
  "throughput_scale (start_update now stamp st) = throughput_scale st"
  "recovery_started_at (start_update now stamp st) = recovery_started_at st"
  by (simp_all add: start_update_def)

lemma inv_critical:
  assumes "thresholds_ok t" "pressure_inv t st" "controller_mode st = Critical" "failure_count st = 0"
  shows "pressure_inv t (update_critical cfg t s hard soft now st)"
  using assms
  by (auto simp: pressure_inv_def update_critical_def Let_def thresholds_ok_def split: option.splits)

lemma inv_hard:
  assumes "thresholds_ok t" "pressure_inv t st" "controller_mode st \<noteq> Critical"
  shows "pressure_inv t (update_hard cfg t hard st)"
  using assms by (auto simp: pressure_inv_def update_hard_def Let_def thresholds_ok_def)

lemma inv_soft:
  assumes "thresholds_ok t" "pressure_inv t st" "controller_mode st \<noteq> Critical"
  shows "pressure_inv t (update_soft cfg soft now st)"
  using assms
  by (auto simp: pressure_inv_def update_soft_def Let_def thresholds_ok_def)

text \<open>The state on which the transition is taken when there is a sample.\<close>

definition sampled_state :: "resource_settings \<Rightarrow> resource_sample \<Rightarrow> rat \<Rightarrow> string \<Rightarrow> pressure_state \<Rightarrow> pressure_state" where
  "sampled_state cfg s now stamp st =
     update_foreground cfg s (accept_sample s (note_cgroup s now (start_update now stamp st)))"

definition all_soft :: "resource_settings \<Rightarrow> pressure_thresholds \<Rightarrow> resource_sample \<Rightarrow> pressure_state \<Rightarrow> string list" where
  "all_soft cfg t s st1 = soft_reasons t s @ reason_if (foreground_slow cfg st1) ''foreground_latency_high''"

lemma sampled_state_fields [simp]:
  "controller_mode (sampled_state cfg s now stamp st) = controller_mode st"
  "legacy (sampled_state cfg s now stamp st) = legacy st"
  "pause_count (sampled_state cfg s now stamp st) = pause_count st"
  "failure_count (sampled_state cfg s now stamp st) = 0"
  "throughput_scale (sampled_state cfg s now stamp st) = throughput_scale st"
  "recovery_started_at (sampled_state cfg s now stamp st) = recovery_started_at st"
  by (simp_all add: sampled_state_def)

lemma update_cases:
  "update cfg t None now stamp st = update_missing cfg t (start_update now stamp st)"
  "controller_mode st = Critical \<Longrightarrow>
     update cfg t (Some s) now stamp st =
     (let st1 = sampled_state cfg s now stamp st
      in update_critical cfg t s (hard_reasons t s) (all_soft cfg t s st1) now st1)"
  "controller_mode st \<noteq> Critical \<Longrightarrow> hard_reasons t s \<noteq> [] \<Longrightarrow>
     update cfg t (Some s) now stamp st = update_hard cfg t (hard_reasons t s) (sampled_state cfg s now stamp st)"
  "controller_mode st \<noteq> Critical \<Longrightarrow> hard_reasons t s = [] \<Longrightarrow>
     update cfg t (Some s) now stamp st =
     (let st1 = sampled_state cfg s now stamp st in update_soft cfg (all_soft cfg t s st1) now st1)"
  by (simp_all add: update_def update_sample_def Let_def sampled_state_def all_soft_def)

lemma inv_sampled:
  "thresholds_ok t \<Longrightarrow> pressure_inv t st \<Longrightarrow> pressure_inv t (sampled_state cfg s now stamp st)"
  by (auto simp: pressure_inv_def thresholds_ok_def)

lemma inv_update:
  assumes ok: "thresholds_ok t" and inv: "pressure_inv t st"
  shows "pressure_inv t (update cfg t sample now stamp st)"
proof (cases sample)
  case None
  have "pressure_inv t (start_update now stamp st)" using inv by (simp add: pressure_inv_def)
  with None show ?thesis by (simp add: update_cases inv_missing [OF ok])
next
  case (Some s)
  note inv1 = inv_sampled [OF ok inv, of cfg s now stamp]
  consider "controller_mode st = Critical" | "controller_mode st \<noteq> Critical" "hard_reasons t s \<noteq> []"
    | "controller_mode st \<noteq> Critical" "hard_reasons t s = []" by blast
  then show ?thesis
    using inv_critical [OF ok inv1] inv_hard [OF ok inv1] inv_soft [OF ok inv1] Some
    by cases (simp_all add: update_cases Let_def)
qed

section \<open>Sequences of observations\<close>

text \<open>One call of \<^verbatim>\<open>update\<close>: the sample or its absence, the clock, and the wall time as text.\<close>

type_synonym observation = "resource_sample option \<times> rat \<times> string"

definition observe_one :: "resource_settings \<Rightarrow> pressure_thresholds \<Rightarrow> observation \<Rightarrow> pressure_state \<Rightarrow> pressure_state" where
  "observe_one cfg t ob st = (case ob of (sample, now, stamp) \<Rightarrow> update cfg t sample now stamp st)"

definition observe :: "resource_settings \<Rightarrow> pressure_thresholds \<Rightarrow> observation list \<Rightarrow> pressure_state \<Rightarrow> pressure_state" where
  "observe cfg t obs st = foldl (\<lambda>st ob. observe_one cfg t ob st) st obs"

definition obs_now :: "observation \<Rightarrow> rat" where
  "obs_now ob = fst (snd ob)"

definition missing_obs :: "observation \<Rightarrow> bool" where
  "missing_obs ob \<longleftrightarrow> fst ob = None"

definition hard_obs :: "pressure_thresholds \<Rightarrow> observation \<Rightarrow> bool" where
  "hard_obs t ob \<longleftrightarrow> (case fst ob of None \<Rightarrow> False | Some s \<Rightarrow> hard_reasons t s \<noteq> [])"

definition oom_obs :: "pressure_thresholds \<Rightarrow> observation \<Rightarrow> bool" where
  "oom_obs t ob \<longleftrightarrow> (case fst ob of None \<Rightarrow> False | Some s \<Rightarrow> ''cgroup_oom_kill'' \<in> set (hard_reasons t s))"

definition recovered_obs :: "pressure_thresholds \<Rightarrow> observation \<Rightarrow> bool" where
  "recovered_obs t ob \<longleftrightarrow> (case fst ob of None \<Rightarrow> False | Some s \<Rightarrow> hard_recovered t s)"

text \<open>The last \<open>n\<close> elements of the list satisfy \<open>P\<close>.\<close>

definition ends_with :: "('a \<Rightarrow> bool) \<Rightarrow> nat \<Rightarrow> 'a list \<Rightarrow> bool" where
  "ends_with P n xs \<longleftrightarrow> n \<le> length xs \<and> (\<forall>x \<in> set (drop (length xs - n) xs). P x)"

lemma ends_with_0 [simp]: "ends_with P 0 xs"
  by (simp add: ends_with_def)

lemma ends_with_snoc: "ends_with P n xs \<Longrightarrow> P x \<Longrightarrow> ends_with P (Suc n) (xs @ [x])"
  by (auto simp: ends_with_def)

lemma ends_with_snoc_int:
  "0 \<le> i \<Longrightarrow> ends_with P (nat i) xs \<Longrightarrow> P x \<Longrightarrow> ends_with P (nat (i + 1)) (xs @ [x])"
  by (simp add: Suc_nat_eq_nat_zadd1 ends_with_snoc add.commute flip: Suc_nat_eq_nat_zadd1)

lemma ends_with_le: "ends_with P n xs \<Longrightarrow> m \<le> n \<Longrightarrow> ends_with P m xs"
  using set_drop_subset_set_drop [of "length xs - n" "length xs - m" xs] diff_le_mono2 [of m n "length xs"]
  by (auto simp: ends_with_def)

lemma observe_simps [simp]:
  "observe cfg t [] st = st"
  "observe cfg t (obs @ [ob]) st = observe_one cfg t ob (observe cfg t obs st)"
  "observe cfg t (ob # obs) st = observe cfg t obs (observe_one cfg t ob st)"
  by (simp_all add: observe_def)

lemma inv_observe_one: "thresholds_ok t \<Longrightarrow> pressure_inv t st \<Longrightarrow> pressure_inv t (observe_one cfg t ob st)"
  by (simp add: observe_one_def inv_update split: prod.splits)

lemma inv_observe: "thresholds_ok t \<Longrightarrow> pressure_inv t st \<Longrightarrow> pressure_inv t (observe cfg t obs st)"
  by (induction obs rule: rev_induct) (simp_all add: inv_observe_one)

lemmas obs_defs = missing_obs_def hard_obs_def oom_obs_def recovered_obs_def obs_now_def

lemma failure_count_step:
  "failure_count (observe_one cfg t ob st) = (if missing_obs ob then failure_count st + 1 else 0)"
proof (cases "fst ob")
  case None
  then show ?thesis
    by (cases ob) (simp add: observe_one_def update_cases update_missing_def missing_obs_def Let_def)
next
  case (Some s)
  then show ?thesis
    by (cases ob; cases "controller_mode st = Critical"; cases "hard_reasons t s = []")
       (simp_all add: observe_one_def update_cases Let_def missing_obs_def update_hard_def update_soft_def
         update_critical_def split: option.splits)
qed

lemma pause_count_step:
  assumes "controller_mode (observe_one cfg t ob st) \<noteq> Critical"
  shows "pause_count (observe_one cfg t ob st) = 0 \<or>
    controller_mode st \<noteq> Critical \<and> hard_obs t ob \<and> pause_count (observe_one cfg t ob st) = pause_count st + 1"
proof (cases "fst ob")
  case None
  then show ?thesis
    by (cases ob) (simp add: observe_one_def update_cases update_missing_def Let_def)
next
  case (Some s)
  then show ?thesis using assms
    by (cases ob; cases "controller_mode st = Critical"; cases "hard_reasons t s = []")
       (auto simp: observe_one_def update_cases Let_def hard_obs_def update_hard_def update_soft_def
         update_critical_def split: option.splits if_splits)
qed

lemma counts_observed:
  assumes ok: "thresholds_ok t"
  shows "ends_with missing_obs (nat (failure_count (observe cfg t obs initial_state))) obs \<and>
    (controller_mode (observe cfg t obs initial_state) \<noteq> Critical \<longrightarrow>
     ends_with (hard_obs t) (nat (pause_count (observe cfg t obs initial_state))) obs)"
proof (induction obs rule: rev_induct)
  case Nil
  then show ?case by (simp add: initial_state_def)
next
  case (snoc ob obs)
  let ?st = "observe cfg t obs initial_state"
  have inv: "pressure_inv t ?st" by (rule inv_observe [OF ok inv_initial [OF ok]])
  then have nonneg: "0 \<le> failure_count ?st" "0 \<le> pause_count ?st" by (auto simp: pressure_inv_def)
  have "ends_with missing_obs (nat (failure_count (observe_one cfg t ob ?st))) (obs @ [ob])"
    using snoc nonneg by (simp add: failure_count_step ends_with_snoc_int)
  moreover have "ends_with (hard_obs t) (nat (pause_count (observe_one cfg t ob ?st))) (obs @ [ob])"
    if "controller_mode (observe_one cfg t ob ?st) \<noteq> Critical"
    using pause_count_step [OF that] snoc nonneg by (auto simp: ends_with_snoc_int)
  ultimately show ?case by simp
qed

lemma entry_step:
  assumes "controller_mode st \<noteq> Critical" "controller_mode (observe_one cfg t ob st) = Critical"
  shows "oom_obs t ob \<or> hard_obs t ob \<and> pause_samples t \<le> pause_count st + 1 \<or>
    missing_obs ob \<and> failure_samples t \<le> failure_count st + 1"
proof (cases "fst ob")
  case None
  then show ?thesis using assms
    by (cases ob) (auto simp: observe_one_def update_cases update_missing_def missing_obs_def Let_def split: if_splits)
next
  case (Some s)
  then show ?thesis using assms
    by (cases ob; cases "hard_reasons t s = []")
       (auto simp: observe_one_def update_cases Let_def obs_defs update_hard_def update_soft_def split: if_splits)
qed

lemma exit_step:
  assumes "controller_mode st = Critical" "controller_mode (observe_one cfg t ob st) \<noteq> Critical"
  shows "recovered_obs t ob \<and>
    resume_seconds t \<le> obs_now ob - (case recovery_started_at st of None \<Rightarrow> obs_now ob | Some r \<Rightarrow> r)"
proof (cases "fst ob")
  case None
  then show ?thesis using assms
    by (cases ob) (auto simp: observe_one_def update_cases update_missing_def Let_def split: if_splits)
next
  case (Some s)
  then show ?thesis using assms
    by (cases ob) (auto simp: observe_one_def update_cases Let_def obs_defs update_critical_def split: if_splits option.splits)
qed

lemma recovery_step:
  assumes "pressure_inv t st" "recovery_started_at (observe_one cfg t ob st) = Some r"
  shows "recovered_obs t ob \<and> (recovery_started_at st = Some r \<or> obs_now ob = r)"
proof (cases "fst ob")
  case None
  then show ?thesis using assms(2)
    by (cases ob) (auto simp: observe_one_def update_cases update_missing_def Let_def split: if_splits)
next
  case (Some s)
  then show ?thesis using assms
    by (cases ob; cases "controller_mode st = Critical"; cases "hard_reasons t s = []")
       (auto simp: observe_one_def update_cases Let_def obs_defs update_critical_def update_hard_def
         update_soft_def pressure_inv_def split: if_splits option.splits)
qed

lemma recovery_observed:
  assumes ok: "thresholds_ok t" and inv0: "pressure_inv t st0" and none: "recovery_started_at st0 = None"
    and r: "recovery_started_at (observe cfg t obs st0) = Some r"
  shows "\<exists>ys z zs. obs = ys @ z # zs \<and> obs_now z = r \<and> (\<forall>ob \<in> set (z # zs). recovered_obs t ob)"
  using r
proof (induction obs rule: rev_induct)
  case Nil
  with none show ?case by simp
next
  case (snoc ob obs)
  have "pressure_inv t (observe cfg t obs st0)" by (rule inv_observe [OF ok inv0])
  from recovery_step [OF this] snoc.prems
  have rec: "recovered_obs t ob" and start: "recovery_started_at (observe cfg t obs st0) = Some r \<or> obs_now ob = r"
    by auto
  from start show ?case
  proof
    assume "recovery_started_at (observe cfg t obs st0) = Some r"
    from snoc.IH [OF this] obtain ys z zs where "obs = ys @ z # zs" "obs_now z = r"
      "\<forall>ob \<in> set (z # zs). recovered_obs t ob" by blast
    with rec show ?thesis by (intro exI [of _ ys] exI [of _ z] exI [of _ "zs @ [ob]"]) auto
  next
    assume "obs_now ob = r"
    with rec show ?thesis by (intro exI [of _ obs] exI [of _ ob] exI [of _ "[]"]) auto
  qed
qed

lemma hard_step:
  assumes "hard_obs t ob" "pressure_inv t st"
  shows "controller_mode (observe_one cfg t ob st) = Critical \<or>
    controller_mode st \<noteq> Critical \<and> pause_count (observe_one cfg t ob st) = pause_count st + 1"
proof -
  obtain s now stamp where ob: "ob = (Some s, now, stamp)" and hard: "hard_reasons t s \<noteq> []"
    using assms(1) by (cases ob) (auto simp: hard_obs_def split: option.splits)
  then show ?thesis
    by (cases "controller_mode st = Critical")
       (auto simp: observe_one_def update_cases Let_def update_critical_def update_hard_def)
qed

lemma missing_step:
  assumes "missing_obs ob"
  shows "failure_count (observe_one cfg t ob st) = failure_count st + 1 \<and>
    (failure_samples t \<le> failure_count st + 1 \<longrightarrow> controller_mode (observe_one cfg t ob st) = Critical)"
  using assms
  by (cases ob) (auto simp: observe_one_def update_cases update_missing_def missing_obs_def Let_def)

lemma hard_run:
  assumes ok: "thresholds_ok t" and inv: "pressure_inv t st" and "\<forall>ob \<in> set obs. hard_obs t ob"
  shows "controller_mode (observe cfg t obs st) = Critical \<or>
    int (length obs) \<le> pause_count (observe cfg t obs st)"
  using assms(3)
proof (induction obs rule: rev_induct)
  case Nil
  from inv show ?case by (simp add: pressure_inv_def)
next
  case (snoc ob obs)
  have "pressure_inv t (observe cfg t obs st)" by (rule inv_observe [OF ok inv])
  from hard_step [OF _ this, of ob cfg] snoc show ?case by auto
qed

lemma missing_run:
  assumes ok: "thresholds_ok t" and inv: "pressure_inv t st" and "\<forall>ob \<in> set obs. missing_obs ob"
  shows "int (length obs) \<le> failure_count (observe cfg t obs st)"
  using assms(3)
proof (induction obs rule: rev_induct)
  case Nil
  from inv show ?case by (simp add: pressure_inv_def)
next
  case (snoc ob obs)
  with missing_step [of ob cfg t "observe cfg t obs st"] show ?case by auto
qed

text \<open>The generation number: primitive changes never lower it and always show in it.\<close>

definition gen_step :: "pressure_state \<Rightarrow> pressure_state \<Rightarrow> bool" where
  "gen_step a b \<longleftrightarrow> generation a \<le> generation b \<and>
     (generation a = generation b \<longrightarrow>
        controller_mode a = controller_mode b \<and> throughput_scale a = throughput_scale b)"

lemma gen_step_trans: "gen_step a b \<Longrightarrow> gen_step b c \<Longrightarrow> gen_step a c"
  by (auto simp: gen_step_def)

lemma gen_step_same:
  "generation a = generation b \<Longrightarrow> controller_mode a = controller_mode b \<Longrightarrow>
     throughput_scale a = throughput_scale b \<Longrightarrow> gen_step a b"
  by (simp add: gen_step_def)

lemma gen_set_mode: "gen_step a b \<Longrightarrow> gen_step a (set_mode m b)"
  by (rule gen_step_trans) (auto simp: gen_step_def set_mode_def)

lemma gen_set_scale: "gen_step a b \<Longrightarrow> gen_step a (set_scale v b)"
  by (rule gen_step_trans) (auto simp: gen_step_def set_scale_def Let_def)

lemma gen_decrease: "gen_step a b \<Longrightarrow> gen_step a (decrease_budget cfg b)"
  by (simp add: decrease_budget_def Let_def gen_set_scale)

lemma gen_fields:
  "gen_step a b \<Longrightarrow> gen_step a (b\<lparr>reasons := r\<rparr>)" "gen_step a b \<Longrightarrow> gen_step a (b\<lparr>trigger_reasons := r\<rparr>)"
  "gen_step a b \<Longrightarrow> gen_step a (b\<lparr>stable_since := x\<rparr>)" "gen_step a b \<Longrightarrow> gen_step a (b\<lparr>last_increase_at := x\<rparr>)"
  "gen_step a b \<Longrightarrow> gen_step a (b\<lparr>recovery_started_at := x\<rparr>)" "gen_step a b \<Longrightarrow> gen_step a (b\<lparr>pause_count := n\<rparr>)"
  "gen_step a b \<Longrightarrow> gen_step a (b\<lparr>failure_count := n\<rparr>)" "gen_step a b \<Longrightarrow> gen_step a (b\<lparr>current_sample := s\<rparr>)"
  "gen_step a b \<Longrightarrow> gen_step a (b\<lparr>sampled_at := z\<rparr>)" "gen_step a b \<Longrightarrow> gen_step a (b\<lparr>snapshot_now := x\<rparr>)"
  "gen_step a b \<Longrightarrow> gen_step a (b\<lparr>foreground_slow_count := n\<rparr>)"
  "gen_step a b \<Longrightarrow> gen_step a (b\<lparr>foreground_last_generation := g\<rparr>)"
  "gen_step a b \<Longrightarrow> gen_step a (b\<lparr>local_cgroup_max_until := u\<rparr>)"
  "gen_step a b \<Longrightarrow> gen_step a (b\<lparr>local_cgroup_oom_until := u\<rparr>)"
  "gen_step a b \<Longrightarrow> gen_step a (b\<lparr>local_cgroup_max_delta := n\<rparr>)"
  "gen_step a b \<Longrightarrow> gen_step a (b\<lparr>local_cgroup_oom_delta := n\<rparr>)"
  by (simp_all add: gen_step_def)

lemmas gen_intros = gen_fields gen_set_mode gen_set_scale gen_decrease

lemma gen_refl: "gen_step a a"
  by (simp add: gen_step_def)

lemma gen_sampled: "gen_step st (sampled_state cfg s now stamp st)"
  unfolding sampled_state_def update_foreground_def accept_sample_def note_cgroup_def start_update_def Let_def
  by (auto intro!: gen_intros gen_refl)

lemma gen_update: "gen_step st (update cfg t sample now stamp st)"
proof (cases sample)
  case None
  then show ?thesis
    unfolding update_cases(1) None update_missing_def start_update_def Let_def
    by (auto intro!: gen_intros gen_refl)
next
  case (Some s)
  have crit: "gen_step a (update_critical cfg t s hard soft now a)" for a hard soft
    unfolding update_critical_def Let_def by (auto intro!: gen_intros gen_refl)
  have hrd: "gen_step a (update_hard cfg t hard a)" for a hard
    unfolding update_hard_def Let_def by (auto intro!: gen_intros gen_refl)
  have rec: "gen_step a b \<Longrightarrow> gen_step a (recover_budget_if_stable cfg now b)" for a b
    unfolding recover_budget_if_stable_def increase_budget_def Let_def
    by (auto intro!: gen_intros split: option.splits)
  have sft: "gen_step a (update_soft cfg soft now a)" for a soft
    unfolding update_soft_def Let_def by (auto intro!: gen_intros rec gen_refl)
  show ?thesis
    using gen_step_trans [OF gen_sampled crit] gen_step_trans [OF gen_sampled hrd]
      gen_step_trans [OF gen_sampled sft] Some
    by (cases "controller_mode st = Critical"; cases "hard_reasons t s = []") (simp_all add: update_cases Let_def)
qed

section \<open>An example\<close>

definition demo_settings :: resource_settings where
  "demo_settings =
    \<lparr>cfg_reserve_mode = ''auto'', cfg_reserve_ratio = 15/100, cfg_reserve_min_mb = 384, cfg_reserve_max_mb = 2560,
     cfg_warning_available_mb = 1536, cfg_pause_available_mb = 1280, cfg_resume_available_mb = 1792,
     cfg_warning_swap_free_ratio = 30/100, cfg_pause_swap_free_ratio = 25/100,
     cfg_critical_swap_free_ratio = 15/100, cfg_resume_swap_free_ratio = 30/100,
     cfg_swap_activity_mb_per_minute = 64, cfg_pause_memory_psi = 2, cfg_pause_io_psi = 15,
     cfg_resume_memory_psi = 1, cfg_resume_io_psi = 5, cfg_pause_samples = 3, cfg_failure_samples = 3,
     cfg_resume_seconds = 60, cfg_budget_min_scale = 1/10, cfg_budget_decrease_factor = 1/2,
     cfg_budget_increase_step = 1/10, cfg_budget_increase_stable_seconds = 30, cfg_governance_max_scale = 1,
     cfg_base_read_mb_per_second = 20, cfg_base_write_mb_per_second = 10, cfg_governance_mode = ''shadow'',
     cfg_enforced_profiles = [], cfg_foreground_p95_limit_ms = 500, cfg_foreground_min_samples = 30,
     cfg_foreground_slow_samples = 3\<rparr>"

definition demo_thresholds :: pressure_thresholds where
  "demo_thresholds = thresholds_from_settings demo_settings None (Some (8 * 1024 * MIB))"

definition demo_sample :: "int \<Rightarrow> resource_sample" where
  "demo_sample avail =
    \<lparr>memory_total_bytes = 8 * 1024 * MIB, memory_available_bytes = avail, swap_total_bytes = 0, swap_free_bytes = 0,
     memory_full_avg10 = None, io_full_avg10 = None, swap_in_bytes_per_second = None,
     swap_out_bytes_per_second = None, memory_available_change = None, cgroup_memory_max_delta = None,
     cgroup_memory_oom_delta = None, cgroup_memory_oom_kill_delta = None, foreground_p95_ms = None,
     foreground_sample_count = 0, foreground_sample_generation = 0, memory_psi_soft_trigger = None,
     io_psi_soft_trigger = None, sample_time = None\<rparr>"

lemma demo_thresholds_fields:
  "thresholds_ok demo_thresholds" "pause_samples demo_thresholds = 3" "failure_samples demo_thresholds = 3"
  "resume_seconds demo_thresholds = 60"
  by (simp_all add: demo_thresholds_def thresholds_from_settings_ok)
     (simp_all add: thresholds_from_settings_def demo_settings_def Let_def)

lemma demo_floor: "\<lfloor>6442450944 / 5 :: rat\<rfloor> = 1288490188"
  by (rule floor_unique) simp_all

lemma demo_pause: "128 * MIB \<le> pause_available_bytes demo_thresholds"
  "pause_available_bytes demo_thresholds \<le> 2560 * MIB"
  "resume_available_bytes demo_thresholds \<le> 4000 * MIB"
  by (simp_all add: demo_thresholds_def thresholds_from_settings_def demo_settings_def Let_def py_lower_def
      lower_char_def py_strip_def py_lstrip_def py_isspace_def automatic_memory_reserve_bytes_def py_trunc_def demo_floor)

lemma demo_hard: "avail < 128 * MIB \<Longrightarrow> hard_obs demo_thresholds (Some (demo_sample avail), now, stamp)"
  using demo_pause(1) by (simp add: hard_obs_def hard_reasons_def reason_if_def demo_sample_def)

section \<open>Properties\<close>

text \<open>C5. Whatever is observed, with the thresholds of any settings, from a fresh controller or
  from a restored critical latch: the legacy status mirrors the mode, the scale is 0 in critical
  mode and between one percent and one otherwise, and outside critical mode both failure
  counters are below their limits and no recovery is under way.\<close>

theorem pressure_invariant:
  "pressure_inv (thresholds_from_settings cfg detected memory_total)
     (observe cfg (thresholds_from_settings cfg detected memory_total) obs initial_state) \<and>
   pressure_inv (thresholds_from_settings cfg detected memory_total)
     (observe cfg (thresholds_from_settings cfg detected memory_total) obs
        (restore_paused (thresholds_from_settings cfg detected memory_total) rs st))"
  using thresholds_from_settings_ok inv_observe inv_initial inv_restore by blast

text \<open>C14. Critical mode is not entered on a single bad reading: when an observation makes the
  controller critical, it reported an OOM kill in the own cgroup, or it ends a run of
  \<open>pause_samples\<close> observations over a hard limit, or a run of \<open>failure_samples\<close> missing samples.\<close>

theorem critical_entry_is_debounced:
  assumes ok: "thresholds_ok t"
    and before: "controller_mode (observe cfg t obs initial_state) \<noteq> Critical"
    and after: "controller_mode (observe cfg t (obs @ [ob]) initial_state) = Critical"
  shows "oom_obs t ob \<or> ends_with (hard_obs t) (nat (pause_samples t)) (obs @ [ob]) \<or>
    ends_with missing_obs (nat (failure_samples t)) (obs @ [ob])"
proof -
  let ?st = "observe cfg t obs initial_state"
  note counts = counts_observed [OF ok, of cfg obs]
  have inv: "pressure_inv t ?st" by (rule inv_observe [OF ok inv_initial [OF ok]])
  have nonneg: "0 \<le> pause_count ?st" "0 \<le> failure_count ?st" using inv by (auto simp: pressure_inv_def)
  have "controller_mode (observe_one cfg t ob ?st) = Critical" using after by simp
  from entry_step [OF before this]
  consider "oom_obs t ob" | "hard_obs t ob" "pause_samples t \<le> pause_count ?st + 1"
    | "missing_obs ob" "failure_samples t \<le> failure_count ?st + 1" by blast
  then show ?thesis
  proof cases
    case 2
    then have "ends_with (hard_obs t) (nat (pause_count ?st + 1)) (obs @ [ob])"
      using counts before nonneg by (intro ends_with_snoc_int) auto
    with 2 show ?thesis by (auto intro: ends_with_le nat_mono)
  next
    case 3
    then have "ends_with missing_obs (nat (failure_count ?st + 1)) (obs @ [ob])"
      using counts nonneg by (intro ends_with_snoc_int) auto
    with 3 show ?thesis by (auto intro: ends_with_le nat_mono)
  qed simp
qed

theorem critical_entry_is_debounced_witness:
  "controller_mode (observe demo_settings demo_thresholds [(None, 0, []), (None, 5, [])] initial_state) \<noteq> Critical \<and>
   controller_mode (observe demo_settings demo_thresholds
     ([(None, 0, []), (None, 5, [])] @ [(None, 10, [])]) initial_state) = Critical \<and>
   ends_with missing_obs 3 ([(None, 0, []), (None, 5, [])] @ [(None, 10, [])])"
proof -
  have a: "controller_mode (observe demo_settings demo_thresholds [(None, 0, []), (None, 5, [])] initial_state) \<noteq> Critical"
    and b: "controller_mode (observe demo_settings demo_thresholds
     ([(None, 0, []), (None, 5, [])] @ [(None, 10, [])]) initial_state) = Critical"
    by (simp_all add: observe_one_def update_cases update_missing_def Let_def demo_thresholds_fields initial_state_def)
  from critical_entry_is_debounced [OF demo_thresholds_fields(1) a b] a b show ?thesis
    by (auto simp: oom_obs_def hard_obs_def ends_with_def demo_thresholds_fields)
qed

text \<open>C7. Critical mode is left only after a full stable interval: when an observation ends it,
  the observations since some earlier one at least \<open>resume_seconds\<close> back, that one and the last
  included, all show recovered memory and no hard limit exceeded.\<close>

theorem critical_exit_needs_stability:
  assumes ok: "thresholds_ok t" and inv: "pressure_inv t st0" and none: "recovery_started_at st0 = None"
    and before: "controller_mode (observe cfg t obs st0) = Critical"
    and after: "controller_mode (observe cfg t (obs @ [ob]) st0) \<noteq> Critical"
  shows "\<exists>ys z zs. obs @ [ob] = ys @ z # zs \<and> resume_seconds t \<le> obs_now ob - obs_now z \<and>
    (\<forall>o' \<in> set (z # zs). recovered_obs t o')"
proof -
  have "controller_mode (observe_one cfg t ob (observe cfg t obs st0)) \<noteq> Critical" using after by simp
  from exit_step [OF before this]
  have rec: "recovered_obs t ob"
    and long: "resume_seconds t \<le> obs_now ob -
      (case recovery_started_at (observe cfg t obs st0) of None \<Rightarrow> obs_now ob | Some r \<Rightarrow> r)" by auto
  show ?thesis
  proof (cases "recovery_started_at (observe cfg t obs st0)")
    case None
    with rec long show ?thesis by (intro exI [of _ obs] exI [of _ ob] exI [of _ "[]"]) auto
  next
    case (Some r)
    from recovery_observed [OF ok inv none Some] obtain ys z zs where "obs = ys @ z # zs" "obs_now z = r"
      "\<forall>o' \<in> set (z # zs). recovered_obs t o'" by blast
    with rec long Some show ?thesis
      by (intro exI [of _ ys] exI [of _ z] exI [of _ "zs @ [ob]"]) auto
  qed
qed

lemma demo_recovered: "hard_recovered demo_thresholds (demo_sample (8000 * MIB))"
  using demo_pause
  by (simp add: hard_recovered_def hard_reasons_def reason_if_def demo_sample_def swap_free_ratio_def
      swap_activity_def demo_thresholds_def)
     (simp add: thresholds_from_settings_def demo_settings_def Let_def)

lemma demo_no_hard: "hard_reasons demo_thresholds (demo_sample (8000 * MIB)) = []"
  using demo_recovered by (simp add: hard_recovered_def)

text \<open>A restored latch, a recovered sample, and another one a minute later.\<close>

definition demo_latched :: pressure_state where
  "demo_latched = restore_paused demo_thresholds [] initial_state"

lemma demo_exit:
  "controller_mode (observe demo_settings demo_thresholds [(Some (demo_sample (8000 * MIB)), 10, [])] demo_latched) = Critical"
  "controller_mode (observe demo_settings demo_thresholds
     ([(Some (demo_sample (8000 * MIB)), 10, [])] @ [(Some (demo_sample (8000 * MIB)), 70, [])]) demo_latched) \<noteq> Critical"
proof -
  define st1 where "st1 = observe_one demo_settings demo_thresholds (Some (demo_sample (8000 * MIB)), 10, []) demo_latched"
  have crit: "controller_mode demo_latched = Critical" "recovery_started_at demo_latched = None"
    by (simp_all add: demo_latched_def restore_paused_def Let_def)
  have st1: "controller_mode st1 = Critical" "recovery_started_at st1 = Some 10"
    using crit demo_recovered demo_no_hard
    by (simp_all add: st1_def observe_one_def update_cases Let_def update_critical_def demo_thresholds_fields)
  then show "controller_mode (observe demo_settings demo_thresholds [(Some (demo_sample (8000 * MIB)), 10, [])] demo_latched) = Critical"
    by (simp add: st1_def)
  have "controller_mode (observe_one demo_settings demo_thresholds (Some (demo_sample (8000 * MIB)), 70, []) st1) \<noteq> Critical"
    using st1 demo_recovered demo_no_hard
    by (simp add: observe_one_def update_cases Let_def update_critical_def demo_thresholds_fields)
  then show "controller_mode (observe demo_settings demo_thresholds
     ([(Some (demo_sample (8000 * MIB)), 10, [])] @ [(Some (demo_sample (8000 * MIB)), 70, [])]) demo_latched) \<noteq> Critical"
    by (simp add: st1_def)
qed

theorem critical_exit_needs_stability_witness:
  "\<exists>ys z zs. [(Some (demo_sample (8000 * MIB)), 10, [])] @ [(Some (demo_sample (8000 * MIB)), 70, [])] = ys @ z # zs \<and>
     60 \<le> obs_now (Some (demo_sample (8000 * MIB)), 70, []) - obs_now z"
proof -
  have inv: "pressure_inv demo_thresholds demo_latched"
    unfolding demo_latched_def by (rule inv_restore [OF demo_thresholds_fields(1)])
  have "recovery_started_at demo_latched = None"
    by (simp add: demo_latched_def restore_paused_def Let_def)
  from critical_exit_needs_stability [OF demo_thresholds_fields(1) inv this demo_exit] show ?thesis
    by (simp only: demo_thresholds_fields) blast
qed

text \<open>C17. The controller fails closed: from any state it can be in, \<open>pause_samples\<close> observations
  in a row over a hard limit, or \<open>failure_samples\<close> missing samples in a row, end in critical mode
  with scale 0.\<close>

theorem pressure_fails_closed:
  assumes ok: "thresholds_ok t" and inv: "pressure_inv t st"
    and run: "(\<forall>ob \<in> set obs. hard_obs t ob) \<and> pause_samples t \<le> int (length obs) \<or>
              (\<forall>ob \<in> set obs. missing_obs ob) \<and> failure_samples t \<le> int (length obs)"
  shows "controller_mode (observe cfg t obs st) = Critical \<and> throughput_scale (observe cfg t obs st) = 0"
proof -
  have inv': "pressure_inv t (observe cfg t obs st)" by (rule inv_observe [OF ok inv])
  have "controller_mode (observe cfg t obs st) = Critical"
  proof (rule ccontr)
    assume "controller_mode (observe cfg t obs st) \<noteq> Critical"
    with inv' hard_run [OF ok inv, of obs cfg] missing_run [OF ok inv, of obs cfg] run show False
      by (auto simp: pressure_inv_def)
  qed
  with inv' show ?thesis by (simp add: pressure_inv_def)
qed

theorem pressure_fails_closed_witness:
  "controller_mode (observe demo_settings demo_thresholds
     [(Some (demo_sample 0), 0, []), (Some (demo_sample 0), 5, []), (Some (demo_sample 0), 10, [])] initial_state) = Critical"
  using pressure_fails_closed [OF demo_thresholds_fields(1) inv_initial [OF demo_thresholds_fields(1)],
      of "[(Some (demo_sample 0), 0, []), (Some (demo_sample 0), 5, []), (Some (demo_sample 0), 10, [])]" demo_settings]
    demo_hard [of 0] demo_thresholds_fields(2) by simp

text \<open>C31. Every change of mode or scale gives a new generation, and generations never go back: a
  reader that compares generations sees every change.\<close>

theorem generation_marks_changes:
  "generation st \<le> generation (update cfg t sample now stamp st) \<and>
   (generation st < generation (update cfg t sample now stamp st) \<or>
    controller_mode (update cfg t sample now stamp st) = controller_mode st \<and>
    throughput_scale (update cfg t sample now stamp st) = throughput_scale st)"
  using gen_update [of st cfg t sample now stamp] by (auto simp: gen_step_def)

text \<open>C32. Automatic thresholds are ordered and bounded: the reserve lies between its lower and
  upper limit, the warning threshold is at least 128 MiB above it, and the resume threshold is at
  least 256 MiB above it and not below the warning threshold.\<close>

theorem automatic_thresholds_ordered:
  assumes "memory_reserve_mode (thresholds_from_settings cfg detected memory_total) = ''auto''"
  shows "let t = thresholds_from_settings cfg detected memory_total;
             lower = max (128 * MIB) (cfg_reserve_min_mb cfg * MIB)
         in lower \<le> pause_available_bytes t \<and>
            pause_available_bytes t \<le> max lower (cfg_reserve_max_mb cfg * MIB) \<and>
            pause_available_bytes t + 128 * MIB \<le> warning_available_bytes t \<and>
            pause_available_bytes t + 256 * MIB \<le> resume_available_bytes t \<and>
            warning_available_bytes t \<le> resume_available_bytes t"
proof -
  let ?t = "thresholds_from_settings cfg detected memory_total"
  define p where "p = pause_available_bytes ?t"
  obtain n where p: "p = automatic_memory_reserve_bytes n (cfg_reserve_ratio cfg)
      (cfg_reserve_min_mb cfg * MIB) (cfg_reserve_max_mb cfg * MIB)"
    and w: "warning_available_bytes ?t = max (p + 128 * MIB) (py_trunc (of_int p * (12/10)))"
    and r: "resume_available_bytes ?t = max (p + 256 * MIB) (py_trunc (of_int p * (14/10)))"
    using assms by (auto simp: thresholds_from_settings_def Let_def p_def split: if_splits option.splits)
  have bounds: "max (128 * MIB) (cfg_reserve_min_mb cfg * MIB) \<le> p"
    "p \<le> max (max (128 * MIB) (cfg_reserve_min_mb cfg * MIB)) (cfg_reserve_max_mb cfg * MIB)"
    by (auto simp: p automatic_memory_reserve_bytes_def Let_def)
  then have "0 \<le> p" by simp
  then have "py_trunc (of_int p * (12/10)) \<le> py_trunc (of_int p * (14/10))"
    by (intro py_trunc_mono mult_left_mono) simp_all
  with bounds w r show ?thesis unfolding Let_def p_def [symmetric] by auto
qed

theorem automatic_thresholds_ordered_witness:
  "memory_reserve_mode demo_thresholds = ''auto'' \<and>
   warning_available_bytes demo_thresholds \<le> resume_available_bytes demo_thresholds"
proof -
  have "memory_reserve_mode demo_thresholds = ''auto''"
    by (simp add: demo_thresholds_def thresholds_from_settings_def demo_settings_def Let_def py_lower_def
        lower_char_def py_strip_def py_lstrip_def py_isspace_def)
  with automatic_thresholds_ordered [of demo_settings None "Some (8 * 1024 * MIB)"] show ?thesis
    unfolding demo_thresholds_def [symmetric] Let_def by blast
qed

text \<open>C19. A grant is safe: a profile other than \<^verbatim>\<open>light\<close> is allowed only outside critical mode, on
  a present sample whose available memory stays at or above the hard floor after the profile's
  reservation; and a denied grant says why.\<close>

theorem grants_keep_the_floor:
  assumes "profile_name p \<noteq> ''light''"
  shows "if pb_allowed (profile_budget_of cfg t p st)
         then controller_mode st \<noteq> Critical \<and> pb_reason (profile_budget_of cfg t p st) = None \<and>
              (case current_sample st of
                 None \<Rightarrow> False
               | Some s \<Rightarrow> pause_available_bytes t \<le> memory_available_bytes s - memory_reservation_bytes p)
         else pb_reason (profile_budget_of cfg t p st) \<noteq> None \<and> pb_grant (profile_budget_of cfg t p st) = ''denied''"
  using assms by (auto simp: profile_budget_of_def profile_decision_def Let_def split: option.splits)

theorem grants_keep_the_floor_witness:
  "pb_reason (profile_budget_of demo_settings demo_thresholds (profile ''import_db'' (96 * MIB) (Some 20) 25) initial_state)
     = Some ''resource_metrics_unavailable''"
proof -
  have "profile_name (profile ''import_db'' (96 * MIB) (Some 20) 25) \<noteq> ''light''" by (simp add: profile_def)
  from grants_keep_the_floor [OF this, of demo_settings demo_thresholds initial_state] show ?thesis
    by (simp add: profile_budget_of_def profile_decision_def initial_state_def profile_def split: if_splits)
qed



text \<open>C34. Every workload name, known or not, resolves to one of the eight profiles, and the name
  of a profile resolves to that profile.\<close>

theorem workload_profile_total:
  "dict_has RESOURCE_PROFILES (workload_profile_name workload) \<and>
   list_all (\<lambda>name. workload_profile_name (Some name) = name) (map fst RESOURCE_PROFILES)"
proof
  show "dict_has RESOURCE_PROFILES (workload_profile_name workload)" by (rule workload_profile_known)
  show "list_all (\<lambda>name. workload_profile_name (Some name) = name) (map fst RESOURCE_PROFILES)"
    by (simp add: RESOURCE_PROFILES_def) (intro conjI; code_simp)
qed

text \<open>The two readings of the governance mode disagree on surrounding blanks: the settings
  check accepts \<open>" shadow"\<close>, the profiles read it as shadow, and the snapshot reports enforcement.\<close>

theorem governance_mode_blank:
  "cfg_governance_mode cfg = '' shadow'' \<longrightarrow>
     governance_mode cfg = ''enforce'' \<and> \<not> profile_soft_budget_enforced cfg name"
  by (simp add: governance_mode_def profile_soft_budget_enforced_def py_string_defs)

theorem governance_mode_blank_witness:
  "governance_mode (demo_settings\<lparr>cfg_governance_mode := '' shadow''\<rparr>) = ''enforce''"
  using governance_mode_blank [of "demo_settings\<lparr>cfg_governance_mode := '' shadow''\<rparr>"] by simp

end
