(* ===== verification/Pressure_Budget.thy ===== *)
theory Pressure_Budget
  imports Pressure_State
begin

text \<open>
  The pure parts of \<^verbatim>\<open>backend/app/services/resource_pressure.py\<close>: the idle baseline of pressure stall
  values, the permit of a workload, the limits of one work slice and the idle time after it.

  A snapshot is the dictionary the controller publishes. A field that is read with a conversion
  is \<open>Absent\<close>, \<open>Malformed\<close> (the conversion raises) or \<open>Given\<close>. The entries of a stored
  baseline are given by the result of their conversion to floats, \<open>None\<close> where it raises.
\<close>

section \<open>The idle baseline\<close>

abbreviation PRESSURE_BASELINE_WINDOW_SECONDS :: rat where "PRESSURE_BASELINE_WINDOW_SECONDS \<equiv> 86400"
abbreviation PRESSURE_BASELINE_SAMPLE_SECONDS :: rat where "PRESSURE_BASELINE_SAMPLE_SECONDS \<equiv> 60"
abbreviation PRESSURE_BASELINE_PERSIST_SECONDS :: rat where "PRESSURE_BASELINE_PERSIST_SECONDS \<equiv> 300"
abbreviation PRESSURE_BASELINE_MIN_SAMPLES :: nat where "PRESSURE_BASELINE_MIN_SAMPLES \<equiv> 10"

text \<open>The \<^verbatim>\<open>maxlen\<close> of the deque: one observation per minute for 24 hours and 16 more.\<close>

definition baseline_maxlen :: nat where
  "baseline_maxlen = 1456"

type_synonym baseline_sample = "rat \<times> rat option \<times> rat option"

record baseline_window =
  bw_samples :: "baseline_sample list"
  bw_hydrated :: bool
  bw_dirty :: bool
  bw_last_persisted_at :: rat
  bw_last_observed_at :: rat

definition new_baseline :: baseline_window where
  "new_baseline = \<lparr>bw_samples = [], bw_hydrated = False, bw_dirty = False, bw_last_persisted_at = 0, bw_last_observed_at = 0\<rparr>"

text \<open>\<^verbatim>\<open>deque.append\<close> with \<^verbatim>\<open>maxlen\<close>: the oldest element is dropped.\<close>

definition bounded_append :: "'a list \<Rightarrow> 'a \<Rightarrow> 'a list" where
  "bounded_append xs x = (let ys = xs @ [x] in drop (length ys - baseline_maxlen) ys)"

definition prune :: "rat \<Rightarrow> baseline_window \<Rightarrow> baseline_window" where
  "prune now w =
    (let cutoff = now - PRESSURE_BASELINE_WINDOW_SECONDS;
         kept = dropWhile (\<lambda>s. fst s < cutoff) (bw_samples w)
     in w\<lparr>bw_samples := kept, bw_dirty := (bw_dirty w \<or> length kept < length (bw_samples w))\<rparr>)"

definition hydrate_entry :: "rat \<Rightarrow> baseline_sample option \<Rightarrow> baseline_sample list \<Rightarrow> baseline_sample list" where
  "hydrate_entry now entry samples =
    (case entry of
       None \<Rightarrow> samples
     | Some (taken_at, memory_psi, io_psi) \<Rightarrow>
         if taken_at < now - PRESSURE_BASELINE_WINDOW_SECONDS \<or> now + 300 < taken_at then samples
         else if memory_psi = None \<and> io_psi = None then samples
         else bounded_append samples (taken_at, memory_psi, io_psi))"

definition hydrate :: "rat \<Rightarrow> baseline_sample option list \<Rightarrow> baseline_window \<Rightarrow> baseline_window" where
  "hydrate now entries w =
    (if bw_hydrated w then w
     else let samples = sort_key fst (fold (hydrate_entry now) entries (bw_samples w))
          in w\<lparr>bw_samples := samples,
               bw_last_observed_at := (if samples = [] then bw_last_observed_at w else fst (last samples)),
               bw_last_persisted_at := now, bw_dirty := False, bw_hydrated := True\<rparr>)"

definition percentile :: "rat list \<Rightarrow> rat \<Rightarrow> rat option" where
  "percentile vs p =
    (if vs = [] then None
     else let ordered = sort vs;
              rank = max 1 (py_trunc (p * of_nat (length ordered) + 999999 / 1000000))
          in Some (py_round (ordered ! min (length ordered - 1) (nat (rank - 1))) 4))"

record baseline_statistics =
  memory_median :: "rat option"
  memory_p95 :: "rat option"
  io_median :: "rat option"
  io_p95 :: "rat option"
  memory_sample_count :: nat
  io_sample_count :: nat
  sample_count :: nat
  ready :: bool

definition memory_values :: "baseline_sample list \<Rightarrow> rat list" where
  "memory_values samples = List.map_filter (\<lambda>s. fst (snd s)) samples"

definition io_values :: "baseline_sample list \<Rightarrow> rat list" where
  "io_values samples = List.map_filter (\<lambda>s. snd (snd s)) samples"

definition baseline_stats :: "baseline_sample list \<Rightarrow> baseline_statistics" where
  "baseline_stats samples =
    (let ms = memory_values samples; ios = io_values samples; n = max (length ms) (length ios)
     in \<lparr>memory_median = percentile ms (1/2), memory_p95 = percentile ms (95/100),
         io_median = percentile ios (1/2), io_p95 = percentile ios (95/100),
         memory_sample_count = length ms, io_sample_count = length ios, sample_count = n,
         ready = (PRESSURE_BASELINE_MIN_SAMPLES \<le> n)\<rparr>)"

record baseline_settings =
  bl_memory_margin :: rat
  bl_io_margin :: rat
  bl_memory_cap :: rat
  bl_io_cap :: rat

text \<open>\<^verbatim>\<open>safe_host\<close>: the conditions under which an observation may be learned.\<close>

definition swap_hazard :: "pressure_thresholds \<Rightarrow> resource_sample \<Rightarrow> bool" where
  "swap_hazard t s \<longleftrightarrow> swap_free_ratio s < pause_swap_free_ratio t \<and>
     swap_activity_limit t \<le> (case swap_activity s of None \<Rightarrow> 0 | Some a \<Rightarrow> a) \<and>
     (case memory_available_change s of None \<Rightarrow> 0 | Some c \<Rightarrow> c) < 0"

definition safe_host :: "pressure_thresholds \<Rightarrow> resource_sample \<Rightarrow> bool" where
  "safe_host t s \<longleftrightarrow> pause_available_bytes t \<le> memory_available_bytes s \<and>
     critical_swap_free_ratio t \<le> swap_free_ratio s \<and> \<not> swap_hazard t s \<and>
     (cgroup_memory_oom_kill_delta s = None \<or> cgroup_memory_oom_kill_delta s = Some 0)"

definition learnable :: "rat \<Rightarrow> rat option \<Rightarrow> rat option" where
  "learnable cap v = (case v of None \<Rightarrow> None | Some x \<Rightarrow> if 0 \<le> x \<and> x \<le> cap then Some x else None)"

definition soft_trigger :: "bool \<Rightarrow> nat \<Rightarrow> rat option \<Rightarrow> rat \<Rightarrow> rat \<Rightarrow> rat \<Rightarrow> rat" where
  "soft_trigger is_ready count p95 threshold margin cap =
    (case p95 of
       Some p \<Rightarrow> if is_ready \<and> PRESSURE_BASELINE_MIN_SAMPLES \<le> count
                 then min (max threshold (p + margin)) (max threshold cap) else threshold
     | None \<Rightarrow> threshold)"

definition observe ::
  "baseline_settings \<Rightarrow> rat \<Rightarrow> bool \<Rightarrow> pressure_thresholds \<Rightarrow> resource_sample \<Rightarrow> baseline_window \<Rightarrow> baseline_window \<times> bool" where
  "observe bs now heavy_idle t s w =
    (if heavy_idle \<and> PRESSURE_BASELINE_SAMPLE_SECONDS \<le> now - bw_last_observed_at w \<and> safe_host t s
     then let memory_value = learnable (max (pause_memory_psi t) (bl_memory_cap bs)) (memory_full_avg10 s);
              io_value = learnable (max (pause_io_psi t) (bl_io_cap bs)) (io_full_avg10 s)
          in if memory_value \<noteq> None \<or> io_value \<noteq> None
             then (w\<lparr>bw_samples := bounded_append (bw_samples w) (now, memory_value, io_value),
                     bw_last_observed_at := now, bw_dirty := True\<rparr>, True)
             else (w, False)
     else (w, False))"

definition enrich ::
  "baseline_settings \<Rightarrow> rat \<Rightarrow> bool \<Rightarrow> pressure_thresholds \<Rightarrow> resource_sample \<Rightarrow> baseline_window
   \<Rightarrow> resource_sample \<times> baseline_statistics \<times> bool \<times> baseline_window" where
  "enrich bs now heavy_idle t s w =
    (let (w1, observed) = observe bs now heavy_idle t s (prune now w);
         w2 = prune now w1;
         stats = baseline_stats (bw_samples w2);
         memory_trigger = soft_trigger (ready stats) (memory_sample_count stats) (memory_p95 stats)
           (pause_memory_psi t) (bl_memory_margin bs) (bl_memory_cap bs);
         io_trigger = soft_trigger (ready stats) (io_sample_count stats) (io_p95 stats)
           (pause_io_psi t) (bl_io_margin bs) (bl_io_cap bs)
     in (s\<lparr>memory_psi_soft_trigger := Some (py_round memory_trigger 4), io_psi_soft_trigger := Some (py_round io_trigger 4)\<rparr>,
         stats, observed, w2))"

text \<open>The samples to store, if it is time to store them.\<close>

definition persistence_payload :: "rat \<Rightarrow> baseline_window \<Rightarrow> baseline_sample list option \<times> baseline_window" where
  "persistence_payload now w =
    (let w1 = prune now w
     in if \<not> bw_dirty w1 \<or> now - bw_last_persisted_at w1 < PRESSURE_BASELINE_PERSIST_SECONDS then (None, w1)
        else (Some (bw_samples w1), w1))"

definition mark_persisted :: "rat \<Rightarrow> baseline_window \<Rightarrow> baseline_window" where
  "mark_persisted now w = w\<lparr>bw_last_persisted_at := now, bw_dirty := False\<rparr>"

section \<open>Permits\<close>

datatype 'a field = Absent | Malformed | Given 'a

record profile_payload =
  pp_allowed :: "bool option"
  pp_reason :: "string option"
  pp_reservation :: "int field"
  pp_work_units :: "int field"
  pp_slice_seconds :: "rat field"
  pp_soft_enforced :: "bool option"

record budget_payload =
  bp_profiles :: "(string, profile_payload) dict"
  bp_throughput_scale :: "rat field"
  bp_effective_scale :: "rat field"
  bp_governance_mode :: "string option"

record pressure_snapshot =
  sn_status :: "string option"
  sn_controller_mode :: "string option"
  sn_budget :: "budget_payload option"
  sn_available_bytes :: "int field"
  sn_hard_floor_bytes :: "int field"

text \<open>\<^verbatim>\<open>value or default\<close> on an optional string.\<close>

definition str_or :: "string option \<Rightarrow> string \<Rightarrow> string" where
  "str_or v d = (case v of Some (c # cs) \<Rightarrow> c # cs | _ \<Rightarrow> d)"

definition published_profile :: "pressure_snapshot \<Rightarrow> string \<Rightarrow> profile_payload option" where
  "published_profile sn name = (case sn_budget sn of None \<Rightarrow> None | Some b \<Rightarrow> map_of (bp_profiles b) name)"

record permit =
  pm_profile :: string
  pm_controller_mode :: string
  pm_reason :: "string option"
  pm_governance_mode :: "string option"

definition resource_profile_permit :: "pressure_snapshot \<Rightarrow> string option \<Rightarrow> bool \<times> permit" where
  "resource_profile_permit sn workload =
    (let name = workload_profile_name workload;
         fallback =
           (let allowed = (sn_status sn \<noteq> Some ''paused'')
            in (allowed, \<lparr>pm_profile = name, pm_controller_mode = (if allowed then ''normal'' else ''critical''),
                 pm_reason = (if allowed then None else Some ''legacy_pressure_pause''), pm_governance_mode = None\<rparr>))
     in case published_profile sn name of
          None \<Rightarrow> fallback
        | Some p \<Rightarrow>
            (case pp_allowed p of
               None \<Rightarrow> fallback
             | Some allowed \<Rightarrow>
                 (allowed,
                  \<lparr>pm_profile = name,
                   pm_controller_mode = str_or (sn_controller_mode sn)
                     (if sn_status sn = Some ''paused'' then ''critical''
                      else if sn_status sn = Some ''warning'' then ''constrained'' else ''normal''),
                   pm_reason = pp_reason p,
                   pm_governance_mode =
                     (case sn_budget sn of None \<Rightarrow> None
                      | Some b \<Rightarrow> (case bp_governance_mode b of None \<Rightarrow> Some ''enforce'' | Some g \<Rightarrow> Some g))\<rparr>)))"

section \<open>The limits of a slice\<close>

record slice_limits =
  sl_profile :: string
  sl_allowed :: bool
  sl_work_units :: int
  sl_slice_seconds :: "rat option"
  sl_governance_mode :: string
  sl_controller_mode :: string
  sl_effective_scale :: rat
  sl_reason :: "string option"

definition published_scale :: "pressure_snapshot \<Rightarrow> rat option" where
  "published_scale sn =
    (let fallback = (case sn_budget sn of None \<Rightarrow> Given 1
                     | Some b \<Rightarrow> (case bp_throughput_scale b of Absent \<Rightarrow> Given 1 | f \<Rightarrow> f));
         f = (case sn_budget sn of None \<Rightarrow> fallback
              | Some b \<Rightarrow> (case bp_effective_scale b of Absent \<Rightarrow> fallback | f \<Rightarrow> f))
     in case f of Given x \<Rightarrow> Some x | _ \<Rightarrow> None)"

definition soft_enforced :: "pressure_snapshot \<Rightarrow> string \<Rightarrow> string \<Rightarrow> bool" where
  "soft_enforced sn name governance =
    (case published_profile sn name of
       None \<Rightarrow> governance = ''enforce''
     | Some p \<Rightarrow> (case pp_soft_enforced p of None \<Rightarrow> governance = ''enforce'' | Some b \<Rightarrow> b))"

definition minimum_scale :: "resource_settings \<Rightarrow> rat" where
  "minimum_scale cfg = max (1/100) (min 1 (cfg_budget_min_scale cfg))"

definition unit_cap :: "resource_profile \<Rightarrow> int option \<Rightarrow> int" where
  "unit_cap base max_work_units =
    (let cap = max 1 (base_work_units base)
     in case max_work_units of None \<Rightarrow> cap | Some m \<Rightarrow> min cap (max 1 m))"

definition seconds_cap :: "resource_profile \<Rightarrow> rat option \<Rightarrow> rat option" where
  "seconds_cap base max_slice_seconds =
    (case max_slice_seconds of
       None \<Rightarrow> base_slice_seconds base
     | Some m \<Rightarrow> Some (case base_slice_seconds base of None \<Rightarrow> max (1/1000) m | Some b \<Rightarrow> min b (max (1/1000) m)))"

definition slice_controller_mode :: "pressure_snapshot \<Rightarrow> permit \<Rightarrow> string" where
  "slice_controller_mode sn pm =
    py_lower (str_or (sn_controller_mode sn) (str_or (Some (pm_controller_mode pm))
      (if sn_status sn = Some ''paused'' then ''critical'' else ''normal'')))"

definition slice_governance_mode :: "pressure_snapshot \<Rightarrow> permit \<Rightarrow> string" where
  "slice_governance_mode sn pm =
    (let own = (case sn_budget sn of None \<Rightarrow> None | Some b \<Rightarrow> bp_governance_mode b);
         g = py_lower (str_or own (str_or (pm_governance_mode pm) ''enforce''))
     in if g = ''shadow'' then ''shadow'' else ''enforce'')"

definition enforced_units :: "pressure_snapshot \<Rightarrow> string \<Rightarrow> resource_profile \<Rightarrow> rat \<Rightarrow> int" where
  "enforced_units sn name base scale =
    (case (case published_profile sn name of None \<Rightarrow> Absent | Some p \<Rightarrow> pp_work_units p) of
       Given n \<Rightarrow> n
     | _ \<Rightarrow> py_trunc (of_int (base_work_units base) * scale))"

definition enforced_seconds :: "pressure_snapshot \<Rightarrow> string \<Rightarrow> rat \<Rightarrow> rat \<Rightarrow> rat" where
  "enforced_seconds sn name cap scale =
    (case (case published_profile sn name of None \<Rightarrow> Absent | Some p \<Rightarrow> pp_slice_seconds p) of
       Given x \<Rightarrow> x
     | _ \<Rightarrow> cap * scale)"

definition profile_slice_limits ::
  "resource_settings \<Rightarrow> pressure_snapshot \<Rightarrow> string option \<Rightarrow> int option \<Rightarrow> rat option \<Rightarrow> slice_limits" where
  "profile_slice_limits cfg sn workload max_work_units max_slice_seconds =
    (let name = workload_profile_name workload;
         base = the (map_of RESOURCE_PROFILES name);
         (permitted, pm) = resource_profile_permit sn workload;
         mode = slice_controller_mode sn pm;
         governance = slice_governance_mode sn pm;
         allowed = (permitted \<and> mode \<noteq> ''critical'' \<and> sn_status sn \<noteq> Some ''paused'');
         scale = max 0 (min 1 (case published_scale sn of None \<Rightarrow> 1 | Some x \<Rightarrow> x))
     in if \<not> allowed
        then \<lparr>sl_profile = name, sl_allowed = False, sl_work_units = 0, sl_slice_seconds = Some 0,
              sl_governance_mode = governance, sl_controller_mode = mode,
              sl_effective_scale = (if mode = ''critical'' then 0 else scale),
              sl_reason = Some (str_or (pm_reason pm) ''resource_pressure'')\<rparr>
        else
          let units = unit_cap base max_work_units;
              seconds = seconds_cap base max_slice_seconds
          in if \<not> soft_enforced sn name governance
             then \<lparr>sl_profile = name, sl_allowed = True, sl_work_units = units, sl_slice_seconds = seconds,
                   sl_governance_mode = ''shadow'', sl_controller_mode = mode, sl_effective_scale = 1, sl_reason = None\<rparr>
             else
               let scale' = max (minimum_scale cfg) scale
               in \<lparr>sl_profile = name, sl_allowed = True,
                   sl_work_units = min units (max 1 (enforced_units sn name base scale')),
                   sl_slice_seconds = (case seconds of None \<Rightarrow> None
                     | Some cap \<Rightarrow> Some (min cap (max (1/1000) (enforced_seconds sn name cap scale')))),
                   sl_governance_mode = governance, sl_controller_mode = mode, sl_effective_scale = scale',
                   sl_reason = None\<rparr>)"

section \<open>The idle time after a slice\<close>

text \<open>The factor of \<^verbatim>\<open>random.uniform(0.85, 1.15)\<close> is an argument, \<open>None\<close> without jitter.\<close>

definition profile_slice_cooldown_seconds ::
  "resource_settings \<Rightarrow> pressure_snapshot \<Rightarrow> rat \<Rightarrow> rat \<Rightarrow> rat option \<Rightarrow> string option \<Rightarrow> rat" where
  "profile_slice_cooldown_seconds cfg sn elapsed_seconds max_seconds jitter workload =
    (let governance0 = py_lower (str_or (case sn_budget sn of None \<Rightarrow> None | Some b \<Rightarrow> bp_governance_mode b) ''enforce'');
         mode = py_lower (str_or (sn_controller_mode sn) (if sn_status sn = Some ''paused'' then ''critical'' else ''normal''));
         governance = (case workload of
             None \<Rightarrow> governance0
           | Some w \<Rightarrow> if soft_enforced sn (workload_profile_name workload) governance0 then governance0 else ''shadow'')
     in if governance \<noteq> ''enforce'' \<or> mode = ''critical'' \<or> sn_status sn = Some ''paused'' then 0
        else case published_scale sn of
               None \<Rightarrow> 0
             | Some scale0 \<Rightarrow>
                 let elapsed = max 0 elapsed_seconds; cap = max 0 max_seconds
                 in if elapsed \<le> 0 \<or> cap \<le> 0 \<or> 1 \<le> scale0 then 0
                    else let scale = max (minimum_scale cfg) (min 1 scale0);
                             delay = elapsed * (1 / scale - 1);
                             delay' = (case jitter of Some u \<Rightarrow> if 0 < delay then delay * u else delay | None \<Rightarrow> delay)
                         in py_round (min cap (max 0 delay')) 3)"

end
