(* ===== verification/Pressure_Slices.thy ===== *)
theory Pressure_Slices
  imports Pressure_Budget
begin

text \<open>
  Properties of the baseline window, of the limits of a work slice and of the idle time after it.
\<close>

section \<open>The baseline window\<close>

definition window_ok :: "baseline_window \<Rightarrow> bool" where
  "window_ok w \<longleftrightarrow> sorted (map fst (bw_samples w)) \<and> list_all (\<lambda>s. fst s \<le> bw_last_observed_at w) (bw_samples w) \<and>
     length (bw_samples w) \<le> baseline_maxlen"

inductive baseline_reach :: "baseline_window \<Rightarrow> bool" where
  start: "baseline_reach new_baseline"
| hydrated: "baseline_reach w \<Longrightarrow> baseline_reach (hydrate now entries w)"
| enriched: "baseline_reach w \<Longrightarrow> enrich bs now idle t s w = (s', stats, observed, w') \<Longrightarrow> baseline_reach w'"
| payload: "baseline_reach w \<Longrightarrow> persistence_payload now w = (out, w') \<Longrightarrow> baseline_reach w'"
| persisted: "baseline_reach w \<Longrightarrow> baseline_reach (mark_persisted now w)"

lemma length_bounded_append: "length xs \<le> baseline_maxlen \<Longrightarrow> length (bounded_append xs x) \<le> baseline_maxlen"
  by (simp add: bounded_append_def baseline_maxlen_def)

lemma bounded_append_suffix: "\<exists>n. bounded_append xs x = drop n (xs @ [x])"
  unfolding bounded_append_def Let_def by blast

lemma sorted_bounded_append:
  assumes "sorted (map fst xs)" "list_all (\<lambda>s. fst s \<le> fst x) xs"
  shows "sorted (map fst (bounded_append xs x))"
proof -
  have "sorted (map fst (xs @ [x]))" using assms by (auto simp: sorted_append list_all_iff)
  moreover obtain n where "bounded_append xs x = drop n (xs @ [x])" using bounded_append_suffix [of xs x] ..
  ultimately show ?thesis using sorted_wrt_drop [of "(\<le>)" "map fst (xs @ [x])" n] by (simp only: drop_map)
qed

lemma set_bounded_append: "set (bounded_append xs x) \<subseteq> insert x (set xs)"
proof -
  obtain n where "bounded_append xs x = drop n (xs @ [x])" using bounded_append_suffix [of xs x] ..
  then show ?thesis using set_drop_subset [of n "xs @ [x]"] by (simp only: set_append list.set) blast
qed

lemma prune_ok: "window_ok w \<Longrightarrow> window_ok (prune now w)"
proof -
  assume w: "window_ok w"
  let ?k = "dropWhile (\<lambda>s. fst s < now - PRESSURE_BASELINE_WINDOW_SECONDS) (bw_samples w)"
  have "sorted (map fst ?k)" using w sorted_dropWhile [of "map fst (bw_samples w)"] by (simp add: window_ok_def dropWhile_map comp_def)
  moreover have "length ?k \<le> length (bw_samples w)" by (rule length_dropWhile_le)
  moreover have "set ?k \<subseteq> set (bw_samples w)" using set_dropWhileD by fast
  ultimately show ?thesis using w by (auto simp: window_ok_def prune_def Let_def list_all_iff)
qed

lemma prune_recent:
  assumes "window_ok w" "s \<in> set (bw_samples (prune now w))"
  shows "now - PRESSURE_BASELINE_WINDOW_SECONDS \<le> fst s"
proof -
  let ?k = "dropWhile (\<lambda>s. fst s < now - PRESSURE_BASELINE_WINDOW_SECONDS) (bw_samples w)"
  have s: "s \<in> set ?k" using assms(2) by (simp add: prune_def Let_def)
  have "sorted (map fst ?k)" using assms(1) sorted_dropWhile [of "map fst (bw_samples w)"] by (simp add: window_ok_def dropWhile_map comp_def)
  moreover have "?k \<noteq> []" using s by (metis empty_iff list.set(1))
  moreover from this have "now - PRESSURE_BASELINE_WINDOW_SECONDS \<le> fst (hd ?k)" using hd_dropWhile [of _ "bw_samples w"] by (metis not_less)
  ultimately show ?thesis using s by (cases ?k) auto
qed

lemma observe_ok:
  assumes "window_ok w" "observe bs now idle t s w = (w', b)"
  shows "window_ok w'"
proof (cases "w' = w")
  case False
  then obtain m i where w': "w' = w\<lparr>bw_samples := bounded_append (bw_samples w) (now, m, i), bw_last_observed_at := now, bw_dirty := True\<rparr>"
      and due: "60 \<le> now - bw_last_observed_at w"
    using assms(2) by (auto simp: observe_def Let_def split: if_splits)
  then have le: "list_all (\<lambda>s. fst s \<le> now) (bw_samples w)" using assms(1) by (auto simp: window_ok_def list_all_iff)
  show ?thesis using assms(1) le sorted_bounded_append [of "bw_samples w" "(now, m, i)"] length_bounded_append
      set_bounded_append [of "bw_samples w" "(now, m, i)"]
    by (fastforce simp: window_ok_def w' list_all_iff)
qed (use assms in simp)

lemma enrich_parts:
  assumes "enrich bs now idle t s w = (s', stats, observed, w')"
  obtains w1 where "observe bs now idle t s (prune now w) = (w1, observed)" "w' = prune now w1"
    "stats = baseline_stats (bw_samples w')"
    "memory_psi_soft_trigger s' = Some (py_round (soft_trigger (ready stats) (memory_sample_count stats) (memory_p95 stats)
       (pause_memory_psi t) (bl_memory_margin bs) (bl_memory_cap bs)) 4)"
    "io_psi_soft_trigger s' = Some (py_round (soft_trigger (ready stats) (io_sample_count stats) (io_p95 stats)
       (pause_io_psi t) (bl_io_margin bs) (bl_io_cap bs)) 4)"
  using assms by (auto simp: enrich_def Let_def split: prod.splits)

lemma hydrate_fold_length:
  "length xs \<le> baseline_maxlen \<Longrightarrow> length (fold (hydrate_entry now) entries xs) \<le> baseline_maxlen"
  by (induction entries arbitrary: xs) (auto simp: hydrate_entry_def length_bounded_append split: option.split)

lemma hydrate_ok: "window_ok w \<Longrightarrow> window_ok (hydrate now entries w)"
proof -
  assume w: "window_ok w"
  define ys where "ys = sort_key fst (fold (hydrate_entry now) entries (bw_samples w))"
  have "length ys \<le> baseline_maxlen" unfolding ys_def using w hydrate_fold_length by (simp add: window_ok_def)
  moreover have "sorted (map fst ys)" by (simp add: ys_def)
  moreover have "fst s \<le> fst (last ys)" if "s \<in> set ys" for s
  proof -
    have "ys \<noteq> []" using that by auto
    then obtain zs z where ys: "ys = zs @ [z]" using rev_exhaust by blast
    then show ?thesis using \<open>sorted (map fst ys)\<close> that by (auto simp: sorted_append)
  qed
  ultimately show ?thesis using w by (auto simp: window_ok_def hydrate_def Let_def ys_def [symmetric] list_all_iff)
qed

lemma baseline_reach_ok: "baseline_reach w \<Longrightarrow> window_ok w"
proof (induction rule: baseline_reach.induct)
  case start
  show ?case by (simp add: window_ok_def new_baseline_def)
next
  case (hydrated w now entries)
  show ?case by (rule hydrate_ok [OF hydrated(2)])
next
  case (enriched w bs now idle t s s' stats observed w')
  obtain w1 where w1: "observe bs now idle t s (prune now w) = (w1, observed)" "w' = prune now w1"
    using enrich_parts [OF enriched(2)] by blast
  then show ?case using observe_ok [OF prune_ok [OF enriched(3)] w1(1)] prune_ok by simp
next
  case (payload w now out w')
  then show ?case using prune_ok by (auto simp: persistence_payload_def Let_def split: if_splits)
next
  case (persisted w now)
  then show ?case by (simp add: window_ok_def mark_persisted_def)
qed

lemma soft_trigger_bounds: "threshold \<le> soft_trigger r n p threshold margin cap \<and> soft_trigger r n p threshold margin cap \<le> max threshold cap"
  by (simp add: soft_trigger_def split: option.split)

section \<open>Properties\<close>

text \<open>C25. In every window reachable by hydrating, enriching and persisting in any order and with any
  clock, the samples are ordered by time, none is later than the last observation and the deque
  stays within its bound; the statistics of an enrichment use only samples of the last 24 hours,
  and the soft triggers it sets lie between the fixed threshold and the larger of threshold and
  cap (rounded to four places).\<close>

theorem baseline_window_invariant:
  assumes "baseline_reach w" "enrich bs now idle t s w = (s', stats, observed, w')"
  shows "window_ok w' \<and> stats = baseline_stats (bw_samples w') \<and>
    list_all (\<lambda>x. now - PRESSURE_BASELINE_WINDOW_SECONDS \<le> fst x) (bw_samples w') \<and>
    (\<exists>mt it. memory_psi_soft_trigger s' = Some mt \<and> io_psi_soft_trigger s' = Some it \<and>
      py_round (pause_memory_psi t) 4 \<le> mt \<and> mt \<le> py_round (max (pause_memory_psi t) (bl_memory_cap bs)) 4 \<and>
      py_round (pause_io_psi t) 4 \<le> it \<and> it \<le> py_round (max (pause_io_psi t) (bl_io_cap bs)) 4)"
proof -
  obtain w1 where w1: "observe bs now idle t s (prune now w) = (w1, observed)" "w' = prune now w1"
    "stats = baseline_stats (bw_samples w')"
    "memory_psi_soft_trigger s' = Some (py_round (soft_trigger (ready stats) (memory_sample_count stats) (memory_p95 stats)
       (pause_memory_psi t) (bl_memory_margin bs) (bl_memory_cap bs)) 4)"
    "io_psi_soft_trigger s' = Some (py_round (soft_trigger (ready stats) (io_sample_count stats) (io_p95 stats)
       (pause_io_psi t) (bl_io_margin bs) (bl_io_cap bs)) 4)"
    using enrich_parts [OF assms(2)] by blast
  have ok: "window_ok w1" using observe_ok [OF prune_ok [OF baseline_reach_ok [OF assms(1)]] w1(1)] .
  have "list_all (\<lambda>x. now - PRESSURE_BASELINE_WINDOW_SECONDS \<le> fst x) (bw_samples w')"
    using prune_recent [OF ok, of _ now] w1(2) by (simp add: list_all_iff)
  then show ?thesis using prune_ok [OF ok] w1 soft_trigger_bounds by (auto intro!: py_round_mono)
qed

definition demo_thresholds :: pressure_thresholds where
  "demo_thresholds =
    \<lparr>warning_available_bytes = 300, pause_available_bytes = 200, resume_available_bytes = 400,
     warning_swap_free_ratio = 1/4, pause_swap_free_ratio = 1/5, critical_swap_free_ratio = 1/10,
     swap_activity_limit = 100, resume_swap_free_ratio = 1/4, pause_memory_psi = 1, pause_io_psi = 10,
     resume_memory_psi = 1/2, resume_io_psi = 5, pause_samples = 3, failure_samples = 3, resume_seconds = 60,
     memory_reserve_mode = ''fixed'', memory_reserve_ratio = None, memory_reserve_min_bytes = None,
     memory_reserve_max_bytes = None, detected_memory_total_bytes = None\<rparr>"

definition demo_idle_sample :: resource_sample where
  "demo_idle_sample =
    \<lparr>memory_total_bytes = 1000, memory_available_bytes = 800, swap_total_bytes = 0, swap_free_bytes = 0,
     memory_full_avg10 = Some 1, io_full_avg10 = Some 40, swap_in_bytes_per_second = None,
     swap_out_bytes_per_second = None, memory_available_change = None, cgroup_memory_max_delta = None,
     cgroup_memory_oom_delta = None, cgroup_memory_oom_kill_delta = None, foreground_p95_ms = None,
     foreground_sample_count = 0, foreground_sample_generation = 0, memory_psi_soft_trigger = None,
     io_psi_soft_trigger = None, sample_time = None\<rparr>"

definition demo_baseline_settings :: baseline_settings where
  "demo_baseline_settings = \<lparr>bl_memory_margin = 1/2, bl_io_margin = 3, bl_memory_cap = 5, bl_io_cap = 30\<rparr>"

theorem baseline_window_invariant_witness:
  "\<exists>s' stats w'. enrich demo_baseline_settings 100000 True demo_thresholds demo_idle_sample new_baseline = (s', stats, True, w') \<and>
     bw_samples w' = [(100000, Some 1, None)] \<and> window_ok w'"
proof -
  define w where "w = \<lparr>bw_samples = [(100000, Some 1, None)], bw_hydrated = False, bw_dirty = True,
    bw_last_persisted_at = 0, bw_last_observed_at = 100000\<rparr>"
  obtain s' stats b w' where e: "enrich demo_baseline_settings 100000 True demo_thresholds demo_idle_sample new_baseline = (s', stats, b, w')"
    by (metis prod_cases4)
  have p: "prune 100000 new_baseline = new_baseline" by (simp add: prune_def new_baseline_def)
  have o: "observe demo_baseline_settings 100000 True demo_thresholds demo_idle_sample new_baseline = (w, True)"
    by (simp add: observe_def new_baseline_def demo_baseline_settings_def demo_thresholds_def
        demo_idle_sample_def safe_host_def swap_hazard_def swap_free_ratio_def swap_activity_def learnable_def
        bounded_append_def baseline_maxlen_def w_def)
  have "w' = prune 100000 w \<and> b" using enrich_parts [OF e] unfolding p o by (metis prod.inject)
  moreover have "prune 100000 w = w" by (simp add: prune_def w_def)
  ultimately show ?thesis using e baseline_window_invariant [OF baseline_reach.start e] by (auto simp: w_def)
qed

lemma base_seconds_positive:
  "case base_slice_seconds (the (map_of RESOURCE_PROFILES (workload_profile_name w))) of None \<Rightarrow> True | Some b \<Rightarrow> 0 < b"
proof -
  have all: "list_all (\<lambda>p. case base_slice_seconds (snd p) of None \<Rightarrow> True | Some b \<Rightarrow> 0 < b) RESOURCE_PROFILES"
    by (simp add: RESOURCE_PROFILES_def profile_def)
  obtain p where p: "map_of RESOURCE_PROFILES (workload_profile_name w) = Some p"
    using workload_profile_known [of w] by (auto simp: dict_has_iff)
  then have "(workload_profile_name w, p) \<in> set RESOURCE_PROFILES" by (rule map_of_SomeD)
  then show ?thesis using all p by (auto simp: list_all_iff)
qed

text \<open>C26. A permitted slice always has at least one unit of work and a positive duration, within the
  base values of the profile and the caller's bounds, and is never permitted in critical mode or
  while the status is paused; a refused slice has no units, no time and a reason.\<close>

theorem slice_limits_bounded:
  "let l = profile_slice_limits cfg sn workload max_units max_seconds;
       base = the (map_of RESOURCE_PROFILES (workload_profile_name workload))
   in if sl_allowed l
      then 1 \<le> sl_work_units l \<and> sl_work_units l \<le> max 1 (base_work_units base) \<and>
        (case max_units of None \<Rightarrow> True | Some m \<Rightarrow> sl_work_units l \<le> max 1 m) \<and>
        (case sl_slice_seconds l of
           None \<Rightarrow> base_slice_seconds base = None \<and> max_seconds = None
         | Some x \<Rightarrow> 0 < x \<and>
             (case base_slice_seconds base of None \<Rightarrow> True | Some b \<Rightarrow> x \<le> b) \<and>
             (case max_seconds of None \<Rightarrow> True | Some m \<Rightarrow> x \<le> max (1/1000) m)) \<and>
        fst (resource_profile_permit sn workload) \<and> sl_controller_mode l \<noteq> ''critical'' \<and> sn_status sn \<noteq> Some ''paused''
      else sl_work_units l = 0 \<and> sl_slice_seconds l = Some 0 \<and> sl_reason l \<noteq> None"
proof -
  define base where "base = the (map_of RESOURCE_PROFILES (workload_profile_name workload))"
  define name where "name = workload_profile_name workload"
  obtain permitted pm where pm: "resource_profile_permit sn workload = (permitted, pm)" by (metis surj_pair)
  define mode where "mode = slice_controller_mode sn pm"
  define scale where "scale = max 0 (min 1 (case published_scale sn of None \<Rightarrow> 1 | Some x \<Rightarrow> x))"
  define scale' where "scale' = max (minimum_scale cfg) scale"
  define uc where "uc = unit_cap base max_units"
  define sc where "sc = seconds_cap base max_seconds"
  have uc: "1 \<le> uc" "uc \<le> max 1 (base_work_units base)" "case max_units of None \<Rightarrow> True | Some m \<Rightarrow> uc \<le> max 1 m"
    by (auto simp: uc_def unit_cap_def Let_def split: option.split)
  have sc: "case sc of None \<Rightarrow> base_slice_seconds base = None \<and> max_seconds = None
         | Some x \<Rightarrow> 0 < x \<and> (case base_slice_seconds base of None \<Rightarrow> True | Some b \<Rightarrow> x \<le> b) \<and>
             (case max_seconds of None \<Rightarrow> True | Some m \<Rightarrow> x \<le> max (1/1000) m)"
    using base_seconds_positive [of workload] unfolding sc_def seconds_cap_def base_def [symmetric]
    by (auto split: option.split option.splits)
  define u where "u = min uc (max 1 (enforced_units sn name base scale'))"
  define x where "x = (case sc of None \<Rightarrow> None | Some cap \<Rightarrow> Some (min cap (max (1/1000) (enforced_seconds sn name cap scale'))))"
  have u: "1 \<le> u" "u \<le> uc" using uc by (auto simp: u_def)
  have x: "case x of None \<Rightarrow> sc = None | Some y \<Rightarrow> 0 < y \<and> (\<exists>cap. sc = Some cap \<and> y \<le> cap)"
    using sc by (auto simp: x_def split: option.splits)
  define l where "l = profile_slice_limits cfg sn workload max_units max_seconds"
  define allowed where "allowed = (permitted \<and> mode \<noteq> ''critical'' \<and> sn_status sn \<noteq> Some ''paused'')"
  note l_def' = l_def [unfolded profile_slice_limits_def Let_def pm prod.case, folded name_def, folded base_def [folded name_def],
      folded mode_def uc_def sc_def scale_def, folded allowed_def scale'_def, folded u_def x_def]
  have base: "base = the (map_of RESOURCE_PROFILES name)" by (simp add: base_def name_def)
  consider (no) "\<not> allowed" | (shadow) "allowed" "\<not> soft_enforced sn name (slice_governance_mode sn pm)"
    | (enforced) "allowed" "soft_enforced sn name (slice_governance_mode sn pm)" by blast
  then show ?thesis
  proof cases
    case no
    then have "\<not> sl_allowed l \<and> sl_work_units l = 0 \<and> sl_slice_seconds l = Some 0 \<and> sl_reason l \<noteq> None"
      by (simp add: l_def')
    then show ?thesis unfolding Let_def l_def [symmetric] base_def [symmetric] pm fst_conv by simp
  next
    case shadow
    then have "sl_allowed l" "sl_work_units l = uc" "sl_slice_seconds l = sc" "sl_controller_mode l = mode"
      by (simp_all add: l_def')
    then show ?thesis unfolding Let_def l_def [symmetric] base_def [symmetric] pm fst_conv using uc sc shadow by (auto simp: allowed_def split: option.splits)
  next
    case enforced
    then have "sl_allowed l" "sl_work_units l = u" "sl_slice_seconds l = x" "sl_controller_mode l = mode"
      by (simp_all add: l_def')
    then show ?thesis unfolding Let_def l_def [symmetric] base_def [symmetric] pm fst_conv using uc sc u x enforced by (auto simp: allowed_def split: option.splits)
  qed
qed



lemma py_round_zero [simp]: "py_round 0 n = 0"
  by (simp add: py_round_def round_half_even_def)



end
