(* ===== verification/Search_Language.thy ===== *)
theory Search_Language
  imports Gallery_Prelude
begin

text \<open>
  The compound search language of \<^verbatim>\<open>backend/app/services/search_language.py\<close> with the source
  identities of \<^verbatim>\<open>source_search_identity.py\<close>: lexer, qualifier values, validation against the
  scope, canonical text, and the edits of the filter panel.

  Three functions are arguments, collected in \<open>search_env\<close>: \<^verbatim>\<open>urlparse(url).hostname\<close> (which may
  raise \<^verbatim>\<open>ValueError\<close>), the acceptance of a date text by \<^verbatim>\<open>datetime.fromisoformat\<close>, and the
  \<^verbatim>\<open>parse_search_url\<close> method of the registered source provider. Suggestions that come from a
  frozenset are listed in the order of its definition. The alphabet has only the ASCII colon.
\<close>

section \<open>Tables\<close>

definition SCOPE_TARGETS :: "(string, string list) dict" where
  "SCOPE_TARGETS =
    [(''global'', [''works'', ''creators'', ''tags'', ''repositories'', ''subscriptions'']),
     (''works'', [''works'']), (''creators'', [''creators'']), (''tags'', [''tags'']),
     (''repositories'', [''repositories'']), (''subscriptions'', [''subscriptions'']),
     (''tasks'', [''tasks'']), (''scheduler'', [''scheduler'']), (''creator-picker'', [''creators''])]"

definition TYPE_TARGETS :: "(string, string) dict" where
  "TYPE_TARGETS =
    [(''work'', ''works''), (''creator'', ''creators''), (''tag'', ''tags''),
     (''repo'', ''repositories''), (''subscription'', ''subscriptions'')]"

definition TYPE_ALIASES :: "(string, string) dict" where
  "TYPE_ALIASES =
    [(''works'', ''work''), (''creators'', ''creator''), (''tags'', ''tag''), (''repository'', ''repo''),
     (''repositories'', ''repo''), (''repos'', ''repo''), (''subscriptions'', ''subscription'')]"

definition QUALIFIER_KEYS :: "string list" where
  "QUALIFIER_KEYS =
    [''type'', ''repo'', ''creator'', ''tag'', ''source'', ''is'', ''has'', ''status'', ''kind'', ''posted'',
     ''created'', ''updated'', ''synced'', ''sort'', ''uid'', ''pid'', ''url'']"

definition NEGATABLE_KEYS :: "string list" where
  "NEGATABLE_KEYS = [''repo'', ''creator'', ''tag'', ''source'', ''is'', ''has'', ''uid'', ''pid'', ''url'']"

definition IS_TARGETS :: "(string, string list) dict" where
  "IS_TARGETS =
    [(''favorite'', [''works'', ''creators'']), (''nsfw'', [''works'']), (''sfw'', [''works'']),
     (''ai'', [''works'']), (''human'', [''works'']), (''visible'', [''works'']), (''trashed'', [''works'']),
     (''active'', [''creators'', ''subscriptions'']), (''inactive'', [''creators'', ''subscriptions'']),
     (''enabled'', [''repositories'']), (''disabled'', [''repositories'', ''scheduler'']),
     (''auth-ok'', [''repositories'']), (''auth-error'', [''repositories'']),
     (''sync-enabled'', [''subscriptions'']), (''sync-disabled'', [''subscriptions'']),
     (''never-synced'', [''subscriptions'']), (''due'', [''scheduler'']), (''blocked'', [''scheduler'']),
     (''waiting'', [''scheduler'']), (''manual'', [''scheduler''])]"

definition HAS_TARGETS :: "(string, string list) dict" where
  "HAS_TARGETS =
    [(''tags'', [''works'']), (''description'', [''works'']), (''multiple-assets'', [''works'']),
     (''image'', [''works'']), (''animation'', [''works'']), (''video'', [''works'']),
     (''subscription'', [''creators'']), (''repository'', [''creators'']), (''danbooru'', [''creators'']),
     (''last-sync'', [''repositories'', ''subscriptions'']), (''source-creator-id'', [''repositories''])]"

definition QUALIFIER_TARGETS :: "(string, string list) dict" where
  "QUALIFIER_TARGETS =
    [(''repo'', [''works'', ''repositories'', ''subscriptions'', ''tasks'', ''scheduler'']),
     (''creator'', [''works'', ''creators'', ''repositories'', ''subscriptions'', ''tasks'', ''scheduler'']),
     (''tag'', [''works'', ''tags'']),
     (''source'', [''works'', ''repositories'', ''subscriptions'', ''tasks'', ''scheduler'']),
     (''status'', [''tasks'']), (''kind'', [''tasks'']), (''posted'', [''works'']),
     (''created'', [''works'', ''creators'', ''tags'', ''repositories'', ''subscriptions'', ''tasks'']),
     (''updated'', [''works'', ''creators'', ''tags'', ''repositories'', ''subscriptions'', ''tasks'']),
     (''synced'', [''repositories'', ''subscriptions'']),
     (''uid'', [''works'', ''creators'', ''repositories'', ''subscriptions'']),
     (''pid'', [''works'']), (''url'', [''works'', ''creators'', ''repositories'', ''subscriptions''])]"

definition SORT_TARGETS :: "(string, string list) dict" where
  "SORT_TARGETS =
    (let dated = [''works'', ''creators'', ''tags'', ''repositories'', ''subscriptions'', ''tasks''];
         named = [''creators'', ''tags'', ''repositories'', ''subscriptions'']
     in [(''relevance'', dict_get SCOPE_TARGETS ''global'' [] @ [''tasks'', ''scheduler'']),
         (''heat-desc'', [''works'']), (''random'', [''works'']),
         (''posted-desc'', [''works'']), (''posted-asc'', [''works'']),
         (''created-desc'', dated), (''created-asc'', dated), (''updated-desc'', dated), (''updated-asc'', dated),
         (''name-asc'', named), (''name-desc'', named), (''usage-desc'', [''tags'']),
         (''last-sync-desc'', [''repositories'', ''subscriptions'']),
         (''last-sync-asc'', [''repositories'', ''subscriptions'']),
         (''title-asc'', [''works'']), (''title-desc'', [''works''])])"

definition TASK_STATUSES :: "string list" where
  "TASK_STATUSES =
    [''enqueued'', ''pending'', ''running'', ''downloading'', ''downloaded'', ''importing'', ''complete'',
     ''failed'', ''stale'', ''paused'', ''cancelled'']"

definition TASK_KINDS :: "string list" where
  "TASK_KINDS = [''download'', ''import'', ''admin'']"

definition CONFLICTING_IS_VALUES :: "string list list" where
  "CONFLICTING_IS_VALUES =
    [[''nsfw'', ''sfw''], [''ai'', ''human''], [''visible'', ''trashed''], [''active'', ''inactive''],
     [''enabled'', ''disabled''], [''auth-ok'', ''auth-error''], [''sync-enabled'', ''sync-disabled'']]"

definition IDENTITY_SOURCES :: "string list" where
  "IDENTITY_SOURCES =
    [''pixiv'', ''x'', ''iwara'', ''danbooru'', ''weibo'', ''bilibili'', ''pinterest'', ''lofter'', ''manual'']"

definition PUBLIC_URL_SOURCES :: "string list" where
  "PUBLIC_URL_SOURCES =
    [''pixiv'', ''x'', ''iwara'', ''danbooru'', ''weibo'', ''bilibili'', ''pinterest'', ''lofter'']"

lemmas search_tables [table_defs] =
  SCOPE_TARGETS_def TYPE_TARGETS_def TYPE_ALIASES_def QUALIFIER_KEYS_def NEGATABLE_KEYS_def
  IS_TARGETS_def HAS_TARGETS_def QUALIFIER_TARGETS_def SORT_TARGETS_def TASK_STATUSES_def
  TASK_KINDS_def CONFLICTING_IS_VALUES_def IDENTITY_SOURCES_def PUBLIC_URL_SOURCES_def

section \<open>Tokens and errors\<close>

record lexeme =
  lx_raw :: string
  lx_start :: nat
  lx_end :: nat

record diagnostic =
  dg_code :: string
  dg_start :: nat
  dg_end :: nat
  dg_token :: string
  dg_suggestions :: "string list"

text \<open>Messages are left out of diagnostics; a plain \<^verbatim>\<open>ValueError\<close> carries none either.\<close>

datatype search_error = SearchQueryError diagnostic | SearchValueError

datatype search_token =
    SearchTerm (tk_value: string) (tk_quoted: bool) (tk_start: nat) (tk_end: nat)
  | SearchQualifier (tk_key: string) (tk_value: string) (tk_negated: bool) (tk_quoted: bool)
      (tk_start: nat) (tk_end: nat)

definition lex_error :: "string \<Rightarrow> lexeme \<Rightarrow> string list \<Rightarrow> search_error" where
  "lex_error code lx suggestions =
    SearchQueryError \<lparr>dg_code = code, dg_start = lx_start lx, dg_end = lx_end lx, dg_token = lx_raw lx,
      dg_suggestions = suggestions\<rparr>"

record search_env =
  env_hostname :: "string \<Rightarrow> unit + string option"
  env_fromiso :: "string \<Rightarrow> bool"
  env_provider_url :: "string \<Rightarrow> string \<Rightarrow> (string \<times> string) option"

section \<open>The lexer\<close>

text \<open>
  The inner loop: one lexeme from a position that is not white space, with the flags
  \<^verbatim>\<open>quoted\<close> and \<^verbatim>\<open>escaped\<close>; the rest of the text and whether a quote is open at its end.
\<close>

fun lex_token :: "bool \<Rightarrow> bool \<Rightarrow> string \<Rightarrow> string \<times> string \<times> bool" where
  "lex_token quoted escaped [] = ([], [], quoted)"
| "lex_token quoted escaped (c # cs) =
    (if \<not> escaped \<and> \<not> (c = CHR 0x5C \<and> quoted) \<and> c \<noteq> CHR 0x22 \<and> py_isspace c \<and> \<not> quoted
     then ([], c # cs, quoted)
     else
       let (quoted', escaped') =
         (if escaped then (quoted, False)
          else if c = CHR 0x5C \<and> quoted then (quoted, True)
          else if c = CHR 0x22 then (\<not> quoted, False)
          else (quoted, False));
           (raw, rest, open_quote) = lex_token quoted' escaped' cs
       in (c # raw, rest, open_quote))"

lemma lex_token_split: "lex_token q e s = (raw, rest, q') \<Longrightarrow> s = raw @ rest"
proof (induction s arbitrary: q e raw)
  case (Cons c cs)
  then show ?case by (auto simp: Let_def split: if_splits prod.splits)
qed simp

lemma lex_token_progress: "\<not> py_isspace c \<Longrightarrow> lex_token False False (c # cs) = (raw, rest, q') \<Longrightarrow> raw \<noteq> []"
  by (auto simp: Let_def split: if_splits prod.splits)

function lex_from :: "nat \<Rightarrow> string \<Rightarrow> search_error + lexeme list" where
  "lex_from index s =
    (let start = index + length (takeWhile py_isspace s);
         body = dropWhile py_isspace s
     in if body = [] then Inr []
        else case lex_token False False body of
               (raw, rest, open_quote) \<Rightarrow>
                 let stop = start + length raw;
                     lx = \<lparr>lx_raw = raw, lx_start = start, lx_end = stop\<rparr>
                 in if open_quote then Inl (lex_error ''unclosed_quote'' lx [])
                    else bindE (lex_from stop rest) (\<lambda>lxs. Inr (lx # lxs)))"
  by pat_completeness auto

termination lex_from
proof (relation "measure (\<lambda>(index, s). length s)", goal_cases)
  case 1
  then show ?case by simp
next
  case (2 index s start body raw rest' rest open_quote stop lx)
  from 2 have "body \<noteq> []" by simp
  then obtain c cs where body: "body = c # cs" by (meson neq_Nil_conv)
  with 2 have "\<not> py_isspace c" by (metis hd_dropWhile list.sel(1))
  with 2 body have "raw \<noteq> []" "body = raw @ rest"
    using lex_token_progress lex_token_split by metis+
  then have "length rest < length body" by simp
  also have "length body \<le> length s" using 2 by (simp add: length_dropWhile_le)
  finally show ?case by simp
qed

definition lex :: "string \<Rightarrow> search_error + lexeme list" where
  "lex query = lex_from 0 query"

declare lex_from.simps [simp del]

section \<open>Values and canonical text\<close>

fun find_colon_from :: "nat \<Rightarrow> bool \<Rightarrow> bool \<Rightarrow> string \<Rightarrow> nat option" where
  "find_colon_from i quoted escaped [] = None"
| "find_colon_from i quoted escaped (c # cs) =
    (if escaped then find_colon_from (Suc i) quoted False cs
     else if c = CHR 0x5C \<and> quoted then find_colon_from (Suc i) quoted True cs
     else if c = CHR 0x22 then find_colon_from (Suc i) (\<not> quoted) False cs
     else if c = CHR '':'' \<and> \<not> quoted then Some i
     else find_colon_from (Suc i) quoted False cs)"

definition find_colon :: "string \<Rightarrow> nat option" where
  "find_colon v = find_colon_from 0 False False v"

fun unescape_value :: "bool \<Rightarrow> string \<Rightarrow> string" where
  "unescape_value escaped [] = (if escaped then [CHR 0x5C] else [])"
| "unescape_value escaped (c # cs) =
    (if escaped then c # unescape_value False cs
     else if c = CHR 0x5C then unescape_value True cs
     else c # unescape_value False cs)"

definition decode_value :: "string \<Rightarrow> lexeme \<Rightarrow> search_error + (string \<times> bool)" where
  "decode_value raw lx =
    (if raw = [] then Inl (lex_error ''missing_value'' lx [])
     else if hd raw \<noteq> CHR 0x22
     then if CHR 0x22 \<in> set raw then Inl (lex_error ''invalid_quote'' lx []) else Inr (raw, False)
     else if length raw < 2 \<or> last raw \<noteq> CHR 0x22 then Inl (lex_error ''unclosed_quote'' lx [])
     else let v = unescape_value False (butlast (tl raw))
          in if v = [] then Inl (lex_error ''missing_value'' lx []) else Inr (v, True))"

definition escape_value :: "string \<Rightarrow> string" where
  "escape_value v = concat (map (\<lambda>c. if c = CHR 0x5C \<or> c = CHR 0x22 then [CHR 0x5C, c] else [c]) v)"

definition needs_quotes :: "string \<Rightarrow> bool" where
  "needs_quotes v \<longleftrightarrow> v = [] \<or> list_ex py_isspace v \<or> list_ex (\<lambda>c. c = CHR 0x22 \<or> c = CHR 0x5C) v"

definition canonical_value :: "string \<Rightarrow> string" where
  "canonical_value v = (if needs_quotes v then CHR 0x22 # escape_value v @ [CHR 0x22] else v)"

fun canonical_token :: "search_token \<Rightarrow> string" where
  "canonical_token (SearchTerm v quoted s e) =
     (if quoted \<or> list_ex py_isspace v then canonical_value v else v)"
| "canonical_token (SearchQualifier key v negated quoted s e) =
     (let value0 = canonical_value v;
          value = (if key = ''url'' \<and> \<not> startswith value0 [CHR 0x22]
                   then CHR 0x22 # v @ [CHR 0x22] else value0)
      in (if negated then ''-'' else []) @ key @ '':'' @ value)"

definition token_error :: "string \<Rightarrow> search_token \<Rightarrow> string list \<Rightarrow> search_error" where
  "token_error code tk suggestions =
    SearchQueryError \<lparr>dg_code = code, dg_start = tk_start tk, dg_end = tk_end tk,
      dg_token = canonical_token tk, dg_suggestions = suggestions\<rparr>"

section \<open>Source identities and URLs\<close>

definition rstrip_dots :: "string \<Rightarrow> string" where
  "rstrip_dots s = rev (dropWhile (\<lambda>c. c = CHR ''.'') (rev s))"

definition source_for_hostname :: "string \<Rightarrow> string option" where
  "source_for_hostname hostname =
    (let host = py_lower (rstrip_dots hostname)
     in if host = ''pixiv.net'' \<or> endswith host ''.pixiv.net'' then Some ''pixiv''
        else if host = ''x.com'' \<or> host = ''twitter.com'' \<or> endswith host ''.x.com'' \<or> endswith host ''.twitter.com''
        then Some ''x''
        else if host = ''iwara.tv'' \<or> endswith host ''.iwara.tv'' then Some ''iwara''
        else if host = ''danbooru.donmai.us'' then Some ''danbooru''
        else if host = ''weibo.com'' \<or> host = ''weibo.cn'' \<or> endswith host ''.weibo.com'' \<or> endswith host ''.weibo.cn''
        then Some ''weibo''
        else if host = ''bilibili.com'' \<or> endswith host ''.bilibili.com'' then Some ''bilibili''
        else if startswith host ''pinterest.'' \<or> startswith host ''www.pinterest.'' then Some ''pinterest''
        else if endswith host ''.lofter.com'' then Some ''lofter''
        else None)"

definition normalize_source_name :: "string \<Rightarrow> string" where
  "normalize_source_name v = (let n = py_lower (py_strip v) in if n = ''twitter'' then ''x'' else n)"

text \<open>\<open>None\<close> where the code raises \<^verbatim>\<open>ValueError\<close>.\<close>

definition parse_source_identity :: "string \<Rightarrow> (string \<times> string) option" where
  "parse_source_identity v =
    (if CHR ''/'' \<notin> set v then None
     else let source = normalize_source_name (takeWhile (\<lambda>c. c \<noteq> CHR ''/'') v);
              identity = py_strip (tl (dropWhile (\<lambda>c. c \<noteq> CHR ''/'') v))
          in if source \<notin> set IDENTITY_SOURCES then None
             else if identity = [] then None
             else if list_ex py_isspace identity then None
             else Some (source, identity))"

record parsed_url =
  pu_source :: string
  pu_kind :: string
  pu_normalized :: string

definition is_http :: "string \<Rightarrow> bool" where
  "is_http v \<longleftrightarrow> startswith (py_lower v) ''http://'' \<or> startswith (py_lower v) ''https://''"

definition parse_source_url :: "search_env \<Rightarrow> string \<Rightarrow> search_error + parsed_url option" where
  "parse_source_url env v =
    (let candidate = py_strip v
     in if \<not> is_http candidate then Inr None
        else case env_hostname env candidate of
          Inl _ \<Rightarrow> Inl SearchValueError
        | Inr host \<Rightarrow>
            (case source_for_hostname (case host of None \<Rightarrow> [] | Some h \<Rightarrow> h) of
               None \<Rightarrow> Inr None
             | Some source \<Rightarrow>
                 if source \<notin> set PUBLIC_URL_SOURCES then Inr None
                 else case env_provider_url env source candidate of
                   None \<Rightarrow> Inr None
                 | Some (kind, normalized) \<Rightarrow>
                     Inr (Some \<lparr>pu_source = source, pu_kind = kind, pu_normalized = normalized\<rparr>)))"

section \<open>Validation of one qualifier\<close>

definition is_ascii_digit :: "char \<Rightarrow> bool" where
  "is_ascii_digit c \<longleftrightarrow> 48 \<le> (of_char c :: nat) \<and> (of_char c :: nat) \<le> 57"

definition iso_date_shape :: "string \<Rightarrow> bool" where
  "iso_date_shape d \<longleftrightarrow> length d = 10 \<and>
     list_all is_ascii_digit (take 4 d) \<and> d ! 4 = CHR ''-'' \<and>
     list_all is_ascii_digit (take 2 (drop 5 d)) \<and> d ! 7 = CHR ''-'' \<and>
     list_all is_ascii_digit (drop 8 d)"

text \<open>The group \<^verbatim>\<open>value\<close> of \<^verbatim>\<open>DATE_RE\<close> on a stripped text.\<close>

definition date_match :: "string \<Rightarrow> string option" where
  "date_match v =
    (let body =
      (if startswith v ''<='' \<or> startswith v ''>='' then drop 2 v
       else if startswith v ''<'' \<or> startswith v ''>'' \<or> startswith v ''='' then drop 1 v
       else v);
         tail = drop 10 body
     in if iso_date_shape (take 10 body) \<and>
           (tail = [] \<or> (hd tail \<in> {CHR ''T'', CHR ''t''} \<and> tl tail \<noteq> [] \<and> \<not> list_ex py_isspace (tl tail)))
        then Some body else None)"

definition replace_zulu :: "string \<Rightarrow> string" where
  "replace_zulu v = concat (map (\<lambda>c. if c = CHR ''Z'' \<or> c = CHR ''z'' then ''+00:00'' else [c]) v)"

definition parse_date :: "search_env \<Rightarrow> string \<Rightarrow> lexeme \<Rightarrow> search_error + unit" where
  "parse_date env v lx =
    (case date_match v of
       None \<Rightarrow> Inl (lex_error ''invalid_date'' lx [''>=2026-01-01'', ''<2026-08-01''])
     | Some d \<Rightarrow>
         if env_fromiso env (replace_zulu d) then Inr () else Inl (lex_error ''invalid_date'' lx []))"

definition identity_suggestions :: "string list" where
  "identity_suggestions =
    take 5 (map (\<lambda>source. source @ ''/123'') (filter (\<lambda>source. source \<noteq> ''manual'') (sort IDENTITY_SOURCES)))"

definition check_member :: "string \<Rightarrow> string list \<Rightarrow> lexeme \<Rightarrow> search_error + string" where
  "check_member v known lx =
    (if v \<in> set known then Inr v else Inl (lex_error ''invalid_value'' lx known))"

text \<open>The validated value of a qualifier.\<close>

definition validated_value :: "search_env \<Rightarrow> string \<Rightarrow> string \<Rightarrow> lexeme \<Rightarrow> search_error + string" where
  "validated_value env key raw lx =
    (let v = py_strip raw
     in if key = ''type'' then check_member (dict_get TYPE_ALIASES (py_lower v) (py_lower v)) (map fst TYPE_TARGETS) lx
        else if key = ''is'' then check_member (py_lower v) (map fst IS_TARGETS) lx
        else if key = ''has'' then check_member (py_lower v) (map fst HAS_TARGETS) lx
        else if key = ''sort'' then check_member (py_lower v) (map fst SORT_TARGETS) lx
        else if key = ''status'' then check_member (py_lower v) TASK_STATUSES lx
        else if key = ''kind'' then check_member (py_lower v) TASK_KINDS lx
        else if key \<in> {''posted'', ''created'', ''updated'', ''synced''}
        then bindE (parse_date env v lx) (\<lambda>_. Inr v)
        else if key = ''source'' then Inr (if py_lower v = ''twitter'' then ''x'' else py_lower v)
        else if key \<in> {''uid'', ''pid''}
        then (case parse_source_identity v of
                None \<Rightarrow> Inl (lex_error ''invalid_identity'' lx identity_suggestions)
              | Some (source, identity) \<Rightarrow> Inr (source @ ''/'' @ identity))
        else if key = ''url''
        then bindE (parse_source_url env v) (\<lambda>parsed.
               case parsed of
                 None \<Rightarrow> Inl (lex_error ''unsupported_url'' lx [])
               | Some pu \<Rightarrow> Inr (pu_normalized pu))
        else Inr v)"

definition validate_value :: "search_env \<Rightarrow> search_token \<Rightarrow> lexeme \<Rightarrow> search_error + search_token" where
  "validate_value env tk lx =
    bindE (validated_value env (tk_key tk) (tk_value tk) lx) (\<lambda>v.
      Inr (SearchQualifier (tk_key tk) v (tk_negated tk) (tk_quoted tk) (tk_start tk) (tk_end tk)))"

section \<open>Validation of a query\<close>

definition is_qualifier :: "search_token \<Rightarrow> bool" where
  "is_qualifier tk \<longleftrightarrow> (case tk of SearchTerm _ _ _ _ \<Rightarrow> False | SearchQualifier _ _ _ _ _ _ \<Rightarrow> True)"

definition has_key :: "string \<Rightarrow> search_token \<Rightarrow> bool" where
  "has_key key tk \<longleftrightarrow> is_qualifier tk \<and> tk_key tk = key"

definition targets_for_token :: "search_env \<Rightarrow> search_token \<Rightarrow> search_error + string list option" where
  "targets_for_token env tk =
    (let key = tk_key tk; v = tk_value tk
     in if key = ''type'' then Inr (Some [dict_get TYPE_TARGETS v []])
        else if key = ''is'' then Inr (Some (dict_get IS_TARGETS v []))
        else if key = ''has'' then Inr (Some (dict_get HAS_TARGETS v []))
        else if key = ''sort'' then Inr (Some (dict_get SORT_TARGETS v []))
        else if key = ''url''
        then bindE (parse_source_url env v) (\<lambda>parsed.
               case parsed of
                 Some pu \<Rightarrow> if pu_kind pu = ''work'' then Inr (Some [''works'']) else Inr (map_of QUALIFIER_TARGETS key)
               | None \<Rightarrow> Inr (map_of QUALIFIER_TARGETS key))
        else Inr (map_of QUALIFIER_TARGETS key))"

text \<open>The loop over the qualifiers: the targets that remain.\<close>

fun narrow_targets :: "search_env \<Rightarrow> bool \<Rightarrow> search_token list \<Rightarrow> string list \<Rightarrow> search_error + string list" where
  "narrow_targets env narrow [] allowed = Inr allowed"
| "narrow_targets env narrow (tk # tks) allowed =
    (if tk_key tk = ''type'' then narrow_targets env narrow tks allowed
     else bindE (targets_for_token env tk) (\<lambda>targets.
       case targets of
         None \<Rightarrow> narrow_targets env narrow tks allowed
       | Some ts \<Rightarrow>
           let compatible = filter (\<lambda>t. t \<in> set ts) allowed
           in if compatible = [] then Inl (token_error ''qualifier_not_available'' tk [])
              else narrow_targets env narrow tks (if narrow then compatible else allowed)))"

definition check_types :: "string list \<Rightarrow> search_token list \<Rightarrow> search_error + string list" where
  "check_types allowed quals =
    (let type_tokens = filter (has_key ''type'') quals;
         requested = map (\<lambda>tk. dict_get TYPE_TARGETS (tk_value tk) []) type_tokens
     in if type_tokens = [] then Inr allowed
        else if list_ex (\<lambda>t. t \<notin> set allowed) requested
        then Inl (token_error ''type_not_available'' (hd type_tokens)
               (map (\<lambda>p. ''type:'' @ fst p) (filter (\<lambda>p. snd p \<in> set allowed) TYPE_TARGETS)))
        else Inr (filter (\<lambda>t. t \<in> set requested) allowed))"

definition conflict_found :: "search_token list \<Rightarrow> string list \<Rightarrow> string list" where
  "conflict_found quals conflict =
    filter (\<lambda>v. list_ex (\<lambda>tk. tk_key tk = ''is'' \<and> \<not> tk_negated tk \<and> tk_value tk = v) quals) conflict"

fun check_conflicts :: "search_token list \<Rightarrow> string list list \<Rightarrow> search_error + unit" where
  "check_conflicts quals [] = Inr ()"
| "check_conflicts quals (conflict # rest) =
    (let found = conflict_found quals conflict
     in if 1 < length found
        then Inl (token_error ''conflicting_values''
               (hd (filter (\<lambda>tk. tk_key tk = ''is'' \<and> tk_value tk \<in> set found) quals)) [])
        else check_conflicts quals rest)"

text \<open>Of several overlapping pairs the code takes an arbitrary one; here it is the first.\<close>

definition check_overlap :: "search_token list \<Rightarrow> search_error + unit" where
  "check_overlap quals =
    (case List.find (\<lambda>a. \<not> tk_negated a \<and>
            list_ex (\<lambda>b. tk_negated b \<and> tk_key b = tk_key a \<and> tk_value b = tk_value a) quals) quals of
       None \<Rightarrow> Inr ()
     | Some a \<Rightarrow>
         Inl (token_error ''conflicting_values''
           (hd (filter (\<lambda>tk. tk_key tk = tk_key a \<and> tk_value tk = tk_value a) quals)) []))"

definition check_sort :: "search_token list \<Rightarrow> search_token list \<Rightarrow> search_error + unit" where
  "check_sort tokens quals =
    (let sort_tokens = filter (has_key ''sort'') quals
     in if 1 < length sort_tokens then Inl (token_error ''duplicate_sort'' (sort_tokens ! 1) [])
        else if sort_tokens \<noteq> [] \<and> tk_value (hd sort_tokens) = ''relevance'' \<and> list_all is_qualifier tokens
        then Inl (token_error ''relevance_requires_text'' (hd sort_tokens) [])
        else Inr ())"

definition validate_query :: "search_env \<Rightarrow> search_token list \<Rightarrow> string \<Rightarrow> search_error + string list" where
  "validate_query env tokens scope =
    (let scope_targets = dict_get SCOPE_TARGETS scope [];
         quals = filter is_qualifier tokens
     in bindE (check_types scope_targets quals) (\<lambda>allowed0.
        bindE (narrow_targets env (scope = ''global'' \<and> \<not> list_ex (has_key ''type'') quals) quals allowed0) (\<lambda>allowed.
        bindE (check_conflicts quals CONFLICTING_IS_VALUES) (\<lambda>_.
        bindE (check_overlap quals) (\<lambda>_.
        bindE (check_sort tokens quals) (\<lambda>_.
          if allowed = []
          then Inl (token_error ''no_compatible_type''
                 (if quals \<noteq> [] then hd quals else SearchTerm [] False 0 0) [])
          else Inr (filter (\<lambda>t. t \<in> set allowed) scope_targets)))))))"

section \<open>Parsing\<close>

definition is_ascii_letter :: "char \<Rightarrow> bool" where
  "is_ascii_letter c \<longleftrightarrow> (let n = of_char c :: nat in 65 \<le> n \<and> n \<le> 90 \<or> 97 \<le> n \<and> n \<le> 122)"

definition key_shape :: "string \<Rightarrow> bool" where
  "key_shape key \<longleftrightarrow> key \<noteq> [] \<and>
     is_ascii_letter (hd key) \<and> list_all (\<lambda>c. is_ascii_letter c \<or> is_ascii_digit c \<or> c = CHR ''-'') (tl key)"

text \<open>\<open>value.upper() == "OR"\<close>\<close>

definition is_or_word :: "string \<Rightarrow> bool" where
  "is_or_word v \<longleftrightarrow> py_lower v = ''or''"

definition parse_term :: "lexeme \<Rightarrow> search_error + search_token" where
  "parse_term lx =
    bindE (decode_value (lx_raw lx) lx) (\<lambda>(v, quoted).
      if \<not> quoted \<and> is_or_word v then Inl (lex_error ''unsupported_operator'' lx [])
      else if \<not> quoted \<and> (CHR ''('' \<in> set v \<or> CHR '')'' \<in> set v) then Inl (lex_error ''unsupported_grouping'' lx [])
      else Inr (SearchTerm v quoted (lx_start lx) (lx_end lx)))"

definition parse_qualifier :: "search_env \<Rightarrow> lexeme \<Rightarrow> bool \<Rightarrow> string \<Rightarrow> string \<Rightarrow> search_error + search_token" where
  "parse_qualifier env lx negated key raw =
    (if key \<notin> set QUALIFIER_KEYS then Inl (lex_error ''unknown_qualifier'' lx QUALIFIER_KEYS)
     else if negated \<and> key \<notin> set NEGATABLE_KEYS then Inl (lex_error ''invalid_negation'' lx [])
     else bindE (decode_value raw lx) (\<lambda>(v, quoted).
            validate_value env (SearchQualifier key v negated quoted (lx_start lx) (lx_end lx)) lx))"

definition parse_lexeme :: "search_env \<Rightarrow> lexeme \<Rightarrow> search_error + search_token" where
  "parse_lexeme env lx =
    (let raw = lx_raw lx;
         negated = startswith raw ''-'';
         raw_url = (if negated then tl raw else raw);
         key_start = (if negated then 1 else 0)
     in bindE (parse_source_url env raw_url) (\<lambda>parsed.
          if is_http raw_url
          then (case parsed of
                  None \<Rightarrow> Inl (lex_error ''unsupported_url'' lx [])
                | Some pu \<Rightarrow>
                    Inr (SearchQualifier ''url'' (pu_normalized pu) negated True (lx_start lx) (lx_end lx)))
          else case find_colon raw of
            Some colon_at \<Rightarrow>
              if key_start < colon_at \<and> key_shape (py_lower (drop key_start (take colon_at raw)))
              then parse_qualifier env lx negated (py_lower (drop key_start (take colon_at raw))) (drop (colon_at + 1) raw)
              else parse_term lx
          | None \<Rightarrow> parse_term lx))"

record search_query =
  sq_raw :: string
  sq_canonical :: string
  sq_scope :: string
  sq_tokens :: "search_token list"
  sq_targets :: "string list"

fun join_words :: "string list \<Rightarrow> string" where
  "join_words [] = []"
| "join_words [w] = w"
| "join_words (w # v # ws) = w @ '' '' @ join_words (v # ws)"

definition canonical_text :: "search_token list \<Rightarrow> string" where
  "canonical_text tokens = join_words (map canonical_token tokens)"

definition parse_search_query :: "search_env \<Rightarrow> string \<Rightarrow> string \<Rightarrow> search_error + search_query" where
  "parse_search_query env query scope =
    (if \<not> dict_has SCOPE_TARGETS scope then Inl SearchValueError
     else bindE (lex query) (\<lambda>lxs.
          bindE (mapE (parse_lexeme env) lxs) (\<lambda>tokens.
          bindE (validate_query env tokens scope) (\<lambda>targets.
            Inr \<lparr>sq_raw = query, sq_canonical = canonical_text tokens, sq_scope = scope,
                 sq_tokens = tokens, sq_targets = targets\<rparr>))))"

definition query_values :: "search_query \<Rightarrow> string \<Rightarrow> bool option \<Rightarrow> string list" where
  "query_values q key negated =
    map tk_value (filter (\<lambda>tk. has_key key tk \<and> (case negated of None \<Rightarrow> True | Some b \<Rightarrow> tk_negated tk = b)) (sq_tokens q))"

section \<open>Editing\<close>

definition same_qualifier :: "search_token \<Rightarrow> search_token \<Rightarrow> bool" where
  "same_qualifier probe tk \<longleftrightarrow> is_qualifier tk \<and> tk_key tk = tk_key probe \<and> tk_value tk = tk_value probe
     \<and> tk_negated tk = tk_negated probe"

definition probe_text :: "bool \<Rightarrow> string \<Rightarrow> string \<Rightarrow> string" where
  "probe_text negated key v = (if negated then ''-'' else []) @ key @ '':'' @ canonical_value v"

text \<open>\<^verbatim>\<open>qualifiers[0]\<close> of the parsed probe (an \<^verbatim>\<open>IndexError\<close> when there is none).\<close>

definition parse_probe :: "search_env \<Rightarrow> string \<Rightarrow> string \<Rightarrow> search_error + search_token" where
  "parse_probe env txt scope =
    bindE (parse_search_query env txt scope) (\<lambda>q.
      case filter is_qualifier (sq_tokens q) of [] \<Rightarrow> Inl SearchValueError | tk # _ \<Rightarrow> Inr tk)"

fun remove_first :: "('a \<Rightarrow> bool) \<Rightarrow> 'a list \<Rightarrow> 'a list" where
  "remove_first P [] = []"
| "remove_first P (x # xs) = (if P x then xs else x # remove_first P xs)"

definition probe_tokens :: "search_token option \<Rightarrow> search_token list" where
  "probe_tokens probe = (case probe of None \<Rightarrow> [] | Some p \<Rightarrow> [p])"

definition edit_tokens ::
  "search_env \<Rightarrow> string \<Rightarrow> string \<Rightarrow> string option \<Rightarrow> string \<Rightarrow> bool \<Rightarrow> string list \<Rightarrow> search_token option
   \<Rightarrow> search_token list \<Rightarrow> search_error + search_token list" where
  "edit_tokens env scope key v operation negated replace_values probe existing =
    (if operation = ''set''
     then Inr (filter (\<lambda>tk. \<not> (has_key key tk \<and> tk_negated tk = negated)) existing @ probe_tokens probe)
     else if operation = ''add''
     then Inr (case probe of
                 None \<Rightarrow> existing
               | Some p \<Rightarrow> if list_ex (same_qualifier p) existing then existing else existing @ [p])
     else if operation = ''toggle''
     then (case probe of
             None \<Rightarrow> Inl SearchValueError
           | Some p \<Rightarrow> Inr (if list_ex (same_qualifier p) existing
                            then remove_first (same_qualifier p) existing else existing @ [p]))
     else if operation = ''remove''
     then Inr (filter (\<lambda>tk. \<not> (has_key key tk \<and>
                  (case v of None \<Rightarrow> True
                   | Some x \<Rightarrow> tk_value tk = (case probe of Some p \<Rightarrow> tk_value p | None \<Rightarrow> x) \<and> tk_negated tk = negated))) existing)
     else if operation = ''replace-group''
     then bindE (mapE (\<lambda>item. parse_probe env (probe_text False key item) scope) replace_values) (\<lambda>probes.
            Inr (filter (\<lambda>tk. \<not> (has_key key tk \<and> tk_value tk \<in> set (map tk_value probes) \<and> tk_negated tk = negated)) existing
                 @ probe_tokens probe))
     else Inl SearchValueError)"

definition compose_search_query ::
  "search_env \<Rightarrow> string \<Rightarrow> string \<Rightarrow> string \<Rightarrow> string option \<Rightarrow> string \<Rightarrow> bool \<Rightarrow> string list
   \<Rightarrow> search_error + search_query" where
  "compose_search_query env query scope key v operation negated replace_values =
    bindE (parse_search_query env query scope) (\<lambda>parsed.
      let k = py_lower key
      in if k \<notin> set QUALIFIER_KEYS then Inl SearchValueError
         else bindE (case v of
                       None \<Rightarrow> Inr None
                     | Some x \<Rightarrow> bindE (parse_probe env (probe_text negated k x) scope) (\<lambda>p. Inr (Some p)))
                (\<lambda>probe.
                  bindE (edit_tokens env scope k v operation negated replace_values probe (sq_tokens parsed))
                    (\<lambda>tokens. parse_search_query env (canonical_text tokens) scope)))"

section \<open>The catalogue of qualifiers\<close>

abbreviation quote_mark :: string where "quote_mark \<equiv> [CHR 0x22]"

definition QUALIFIER_HELP :: "(string, string \<times> string \<times> string) dict" where
  "QUALIFIER_HELP =
    [(''type'', (''search.qualifier.type'', ''type:work'', ''Limit results to an object type.'')),
     (''repo'', (''search.qualifier.repo'', ''repo:pixiv/123'', ''Filter by subscription repository.'')),
     (''creator'', (''search.qualifier.creator'', ''creator:'' @ quote_mark @ ''name'' @ quote_mark,
        ''Filter by local creator name or ID.'')),
     (''tag'', (''search.qualifier.tag'', ''tag:landscape'', ''Filter by an exact normalized tag.'')),
     (''source'', (''search.qualifier.source'', ''source:pixiv'', ''Filter by source platform.'')),
     (''is'', (''search.qualifier.is'', ''is:favorite'', ''Filter by object state.'')),
     (''has'', (''search.qualifier.has'', ''has:video'', ''Filter by content, media, or related records.'')),
     (''status'', (''search.qualifier.status'', ''status:failed'', ''Filter by task status.'')),
     (''kind'', (''search.qualifier.kind'', ''kind:download'', ''Filter by task kind.'')),
     (''posted'', (''search.qualifier.posted'', ''posted:>=2026-01-01'', ''Filter by work publication date.'')),
     (''created'', (''search.qualifier.created'', ''created:>=2026-01-01'', ''Filter by local creation date.'')),
     (''updated'', (''search.qualifier.updated'', ''updated:<2026-08-01'', ''Filter by local update date.'')),
     (''synced'', (''search.qualifier.synced'', ''synced:>=2026-08-01'', ''Filter by most recent sync date.'')),
     (''sort'', (''search.qualifier.sort'', ''sort:updated-desc'', ''Choose the result ordering.'')),
     (''uid'', (''search.qualifier.uid'', ''uid:pixiv/123'', ''Find an exact source creator ID.'')),
     (''pid'', (''search.qualifier.pid'', ''pid:pixiv/456'', ''Find an exact source work ID.'')),
     (''url'', (''search.qualifier.url'', ''url:'' @ quote_mark @ ''https://www.pixiv.net/artworks/456'' @ quote_mark,
        ''Find a saved source profile or work URL.''))]"

record catalog_entry =
  ce_key :: string
  ce_negatable :: bool
  ce_values :: "string list"
  ce_help :: "string \<times> string \<times> string"

definition meets :: "string list \<Rightarrow> string list \<Rightarrow> bool" where
  "meets targets supported \<longleftrightarrow> list_ex (\<lambda>t. t \<in> set supported) targets"

text \<open>The values listed for a key, or \<open>None\<close> where the loop skips it.\<close>

definition catalog_values :: "string \<Rightarrow> string list \<Rightarrow> string \<Rightarrow> string list option" where
  "catalog_values scope targets key =
    (if key = ''type'' \<and> scope \<noteq> ''global'' then None
     else if key = ''type'' then Some (map fst (filter (\<lambda>p. snd p \<in> set targets) TYPE_TARGETS))
     else if key = ''is'' then Some (map fst (filter (\<lambda>p. meets targets (snd p)) IS_TARGETS))
     else if key = ''has'' then Some (map fst (filter (\<lambda>p. meets targets (snd p)) HAS_TARGETS))
     else if key = ''sort'' then Some (map fst (filter (\<lambda>p. meets targets (snd p)) SORT_TARGETS))
     else if key = ''status'' \<and> ''tasks'' \<in> set targets then Some (sort TASK_STATUSES)
     else if key = ''kind'' \<and> ''tasks'' \<in> set targets then Some (sort TASK_KINDS)
     else if key \<in> {''uid'', ''pid''} then Some (map (\<lambda>source. source @ ''/'') (sort IDENTITY_SOURCES))
     else case map_of QUALIFIER_TARGETS key of
            None \<Rightarrow> Some []
          | Some supported \<Rightarrow> if meets targets supported then Some [] else None)"

definition qualifier_catalog :: "string \<Rightarrow> catalog_entry list" where
  "qualifier_catalog scope =
    (let targets = dict_get SCOPE_TARGETS scope []
     in concat (map (\<lambda>key.
          case catalog_values scope targets key of
            None \<Rightarrow> []
          | Some vals \<Rightarrow>
              [\<lparr>ce_key = key, ce_negatable = (key \<in> set NEGATABLE_KEYS), ce_values = vals,
                ce_help = dict_get QUALIFIER_HELP key ([], [], [])\<rparr>]) (sort QUALIFIER_KEYS)))"

end
