(* ===== verification/Search_Canonical.thy ===== *)
theory Search_Canonical
  imports Search_Language
begin

text \<open>
  Canonical text is read back: lemmas on quoting, on the lexer, and on each kind of token.
\<close>

section \<open>Values\<close>

lemma unescape_escape: "unescape_value False (escape_value v) = v"
  by (induction v) (auto simp: escape_value_def)

lemma escape_value_Cons:
  "escape_value (c # v) = (if c = CHR 0x5C \<or> c = CHR 0x22 then [CHR 0x5C, c] else [c]) @ escape_value v"
  by (simp add: escape_value_def)

lemma escape_value_Nil [simp]: "escape_value [] = []"
  by (simp add: escape_value_def)

lemma unescape_plain: "CHR 0x5C \<notin> set v \<Longrightarrow> unescape_value False v = v"
  by (induction v) auto

lemma escape_plain: "CHR 0x5C \<notin> set v \<Longrightarrow> CHR 0x22 \<notin> set v \<Longrightarrow> escape_value v = v"
  by (induction v) (auto simp: escape_value_def)

lemma not_needs_quotes:
  "\<not> needs_quotes v \<longleftrightarrow> v \<noteq> [] \<and> (\<forall>c \<in> set v. \<not> py_isspace c) \<and> CHR 0x22 \<notin> set v \<and> CHR 0x5C \<notin> set v"
  by (auto simp: needs_quotes_def list_ex_iff)

lemma decode_quoted: "v \<noteq> [] \<Longrightarrow> decode_value (CHR 0x22 # escape_value v @ [CHR 0x22]) lx = Inr (v, True)"
  by (simp add: decode_value_def unescape_escape Let_def)

lemma decode_plain: "v \<noteq> [] \<Longrightarrow> CHR 0x22 \<notin> set v \<Longrightarrow> decode_value v lx = Inr (v, False)"
  by (auto simp: decode_value_def dest: hd_in_set)

lemma decode_canonical: "v \<noteq> [] \<Longrightarrow> decode_value (canonical_value v) lx = Inr (v, needs_quotes v)"
  using not_needs_quotes [of v] by (auto simp: canonical_value_def decode_quoted decode_plain)

section \<open>The lexer on canonical text\<close>

definition plain_word :: "string \<Rightarrow> bool" where
  "plain_word w \<longleftrightarrow> (\<forall>c \<in> set w. \<not> py_isspace c \<and> c \<noteq> CHR 0x22)"

definition at_gap :: "string \<Rightarrow> bool" where
  "at_gap rest \<longleftrightarrow> rest = [] \<or> py_isspace (hd rest)"

lemma space_not_special [simp]: "py_isspace c \<Longrightarrow> c \<noteq> CHR 0x22" "py_isspace c \<Longrightarrow> c \<noteq> CHR 0x5C"
  by (auto simp: py_isspace_def)

lemma lex_token_gap: "at_gap rest \<Longrightarrow> lex_token False False rest = ([], rest, False)"
  by (cases rest) (auto simp: at_gap_def)

lemma lex_token_plain:
  "plain_word w \<Longrightarrow> lex_token False False (w @ rest) =
     (case lex_token False False rest of (raw, rest', q) \<Rightarrow> (w @ raw, rest', q))"
  by (induction w) (auto simp: plain_word_def Let_def split: prod.splits)

lemma lex_token_inside:
  "lex_token True False (escape_value v @ CHR 0x22 # rest) =
     (case lex_token False False rest of (raw, rest', q) \<Rightarrow> (escape_value v @ CHR 0x22 # raw, rest', q))"
  by (induction v) (auto simp: escape_value_Cons Let_def split: prod.splits)

text \<open>A word the lexer takes as one lexeme wherever it stands.\<close>

definition atomic :: "string \<Rightarrow> bool" where
  "atomic w \<longleftrightarrow> w \<noteq> [] \<and> \<not> py_isspace (hd w) \<and>
     (\<forall>rest. at_gap rest \<longrightarrow> lex_token False False (w @ rest) = (w, rest, False))"

lemma atomic_plain: "w \<noteq> [] \<Longrightarrow> plain_word w \<Longrightarrow> atomic w"
  by (auto simp: atomic_def lex_token_plain lex_token_gap) (simp add: plain_word_def)

lemma atomic_quoted:
  assumes "plain_word p"
  shows "atomic (p @ CHR 0x22 # escape_value v @ [CHR 0x22])"
proof -
  have "\<not> py_isspace (hd (p @ CHR 0x22 # escape_value v @ [CHR 0x22]))"
    using assms by (cases p) (auto simp: plain_word_def py_isspace_def)
  moreover have "lex_token False False ((p @ CHR 0x22 # escape_value v @ [CHR 0x22]) @ rest) =
      (p @ CHR 0x22 # escape_value v @ [CHR 0x22], rest, False)" if "at_gap rest" for rest
    using lex_token_plain [OF assms, of "CHR 0x22 # escape_value v @ CHR 0x22 # rest"]
      lex_token_inside [of v rest] lex_token_gap [OF that]
    by simp
  ultimately show ?thesis by (simp add: atomic_def)
qed

lemma atomic_canonical_value: "plain_word p \<Longrightarrow> p \<noteq> [] \<or> v \<noteq> [] \<Longrightarrow> atomic (p @ canonical_value v)"
  using not_needs_quotes [of v]
  by (auto simp: canonical_value_def atomic_quoted intro!: atomic_plain) (auto simp: plain_word_def)

lemma py_isspace_blank [simp]: "py_isspace (CHR '' '')"
  by (simp add: py_isspace_def)

lemma lex_from_atomic:
  assumes "atomic w" "at_gap rest"
  shows "lex_from i (w @ rest) =
    bindE (lex_from (i + length w) rest) (\<lambda>lxs. Inr (\<lparr>lx_raw = w, lx_start = i, lx_end = i + length w\<rparr> # lxs))"
proof -
  obtain c cs where w: "w = c # cs" "\<not> py_isspace c"
    using assms(1) by (cases w) (auto simp: atomic_def)
  moreover have "lex_token False False (w @ rest) = (w, rest, False)"
    using assms by (simp add: atomic_def)
  ultimately show ?thesis by (subst lex_from.simps) (simp add: Let_def)
qed

lemma lex_from_blank: "lex_from i (CHR '' '' # rest) = lex_from (Suc i) rest"
  by (subst (1 2) lex_from.simps) (simp add: Let_def)

lemma lex_from_join:
  "list_all atomic ws \<Longrightarrow> \<exists>lxs. lex_from i (join_words ws) = Inr lxs \<and> map lx_raw lxs = ws"
proof (induction ws arbitrary: i rule: join_words.induct)
  case 1
  then show ?case by (subst lex_from.simps) simp
next
  case (2 w)
  then show ?case
    using lex_from_atomic [of w "[]" i] by (simp add: at_gap_def) (subst lex_from.simps, simp)
next
  case (3 w v ws)
  have "atomic w" "at_gap ('' '' @ join_words (v # ws))" using 3 by (simp_all add: at_gap_def)
  note first = lex_from_atomic [OF this, of i]
  obtain lxs where "lex_from (Suc (i + length w)) (join_words (v # ws)) = Inr lxs" "map lx_raw lxs = v # ws"
    using "3.IH" [of "Suc (i + length w)"] "3.prems" by auto
  with first show ?case by (simp add: lex_from_blank)
qed

lemma lex_join: "list_all atomic ws \<Longrightarrow> \<exists>lxs. lex (join_words ws) = Inr lxs \<and> map lx_raw lxs = ws"
  by (simp add: lex_def lex_from_join)

section \<open>Stripping\<close>

lemma py_lstrip_id: "v = [] \<or> \<not> py_isspace (hd v) \<Longrightarrow> py_lstrip v = v"
  by (cases v) (auto simp: py_lstrip_def)

lemma py_strip_idI: "v = [] \<or> \<not> py_isspace (hd v) \<and> \<not> py_isspace (last v) \<Longrightarrow> py_strip v = v"
proof -
  assume a: "v = [] \<or> \<not> py_isspace (hd v) \<and> \<not> py_isspace (last v)"
  then have "py_lstrip v = v" by (intro py_lstrip_id) auto
  moreover have "dropWhile py_isspace (rev v) = rev v"
    using a by (cases v rule: rev_cases) auto
  ultimately show ?thesis by (simp add: py_strip_def)
qed

lemma py_strip_ends:
  "py_strip v = [] \<or> \<not> py_isspace (hd (py_strip v)) \<and> \<not> py_isspace (last (py_strip v))"
proof (cases "py_strip v = []")
  case False
  define u where "u = py_lstrip v"
  have s: "py_strip v = rev (dropWhile py_isspace (rev u))" by (simp add: py_strip_def u_def)
  have ne: "dropWhile py_isspace (rev u) \<noteq> []" using False s by auto
  have "\<not> py_isspace (last (py_strip v))"
    using hd_dropWhile [OF ne] ne by (simp add: s last_rev)
  moreover have "hd (py_strip v) = hd u"
  proof -
    have "rev u = takeWhile py_isspace (rev u) @ dropWhile py_isspace (rev u)" by simp
    then have "u = rev (dropWhile py_isspace (rev u)) @ rev (takeWhile py_isspace (rev u))"
      by (metis rev_append rev_rev_ident)
    with ne show ?thesis by (metis hd_append rev_is_Nil_conv s)
  qed
  moreover have "u \<noteq> []" using ne by auto
  then have "\<not> py_isspace (hd u)" unfolding u_def py_lstrip_def by (rule hd_dropWhile)
  ultimately show ?thesis by simp
qed simp

lemma py_strip_idem [simp]: "py_strip (py_strip v) = py_strip v"
  by (rule py_strip_idI [OF py_strip_ends])

lemma py_strip_take: "\<exists>n. py_strip v = take n (py_lstrip v)"
proof -
  have "py_lstrip v = rev (dropWhile py_isspace (rev (py_lstrip v))) @ rev (takeWhile py_isspace (rev (py_lstrip v)))"
    by (metis rev_append rev_rev_ident takeWhile_dropWhile_id)
  then show ?thesis by (metis append_eq_conv_conj py_strip_def)
qed

lemma isspace_lower [simp]: "py_isspace (lower_char c) = py_isspace c"
proof -
  have "(of_char c :: nat) < 256" by simp
  then show ?thesis by (auto simp: lower_char_def py_isspace_def Let_def)
qed

lemma py_strip_lower: "py_strip (py_lower v) = py_lower (py_strip v)"
  by (simp add: py_strip_def py_lstrip_def py_lower_def dropWhile_map rev_map comp_def)

section \<open>Validation is idempotent\<close>

text \<open>
  What the language relies on from the URL parsers: a normalised URL is not empty, has no blanks
  around it and is its own normal form.
\<close>

definition url_stable :: "search_env \<Rightarrow> bool" where
  "url_stable env \<longleftrightarrow> (\<forall>v pu. parse_source_url env v = Inr (Some pu) \<longrightarrow>
     pu_normalized pu \<noteq> [] \<and> py_strip (pu_normalized pu) = pu_normalized pu \<and>
     parse_source_url env (pu_normalized pu) = Inr (Some pu))"

lemma known_values_normal:
  "list_all (\<lambda>v. py_strip v = v \<and> py_lower v = v)
     (map fst IS_TARGETS @ map fst HAS_TARGETS @ map fst SORT_TARGETS @ TASK_STATUSES @ TASK_KINDS)"
  by code_simp

lemma known_types_normal:
  "list_all (\<lambda>v. py_strip v = v \<and> py_lower v = v \<and> dict_get TYPE_ALIASES v v = v) (map fst TYPE_TARGETS)"
  by code_simp

lemma list_allD: "list_all P xs \<Longrightarrow> x \<in> set xs \<Longrightarrow> P x"
  by (simp add: list_all_iff)

lemma check_member_Inr: "check_member v known lx = Inr w \<longleftrightarrow> w = v \<and> v \<in> set known"
  by (auto simp: check_member_def)

lemma identity_sources_normal:
  "list_all (\<lambda>v. v \<noteq> [] \<and> normalize_source_name v = v \<and> CHR ''/'' \<notin> set v \<and> \<not> py_isspace (hd v)) IDENTITY_SOURCES"
  by code_simp

lemma split_at: "c \<notin> set a \<Longrightarrow> takeWhile (\<lambda>x. x \<noteq> c) (a @ c # b) = a \<and> dropWhile (\<lambda>x. x \<noteq> c) (a @ c # b) = c # b"
  by (induction a) auto

lemma parse_source_identity_idem:
  assumes "parse_source_identity v = Some (source, identity)"
  shows "parse_source_identity (source @ ''/'' @ identity) = Some (source, identity) \<and>
    py_strip (source @ ''/'' @ identity) = source @ ''/'' @ identity"
proof -
  obtain raw where src: "source \<in> set IDENTITY_SOURCES" and idn: "identity = py_strip raw" "identity \<noteq> []"
      "\<not> list_ex py_isspace identity"
    using assms by (auto simp: parse_source_identity_def Let_def split: if_splits)
  have norm: "source \<noteq> []" "normalize_source_name source = source" "CHR ''/'' \<notin> set source"
      "\<not> py_isspace (hd source)"
    using identity_sources_normal src by (auto simp: list_all_iff)
  have split: "takeWhile (\<lambda>c. c \<noteq> CHR ''/'') (source @ ''/'' @ identity) = source"
      "dropWhile (\<lambda>c. c \<noteq> CHR ''/'') (source @ ''/'' @ identity) = ''/'' @ identity"
    using split_at [OF norm(3)] by simp_all
  have "py_strip identity = identity" using idn by simp
  then have "parse_source_identity (source @ ''/'' @ identity) = Some (source, identity)"
    using src idn norm split unfolding parse_source_identity_def Let_def by simp
  moreover have "py_strip (source @ ''/'' @ identity) = source @ ''/'' @ identity"
    using norm idn py_strip_ends [of raw] by (intro py_strip_idI) auto
  ultimately show ?thesis by simp
qed

lemma member_stable:
  assumes "check_member (py_lower (py_strip raw)) known lx = Inr v"
    and "list_all (\<lambda>v. py_strip v = v \<and> py_lower v = v) known"
  shows "check_member (py_lower (py_strip v)) known lx' = Inr v"
  using assms list_allD [OF assms(2), of v] by (simp add: check_member_Inr)

lemma type_stable:
  assumes "check_member (dict_get TYPE_ALIASES (py_lower (py_strip raw)) (py_lower (py_strip raw))) (map fst TYPE_TARGETS) lx = Inr v"
  shows "check_member (dict_get TYPE_ALIASES (py_lower (py_strip v)) (py_lower (py_strip v))) (map fst TYPE_TARGETS) lx' = Inr v"
  using assms list_allD [OF known_types_normal, of v] unfolding check_member_Inr by simp

lemma date_stable: "parse_date env v lx = Inr u \<Longrightarrow> parse_date env v lx' = Inr u"
  by (cases "date_match v") (auto simp: parse_date_def split: if_splits)

lemma source_stable: "normalize_source_name (py_strip (normalize_source_name (py_strip raw))) = normalize_source_name (py_strip raw)"
proof (cases "normalize_source_name (py_strip raw) = ''x''")
  case True
  have "normalize_source_name (py_strip ''x'') = ''x''" by code_simp
  then show ?thesis using True by (simp only:)
next
  case False
  then have "normalize_source_name (py_strip raw) = py_lower (py_strip raw)" "py_lower (py_strip raw) \<noteq> ''twitter''"
    by (auto simp: normalize_source_name_def Let_def split: if_splits)
  then show ?thesis by (simp add: normalize_source_name_def Let_def py_strip_lower)
qed

lemma identity_stable:
  assumes "(case parse_source_identity (py_strip raw) of None \<Rightarrow> Inl e | Some (source, identity) \<Rightarrow> Inr (source @ ''/'' @ identity)) = Inr v"
  shows "(case parse_source_identity (py_strip v) of None \<Rightarrow> Inl e' | Some (source, identity) \<Rightarrow> Inr (source @ ''/'' @ identity)) = Inr v"
proof -
  obtain source identity where p: "parse_source_identity (py_strip raw) = Some (source, identity)" and v: "v = source @ ''/'' @ identity"
    using assms by (cases "parse_source_identity (py_strip raw)") auto
  show ?thesis unfolding v using parse_source_identity_idem [OF p] by (simp only: option.case prod.case)
qed

lemma url_value_stable:
  assumes "url_stable env"
    and "bindE (parse_source_url env (py_strip raw)) (case_option (Inl e) (\<lambda>pu. Inr (pu_normalized pu))) = Inr v"
  shows "bindE (parse_source_url env (py_strip v)) (case_option (Inl e') (\<lambda>pu. Inr (pu_normalized pu))) = Inr v"
proof -
  obtain pu where "parse_source_url env (py_strip raw) = Inr (Some pu)" "v = pu_normalized pu"
    using assms(2) by (auto simp: bindE_Inr split: option.splits)
  then show ?thesis using assms(1) by (simp add: url_stable_def)
qed


lemma list_all_appendD: "list_all P (xs @ ys) \<Longrightarrow> list_all P xs \<and> list_all P ys"
  by simp

lemmas known_is = known_values_normal [THEN list_all_appendD, THEN conjunct1]
lemmas known_has = known_values_normal [THEN list_all_appendD, THEN conjunct2, THEN list_all_appendD, THEN conjunct1]
lemmas known_rest = known_values_normal [THEN list_all_appendD, THEN conjunct2, THEN list_all_appendD, THEN conjunct2, THEN list_all_appendD]
lemmas known_parts = known_is known_has known_rest [THEN conjunct1]
  known_rest [THEN conjunct2, THEN list_all_appendD, THEN conjunct1]
  known_rest [THEN conjunct2, THEN list_all_appendD, THEN conjunct2]

lemma source_value_stable:
  assumes "Inr (if py_lower (py_strip raw) = ''twitter'' then ''x'' else py_lower (py_strip raw)) = (Inr v :: 'e + string)"
  shows "Inr (if py_lower (py_strip v) = ''twitter'' then ''x'' else py_lower (py_strip v)) = (Inr v :: 'e + string)"
proof -
  have v: "v = normalize_source_name (py_strip raw)" using assms by (simp add: normalize_source_name_def Let_def)
  have "normalize_source_name (py_strip v) = v" using source_stable [of raw] unfolding v .
  then show ?thesis by (simp add: normalize_source_name_def Let_def)
qed

lemma date_value_stable:
  assumes "bindE (parse_date env (py_strip raw) lx) (\<lambda>_. Inr (py_strip raw)) = Inr v"
  shows "bindE (parse_date env (py_strip v) lx') (\<lambda>_. Inr (py_strip v)) = Inr v"
proof (cases "parse_date env (py_strip raw) lx")
  case (Inl e)
  then show ?thesis using assms by simp
next
  case (Inr u)
  have v: "v = py_strip raw" using assms unfolding Inr by simp
  have "parse_date env (py_strip v) lx' = Inr u" unfolding v py_strip_idem by (rule date_stable [OF Inr])
  then show ?thesis by (simp add: v)
qed
lemma if_stable: 
  assumes "(if b then x else y) = z" "x = z \<Longrightarrow> x' = z'" and "y = z \<Longrightarrow> y' = z'"
  shows "(if b then x' else y') = z'"
  using assms by (cases b) auto

lemma validated_idem:
  assumes url: "url_stable env" and v: "validated_value env key raw lx = Inr v"
  shows "validated_value env key v lx' = Inr v"
  using v unfolding validated_value_def Let_def
  by (elim if_stable type_stable member_stable [OF _ known_parts(1)] member_stable [OF _ known_parts(2)]
     member_stable [OF _ known_parts(3)] member_stable [OF _ known_parts(4)] member_stable [OF _ known_parts(5)]
     date_value_stable source_value_stable identity_stable url_value_stable [OF url]) auto
end
