(* ===== verification/Search_Reparse.thy ===== *)
theory Search_Reparse
  imports Search_Canonical
begin

text \<open>
  The canonical text of a parsed query is parsed again: every stable token comes back with the
  same meaning (its key, value and negation), and the validation of a query depends on the meaning
  of its tokens only.
\<close>

section \<open>Lexemes\<close>

definition good_raw :: "string \<Rightarrow> bool" where
  "good_raw raw \<longleftrightarrow> raw \<noteq> [] \<and> (CHR 0x22 \<notin> set raw \<longrightarrow> \<not> list_ex py_isspace raw)"

lemma lex_token_no_space:
  "lex_token False False s = (raw, rest, q) \<Longrightarrow> CHR 0x22 \<notin> set raw \<Longrightarrow> \<not> list_ex py_isspace raw"
proof (induction s arbitrary: raw)
  case (Cons c cs)
  then show ?case by (auto simp: Let_def split: if_splits prod.splits)
qed simp

lemma lex_from_good: "lex_from i s = Inr lxs \<Longrightarrow> lx \<in> set lxs \<Longrightarrow> good_raw (lx_raw lx)"
proof (induction i s arbitrary: lxs rule: lex_from.induct)
  case (1 i s)
  show ?case
  proof (cases "dropWhile py_isspace s")
    case Nil
    then show ?thesis using 1 by (simp add: lex_from.simps [of i s])
  next
    case (Cons c cs)
    then have c: "\<not> py_isspace c" by (metis hd_dropWhile list.distinct(1) list.sel(1))
    obtain raw rest q where t: "lex_token False False (c # cs) = (raw, rest, q)" by (metis prod_cases3)
    have good: "good_raw raw"
      using lex_token_no_space [OF t] lex_token_progress [OF c t] by (simp add: good_raw_def)
    obtain lxs' where rest: "lex_from (i + length (takeWhile py_isspace s) + length raw) rest = Inr lxs'"
        "\<not> q" "lxs = \<lparr>lx_raw = raw, lx_start = i + length (takeWhile py_isspace s),
           lx_end = i + length (takeWhile py_isspace s) + length raw\<rparr> # lxs'"
      using 1(2) Cons t by (auto simp: lex_from.simps [of i s] Let_def bindE_Inr split: if_splits)
    show ?thesis
    proof (cases "lx \<in> set lxs'")
      case True
      show ?thesis using 1(1) [OF refl refl _ _ _ refl refl rest(2) rest(1) True] Cons t by auto
    qed (use rest(3) 1(3) good in auto)
  qed
qed

lemma lex_good: "lex query = Inr lxs \<Longrightarrow> lx \<in> set lxs \<Longrightarrow> good_raw (lx_raw lx)"
  unfolding lex_def by (rule lex_from_good)

section \<open>The meaning of a token\<close>

text \<open>Positions and the quoted flag do not influence the result of a query.\<close>

fun meaning :: "search_token \<Rightarrow> search_token" where
  "meaning (SearchTerm v quoted s e) = SearchTerm v False 0 0"
| "meaning (SearchQualifier key v negated quoted s e) = SearchQualifier key v negated False 0 0"

lemma meaning_qualifier [simp]: "is_qualifier (meaning tk) = is_qualifier tk"
  by (cases tk) (simp_all add: is_qualifier_def)

lemma meaning_fields [simp]: "tk_value (meaning tk) = tk_value tk"
  "is_qualifier tk \<Longrightarrow> tk_key (meaning tk) = tk_key tk"
  "is_qualifier tk \<Longrightarrow> tk_negated (meaning tk) = tk_negated tk"
  by (cases tk; simp add: is_qualifier_def)+

lemma has_key_meaning [simp]: "has_key key (meaning tk) = has_key key tk"
  by (cases tk) (simp_all add: has_key_def is_qualifier_def)

section \<open>Validation depends on the meaning\<close>

definition same_value :: "'e + 'a \<Rightarrow> 'e + 'a \<Rightarrow> bool" where
  "same_value m m' \<longleftrightarrow> (\<forall>x. m = Inr x \<longleftrightarrow> m' = Inr x)"

lemma same_value_refl [simp, intro!]: "same_value m m"
  by (simp add: same_value_def)

lemma same_value_Inl [simp]: "same_value (Inl e) (Inl e')"
  by (simp add: same_value_def)

lemma same_value_bind: "same_value m m' \<Longrightarrow> (\<And>x. same_value (f x) (f' x)) \<Longrightarrow> same_value (bindE m f) (bindE m' f')"
  unfolding same_value_def bindE_Inr by blast

lemma same_value_if: "same_value x x' \<Longrightarrow> same_value y y' \<Longrightarrow> same_value (if b then x else y) (if b then x' else y')"
  by simp

lemma targets_for_meaning [simp]: "is_qualifier tk \<Longrightarrow> targets_for_token env (meaning tk) = targets_for_token env tk"
  by (simp add: targets_for_token_def)

lemma narrow_targets_meaning:
  "list_all is_qualifier quals \<Longrightarrow>
   same_value (narrow_targets env n (map meaning quals) allowed) (narrow_targets env n quals allowed)"
proof (induction quals arbitrary: allowed)
  case (Cons tk tks)
  then have [simp]: "is_qualifier tk" and IH: "\<And>allowed. same_value (narrow_targets env n (map meaning tks) allowed) (narrow_targets env n tks allowed)"
    by simp_all
  show ?case
  proof (cases "tk_key tk = ''type''")
    case False
    have "same_value
        (case targets of None \<Rightarrow> narrow_targets env n (map meaning tks) allowed
         | Some ts \<Rightarrow> let compatible = filter (\<lambda>t. t \<in> set ts) allowed
             in if compatible = [] then Inl (token_error ''qualifier_not_available'' (meaning tk) [])
                else narrow_targets env n (map meaning tks) (if n then compatible else allowed))
        (case targets of None \<Rightarrow> narrow_targets env n tks allowed
         | Some ts \<Rightarrow> let compatible = filter (\<lambda>t. t \<in> set ts) allowed
             in if compatible = [] then Inl (token_error ''qualifier_not_available'' tk [])
                else narrow_targets env n tks (if n then compatible else allowed))" for targets
      using IH by (simp add: Let_def split: option.split)
    then show ?thesis using False by (simp add: same_value_bind)
  qed (simp add: IH)
qed simp

lemma filter_meaning: "(\<And>tk. tk \<in> set quals \<Longrightarrow> P (meaning tk) = P tk) \<Longrightarrow> filter P (map meaning quals) = map meaning (filter P quals)"
  by (induction quals) auto

lemma list_ex_meaning: "(\<And>tk. tk \<in> set quals \<Longrightarrow> P (meaning tk) = P tk) \<Longrightarrow> list_ex P (map meaning quals) = list_ex P quals"
  by (induction quals) auto

lemma list_all_meaning: "(\<And>tk. tk \<in> set quals \<Longrightarrow> P (meaning tk) = P tk) \<Longrightarrow> list_all P (map meaning quals) = list_all P quals"
  by (induction quals) auto

lemma check_types_meaning: "same_value (check_types allowed (map meaning quals)) (check_types allowed quals)"
  by (simp add: check_types_def Let_def filter_meaning comp_def)

lemma conflict_found_meaning: "list_all is_qualifier quals \<Longrightarrow> conflict_found (map meaning quals) c = conflict_found quals c"
  by (auto simp: conflict_found_def list_ex_iff list_all_iff intro!: filter_cong)

lemma check_conflicts_meaning:
  "list_all is_qualifier quals \<Longrightarrow> same_value (check_conflicts (map meaning quals) cs) (check_conflicts quals cs)"
  by (induction cs) (simp_all add: conflict_found_meaning Let_def)

lemma same_value_units: "(\<exists>e. m = Inl e) \<longleftrightarrow> (\<exists>e. m' = Inl e) \<Longrightarrow> same_value m (m' :: 'e + unit)"
  unfolding same_value_def by (cases m; cases m') auto

lemma check_overlap_Inl:
  "(\<exists>e. check_overlap quals = Inl e) \<longleftrightarrow>
   (\<exists>a \<in> set quals. \<not> tk_negated a \<and> (\<exists>b \<in> set quals. tk_negated b \<and> tk_key b = tk_key a \<and> tk_value b = tk_value a))"
  unfolding check_overlap_def
  by (auto simp: find_None_iff find_Some_iff list_ex_iff split: option.split dest: nth_mem)

lemma check_overlap_meaning:
  assumes "list_all is_qualifier quals"
  shows "same_value (check_overlap (map meaning quals)) (check_overlap quals)"
proof (rule same_value_units)
  show "(\<exists>e. check_overlap (map meaning quals) = Inl e) \<longleftrightarrow> (\<exists>e. check_overlap quals = Inl e)"
    using assms unfolding check_overlap_Inl by (simp add: list_all_iff)
qed

lemma check_sort_meaning: "same_value (check_sort (map meaning tokens) (map meaning quals)) (check_sort tokens quals)"
proof -
  have "filter (has_key ''sort'') (map meaning quals) = map meaning (filter (has_key ''sort'') quals)"
    by (rule filter_meaning) simp
  then show ?thesis
    by (cases "filter (has_key ''sort'') quals") (simp_all add: check_sort_def Let_def list_all_meaning)
qed

lemma validate_query_meaning: "same_value (validate_query env (map meaning tokens) scope) (validate_query env tokens scope)"
proof -
  define quals where "quals = filter is_qualifier tokens"
  have quals: "list_all is_qualifier quals" by (simp add: quals_def list_all_iff)
  have m: "filter is_qualifier (map meaning tokens) = map meaning quals"
    unfolding quals_def by (rule filter_meaning) simp
  have ty: "list_ex (has_key ''type'') (map meaning quals) = list_ex (has_key ''type'') quals"
    by (rule list_ex_meaning) simp
  show ?thesis unfolding validate_query_def Let_def m ty quals_def [symmetric]
    by (intro same_value_bind check_types_meaning narrow_targets_meaning check_conflicts_meaning
        check_overlap_meaning check_sort_meaning quals same_value_if same_value_Inl same_value_refl)
qed

lemma validate_query_same:
  assumes "validate_query env tokens scope = Inr ts" "map meaning tokens = map meaning tokens'"
  shows "validate_query env tokens' scope = Inr ts"
  using validate_query_meaning [of env tokens scope] validate_query_meaning [of env tokens' scope] assms
  unfolding same_value_def by metis

section \<open>Parsing the text of one token\<close>

definition harmless :: "string \<Rightarrow> bool" where
  "harmless v \<longleftrightarrow> \<not> is_http (if startswith v ''-'' then tl v else v) \<and> find_colon v = None \<and>
     \<not> is_or_word v \<and> CHR ''('' \<notin> set v \<and> CHR '')'' \<notin> set v"

text \<open>
  The tokens whose text keeps its meaning: a quoted term that is printed without quotes must not
  read as an operator, a grouping, a URL or a qualifier, and the value of a qualifier is not empty.
\<close>

fun stable_token :: "search_token \<Rightarrow> bool" where
  "stable_token (SearchTerm v quoted s e) = (quoted \<and> \<not> needs_quotes v \<longrightarrow> harmless v)"
| "stable_token (SearchQualifier key v negated quoted s e) = (v \<noteq> [])"

lemma find_colon_from_quoted:
  "find_colon_from i True False (escape_value v @ [CHR 0x22]) = None"
  by (induction v arbitrary: i) (auto simp: escape_value_Cons)

lemma find_colon_quoted: "find_colon (CHR 0x22 # escape_value v @ [CHR 0x22]) = None"
  by (simp add: find_colon_def find_colon_from_quoted)

lemma find_colon_from_key:
  "CHR '':'' \<notin> set k \<Longrightarrow> CHR 0x22 \<notin> set k \<Longrightarrow> find_colon_from i False False (k @ CHR '':'' # rest) = Some (i + length k)"
  by (induction k arbitrary: i) auto

lemma parse_source_url_plain: "\<not> is_http (py_strip v) \<Longrightarrow> parse_source_url env v = Inr None"
  by (simp add: parse_source_url_def)

lemma not_http_quote: "\<not> is_http (CHR 0x22 # s)"
proof -
  have "lower_char (CHR 0x22) = CHR 0x22" by code_simp
  then show ?thesis by (simp add: is_http_def py_lower_def startswith_def)
qed

lemma py_strip_no_space: "\<not> list_ex py_isspace v \<Longrightarrow> py_strip v = v"
  by (intro py_strip_idI) (cases v, auto simp: list_ex_iff)

section \<open>Qualifiers\<close>

lemma keys_normal:
  "list_all (\<lambda>k. k \<noteq> [] \<and> py_lower k = k \<and> key_shape k \<and> CHR '':'' \<notin> set k \<and> CHR 0x22 \<notin> set k \<and>
     CHR 0x5C \<notin> set k \<and> take 2 (k @ '':'') \<noteq> ''ht'' \<and> \<not> startswith k ''-'' \<and> \<not> list_ex py_isspace k \<and> 2 \<le> length k) QUALIFIER_KEYS"
  by code_simp

lemmas key_normal = list_allD [OF keys_normal]

lemma startswith_take2: "startswith v (a # b # p) \<Longrightarrow> take 2 v = [a, b]"
  by (cases v; cases "tl v") (auto simp: startswith_def)

lemma http_prefix: "is_http v \<Longrightarrow> take 2 (py_lower v) = ''ht''"
  unfolding is_http_def by (auto dest: startswith_take2)

definition quoted_text :: "string \<Rightarrow> string \<Rightarrow> bool" where
  "quoted_text v body \<longleftrightarrow> v \<noteq> [] \<and> (body = CHR 0x22 # escape_value v @ [CHR 0x22] \<or> body = v \<and> \<not> needs_quotes v)"

lemma quoted_text_last: "quoted_text v body \<Longrightarrow> body \<noteq> [] \<and> \<not> py_isspace (last body)"
  using not_needs_quotes [of v] by (auto simp: quoted_text_def py_isspace_def)

lemma quoted_text_decode: "quoted_text v body \<Longrightarrow> \<exists>q. decode_value body lx = Inr (v, q)"
  using not_needs_quotes [of v] by (auto simp: quoted_text_def decode_quoted decode_plain)

lemma parse_lexeme_as_qualifier:
  assumes key: "key \<in> set QUALIFIER_KEYS"
    and raw: "lx_raw lx = (if negated then ''-'' else []) @ key @ '':'' @ body"
    and body: "body \<noteq> []" "\<not> py_isspace (last body)"
  shows "parse_lexeme env lx = parse_qualifier env lx negated key body"
proof -
  note kn = key_normal [OF key]
  let ?url = "key @ '':'' @ body"
  have url: "(if startswith (lx_raw lx) ''-'' then tl (lx_raw lx) else lx_raw lx) = ?url"
    and neg': "startswith (lx_raw lx) ''-'' = negated"
    using kn by (cases key; simp add: raw startswith_def)+
  have strip: "py_strip ?url = ?url"
    using kn body by (intro py_strip_idI) (cases key; simp)
  have "take 2 (py_lower ?url) = take 2 key" using kn by (simp add: py_lower_def)
  then have http: "\<not> is_http ?url" using http_prefix [of ?url] kn by auto
  then have pu: "parse_source_url env ?url = Inr None" using strip by (intro parse_source_url_plain) (simp only: not_False_eq_True)
  let ?k = "(if negated then ''-'' else []) @ key"
  have "find_colon (?k @ CHR '':'' # body) = Some (length ?k)"
    using find_colon_from_key [of ?k 0 body] kn unfolding find_colon_def by auto
  then have colon: "find_colon (lx_raw lx) = Some (length ?k)" by (simp add: raw)
  have key': "drop (if negated then 1 else 0) (take (length ?k) (lx_raw lx)) = key"
    and rest: "drop (length ?k + 1) (lx_raw lx) = body" by (simp_all add: raw)
  have pos: "(if negated then 1 else 0) < length ?k" using kn by auto
  show ?thesis
    using kn http pos url neg' pu colon key' rest by (cases negated) (simp_all add: parse_lexeme_def Let_def)
qed

lemma parse_lexeme_qualifier:
  assumes key: "key \<in> set QUALIFIER_KEYS" and neg: "negated \<longrightarrow> key \<in> set NEGATABLE_KEYS"
    and raw: "lx_raw lx = (if negated then ''-'' else []) @ key @ '':'' @ body"
    and tv: "quoted_text v body" and valid: "validated_value env key v lx = Inr v"
  shows "\<exists>q. parse_lexeme env lx = Inr (SearchQualifier key v negated q (lx_start lx) (lx_end lx))"
proof -
  obtain q where dec: "decode_value body lx = Inr (v, q)" using quoted_text_decode [OF tv] by blast
  have "parse_lexeme env lx = parse_qualifier env lx negated key body"
    using quoted_text_last [OF tv] by (intro parse_lexeme_as_qualifier [OF key raw]) simp_all
  also have "\<dots> = Inr (SearchQualifier key v negated q (lx_start lx) (lx_end lx))"
    using key neg dec valid unfolding parse_qualifier_def by (simp add: validate_value_def)
  finally show ?thesis by blast
qed

section \<open>Tokens that come from the parser\<close>

fun parsed_token :: "search_env \<Rightarrow> search_token \<Rightarrow> bool" where
  "parsed_token env (SearchTerm v quoted s e) = (v \<noteq> [] \<and> (\<not> quoted \<longrightarrow> plain_word v \<and>
     (\<forall>lx. lx_raw lx = v \<longrightarrow> parse_lexeme env lx = Inr (SearchTerm v False (lx_start lx) (lx_end lx)))))"
| "parsed_token env (SearchQualifier key v negated quoted s e) = (key \<in> set QUALIFIER_KEYS \<and>
     (negated \<longrightarrow> key \<in> set NEGATABLE_KEYS) \<and> (\<forall>lx. validated_value env key v lx = Inr v))"

lemma url_key: "''url'' \<in> set QUALIFIER_KEYS" "''url'' \<in> set NEGATABLE_KEYS"
  by code_simp+

lemma validated_url:
  assumes "url_stable env" "parse_source_url env raw = Inr (Some pu)"
  shows "validated_value env ''url'' (pu_normalized pu) lx = Inr (pu_normalized pu)"
  using assms by (simp add: url_stable_def validated_value_def)

lemma parse_term_raw:
  assumes "parse_term lx = Inr tk" "good_raw (lx_raw lx)"
  shows "\<exists>v q. tk = SearchTerm v q (lx_start lx) (lx_end lx) \<and> v \<noteq> [] \<and>
    (\<not> q \<longrightarrow> v = lx_raw lx \<and> plain_word v \<and>
      (\<forall>lx'. lx_raw lx' = lx_raw lx \<longrightarrow> parse_term lx' = Inr (SearchTerm v False (lx_start lx') (lx_end lx'))))"
proof -
  obtain v q where dec: "decode_value (lx_raw lx) lx = Inr (v, q)" and tk: "tk = SearchTerm v q (lx_start lx) (lx_end lx)"
      and ok: "\<not> q \<longrightarrow> \<not> is_or_word v \<and> CHR ''('' \<notin> set v \<and> CHR '')'' \<notin> set v"
    using assms(1) by (auto simp: parse_term_def bindE_Inr split: if_splits)
  have v: "v \<noteq> []" "\<not> q \<longrightarrow> v = lx_raw lx \<and> CHR 0x22 \<notin> set v"
    using dec by (auto simp: decode_value_def Let_def split: if_splits)
  have pw: "\<not> q \<longrightarrow> plain_word v" using v assms(2) by (auto simp: plain_word_def good_raw_def list_ex_iff)
  have "parse_term lx' = Inr (SearchTerm v False (lx_start lx') (lx_end lx'))" if "\<not> q" "lx_raw lx' = lx_raw lx" for lx'
  proof -
    have "lx_raw lx' = v" "CHR 0x22 \<notin> set v" using that v(2) by auto
    moreover from this have "decode_value v lx' = Inr (v, False)" using v(1) by (intro decode_plain)
    ultimately show ?thesis using ok that by (simp add: parse_term_def)
  qed
  then show ?thesis using tk v pw by blast
qed

lemma parse_qualifier_parsed:
  assumes "url_stable env" "parse_qualifier env lx negated key raw = Inr tk"
  shows "parsed_token env tk"
proof -
  obtain w q where ok: "key \<in> set QUALIFIER_KEYS" "negated \<longrightarrow> key \<in> set NEGATABLE_KEYS"
      "validate_value env (SearchQualifier key w negated q (lx_start lx) (lx_end lx)) lx = Inr tk"
    using assms(2) by (auto simp: parse_qualifier_def bindE_Inr split: if_splits)
  then obtain v where "validated_value env key w lx = Inr v" "tk = SearchQualifier key v negated q (lx_start lx) (lx_end lx)"
    by (auto simp: validate_value_def bindE_Inr)
  then show ?thesis using ok validated_idem [OF assms(1)] by simp
qed

lemma parse_lexeme_parsed:
  assumes url: "url_stable env" and p: "parse_lexeme env lx = Inr tk" and good: "good_raw (lx_raw lx)"
  shows "parsed_token env tk"
proof -
  define raw where "raw = lx_raw lx"
  define negated where "negated = startswith raw ''-''"
  define raw_url where "raw_url = (if negated then tl raw else raw)"
  define key_start where "key_start = (if negated then 1 else 0 :: nat)"
  define key where "key c = py_lower (drop key_start (take c raw))" for c
  note defs = raw_def [symmetric] negated_def [symmetric] raw_url_def [symmetric] key_start_def [symmetric]
  obtain parsed where parsed: "parse_source_url env raw_url = Inr parsed"
    using p unfolding parse_lexeme_def Let_def defs by (auto simp: bindE_Inr)
  consider (web) "is_http raw_url"
    | (qual) c where "\<not> is_http raw_url" "find_colon raw = Some c" "key_start < c \<and> key_shape (key c)"
    | (plain) "\<not> is_http raw_url" "\<forall>c. find_colon raw = Some c \<longrightarrow> \<not> (key_start < c \<and> key_shape (key c))"
    by blast
  then show ?thesis
  proof cases
    case web
    then obtain pu where "parsed = Some pu" "tk = SearchQualifier ''url'' (pu_normalized pu) negated True (lx_start lx) (lx_end lx)"
      using p parsed unfolding parse_lexeme_def Let_def defs by (auto split: option.splits)
    then show ?thesis using validated_url [OF url] parsed url_key by simp
  next
    case (qual c)
    then have "parse_qualifier env lx negated (key c) (drop (c + 1) raw) = Inr tk"
      using p parsed unfolding parse_lexeme_def Let_def defs key_def by simp
    then show ?thesis by (rule parse_qualifier_parsed [OF url])
  next
    case plain
    have same: "parse_lexeme env lx' = parse_term lx'" if "lx_raw lx' = raw" for lx'
      using plain parsed unfolding parse_lexeme_def Let_def that defs key_def by (auto split: option.split)
    have "parse_term lx = Inr tk" using p same [of lx] raw_def by simp
    from parse_term_raw [OF this good] show ?thesis using same by (auto simp: raw_def)
  qed
qed

section \<open>Reading the canonical text\<close>

lemma canonical_qualifier:
  assumes "v \<noteq> []"
  shows "\<exists>body. canonical_token (SearchQualifier key v negated q s e) = (if negated then ''-'' else []) @ key @ '':'' @ body \<and> quoted_text v body"
proof (cases "needs_quotes v")
  case True
  then show ?thesis using assms by (auto simp: canonical_value_def quoted_text_def startswith_def Let_def)
next
  case False
  then have "escape_value v = v" using not_needs_quotes [of v] by (simp add: escape_plain)
  then show ?thesis using False assms by (auto simp: canonical_value_def quoted_text_def Let_def)
qed

lemma plain_unquoted: "\<not> needs_quotes v \<Longrightarrow> v \<noteq> [] \<and> plain_word v"
  by (simp add: not_needs_quotes plain_word_def) blast

lemma plain_word_append [simp]: "plain_word (p @ v) \<longleftrightarrow> plain_word p \<and> plain_word v"
  by (auto simp: plain_word_def)

lemma quoted_text_atomic:
  assumes "plain_word p" "quoted_text v body"
  shows "atomic (p @ body)"
proof (cases "body = CHR 0x22 # escape_value v @ [CHR 0x22]")
  case True
  then show ?thesis using atomic_quoted [OF assms(1)] by simp
next
  case False
  then have "body \<noteq> []" "plain_word body" using assms(2) plain_unquoted [of v] by (auto simp: quoted_text_def)
  then show ?thesis using assms(1) by (intro atomic_plain) simp_all
qed

lemma plain_key: "key \<in> set QUALIFIER_KEYS \<Longrightarrow> plain_word ((if negated then ''-'' else []) @ key @ '':'')"
  using key_normal [of key] by (auto simp: plain_word_def list_ex_iff py_isspace_def)

lemma token_atomic:
  assumes "parsed_token env tk" "stable_token tk"
  shows "atomic (canonical_token tk)"
proof (cases tk)
  case (SearchTerm v q s e)
  show ?thesis
  proof (cases "q \<or> list_ex py_isspace v")
    case True
    have "plain_word []" "v \<noteq> []" using SearchTerm assms(1) by (simp_all add: plain_word_def)
    then show ?thesis using True SearchTerm atomic_canonical_value [of "[]" v] by simp
  next
    case False
    then have "v \<noteq> []" "plain_word v" using SearchTerm assms(1) by simp_all
    then show ?thesis using False SearchTerm by (simp add: atomic_plain)
  qed
next
  case (SearchQualifier key v negated q s e)
  then obtain body where body: "canonical_token tk = (if negated then ''-'' else []) @ key @ '':'' @ body" "quoted_text v body"
    using canonical_qualifier [of v key negated q s e] assms(2) by auto
  have "plain_word ((if negated then ''-'' else []) @ key @ '':'')" using assms(1) SearchQualifier by (intro plain_key) simp
  from quoted_text_atomic [OF this body(2)] show ?thesis by (simp add: body(1))
qed

lemma parse_quoted_term:
  assumes "lx_raw lx = CHR 0x22 # escape_value v @ [CHR 0x22]" "v \<noteq> []"
  shows "parse_lexeme env lx = Inr (SearchTerm v True (lx_start lx) (lx_end lx))"
proof -
  have "py_strip (lx_raw lx) = lx_raw lx" by (intro py_strip_idI) (simp add: assms py_isspace_def)
  then have "parse_source_url env (lx_raw lx) = Inr None"
    using not_http_quote assms(1) by (intro parse_source_url_plain) simp
  then show ?thesis using assms not_http_quote find_colon_quoted [of v] decode_quoted [of v lx]
    by (simp add: parse_lexeme_def Let_def startswith_def parse_term_def)
qed

lemma parse_lexeme_term:
  assumes "lx_raw lx = v" "u = (if startswith v ''-'' then tl v else v)" "py_strip u = u" "\<not> is_http u" "find_colon v = None"
  shows "parse_lexeme env lx = parse_term lx"
proof -
  have "parse_source_url env u = Inr None" by (rule parse_source_url_plain) (simp add: assms(3,4))
  then show ?thesis unfolding parse_lexeme_def Let_def assms(1) assms(2) [symmetric] using assms(4,5) by simp
qed

lemma parse_harmless_term:
  assumes "lx_raw lx = v" "\<not> needs_quotes v" "harmless v"
  shows "parse_lexeme env lx = Inr (SearchTerm v False (lx_start lx) (lx_end lx))"
proof -
  define u where "u = (if startswith v ''-'' then tl v else v)"
  have v: "v \<noteq> []" "\<forall>c \<in> set v. \<not> py_isspace c" "CHR 0x22 \<notin> set v" using assms(2) not_needs_quotes by auto
  have "set u \<subseteq> set v" unfolding u_def by (cases v) auto
  then have "\<not> list_ex py_isspace u" using v(2) by (auto simp: list_ex_iff)
  then have "py_strip u = u" by (rule py_strip_no_space)
  then have "parse_lexeme env lx = parse_term lx"
    using assms(3) by (intro parse_lexeme_term [OF assms(1) u_def]) (simp_all add: harmless_def u_def [symmetric])
  then show ?thesis using assms v decode_plain [of v lx] by (simp add: harmless_def parse_term_def)
qed

lemma reparse_token:
  assumes "parsed_token env tk" "stable_token tk" "lx_raw lx = canonical_token tk"
  shows "\<exists>tk'. parse_lexeme env lx = Inr tk' \<and> meaning tk' = meaning tk \<and> canonical_token tk' = canonical_token tk"
proof (cases tk)
  case (SearchTerm v q s e)
  consider (bare) "\<not> q" | (inside) "q" "needs_quotes v" | (outside) "q" "\<not> needs_quotes v" by blast
  then show ?thesis
  proof cases
    case bare
    then have "\<not> list_ex py_isspace v" using assms(1) SearchTerm by (auto simp: plain_word_def list_ex_iff)
    then have "canonical_token tk = v" using bare SearchTerm by simp
    then have "parse_lexeme env lx = Inr (SearchTerm v False (lx_start lx) (lx_end lx))"
      using assms(1,3) bare SearchTerm by simp
    then show ?thesis using bare SearchTerm by simp
  next
    case inside
    then have "lx_raw lx = CHR 0x22 # escape_value v @ [CHR 0x22]" "v \<noteq> []"
      using assms SearchTerm by (simp_all add: canonical_value_def)
    from parse_quoted_term [OF this, of env] show ?thesis using inside SearchTerm by simp
  next
    case outside
    then have "lx_raw lx = v" "harmless v" using assms SearchTerm by (simp_all add: canonical_value_def)
    from parse_harmless_term [OF this(1) outside(2) this(2), of env] show ?thesis
      using outside SearchTerm plain_unquoted [of v] by (auto simp: canonical_value_def plain_word_def list_ex_iff)
  qed
next
  case (SearchQualifier key v negated q s e)
  then obtain body where body: "canonical_token tk = (if negated then ''-'' else []) @ key @ '':'' @ body" "quoted_text v body"
    using canonical_qualifier [of v key negated q s e] assms(2) by auto
  have "key \<in> set QUALIFIER_KEYS" "negated \<longrightarrow> key \<in> set NEGATABLE_KEYS" "validated_value env key v lx = Inr v"
    using assms(1) SearchQualifier by simp_all
  then obtain q' where "parse_lexeme env lx = Inr (SearchQualifier key v negated q' (lx_start lx) (lx_end lx))"
    using parse_lexeme_qualifier [of key negated lx body v env] assms(3) body by metis
  then show ?thesis using SearchQualifier by simp
qed

lemma mapE_reparse:
  assumes "list_all (parsed_token env) tks" "list_all stable_token tks" "map lx_raw lxs = map canonical_token tks"
  shows "\<exists>tks'. mapE (parse_lexeme env) lxs = Inr tks' \<and> map meaning tks' = map meaning tks \<and>
    map canonical_token tks' = map canonical_token tks"
  using assms
proof (induction tks arbitrary: lxs)
  case (Cons tk tks)
  then obtain lx lxs' where lxs: "lxs = lx # lxs'" "lx_raw lx = canonical_token tk" "map lx_raw lxs' = map canonical_token tks"
    by auto
  obtain tk' where "parse_lexeme env lx = Inr tk'" "meaning tk' = meaning tk" "canonical_token tk' = canonical_token tk"
    using reparse_token [of env tk lx] Cons.prems lxs by auto
  moreover obtain tks' where "mapE (parse_lexeme env) lxs' = Inr tks'" "map meaning tks' = map meaning tks"
      "map canonical_token tks' = map canonical_token tks"
    using Cons.IH [of lxs'] Cons.prems lxs by auto
  ultimately show ?case using lxs by simp
qed simp

lemma reparse_tokens:
  assumes "list_all (parsed_token env) tks" "list_all stable_token tks"
    and "validate_query env tks scope = Inr targets" "dict_has SCOPE_TARGETS scope"
  shows "\<exists>tks'. parse_search_query env (canonical_text tks) scope =
      Inr \<lparr>sq_raw = canonical_text tks, sq_canonical = canonical_text tks, sq_scope = scope, sq_tokens = tks', sq_targets = targets\<rparr>
    \<and> map meaning tks' = map meaning tks"
proof -
  have "list_all atomic (map canonical_token tks)"
    using assms(1,2) token_atomic by (auto simp: list_all_iff)
  then obtain lxs where lxs: "lex (canonical_text tks) = Inr lxs" "map lx_raw lxs = map canonical_token tks"
    using lex_join unfolding canonical_text_def by blast
  obtain tks' where tks': "mapE (parse_lexeme env) lxs = Inr tks'" "map meaning tks' = map meaning tks"
      "map canonical_token tks' = map canonical_token tks"
    using mapE_reparse [OF assms(1,2) lxs(2)] by blast
  have "validate_query env tks' scope = Inr targets"
    using validate_query_same [OF assms(3)] tks'(2) by simp
  moreover have "canonical_text tks' = canonical_text tks" unfolding canonical_text_def tks'(3) ..
  ultimately show ?thesis
    unfolding parse_search_query_def using assms(4) lxs tks' by simp
qed

lemma mapE_elems: "mapE f xs = Inr ys \<Longrightarrow> y \<in> set ys \<Longrightarrow> \<exists>x \<in> set xs. f x = Inr y"
  by (induction xs arbitrary: ys) (auto simp: bindE_Inr)

lemma parse_search_query_Inr:
  assumes "parse_search_query env query scope = Inr q"
  shows "dict_has SCOPE_TARGETS scope \<and> validate_query env (sq_tokens q) scope = Inr (sq_targets q) \<and>
    sq_canonical q = canonical_text (sq_tokens q) \<and> sq_scope q = scope"
  using assms by (auto simp: parse_search_query_def bindE_Inr split: if_splits)

lemma parse_search_query_parsed:
  assumes "url_stable env" "parse_search_query env query scope = Inr q"
  shows "list_all (parsed_token env) (sq_tokens q)"
proof -
  obtain lxs where lxs: "lex query = Inr lxs" "mapE (parse_lexeme env) lxs = Inr (sq_tokens q)"
    using assms(2) by (auto simp: parse_search_query_def bindE_Inr split: if_splits)
  have "parsed_token env tk" if tk: "tk \<in> set (sq_tokens q)" for tk
  proof -
    obtain lx where "lx \<in> set lxs" "parse_lexeme env lx = Inr tk" using mapE_elems [OF lxs(2) tk] by blast
    then show ?thesis using parse_lexeme_parsed [OF assms(1)] lex_good [OF lxs(1)] by blast
  qed
  then show ?thesis by (simp add: list_all_iff)
qed

lemma parse_probe_parsed:
  assumes "url_stable env" "parse_probe env t scope = Inr tk"
  shows "parsed_token env tk \<and> is_qualifier tk"
proof -
  obtain q where q: "parse_search_query env t scope = Inr q"
      "(case filter is_qualifier (sq_tokens q) of [] \<Rightarrow> Inl SearchValueError | tk # _ \<Rightarrow> Inr tk) = Inr tk"
    using assms(2) unfolding parse_probe_def bindE_Inr by (elim exE conjE)
  have "tk \<in> set (filter is_qualifier (sq_tokens q))"
    using q(2) by (cases "filter is_qualifier (sq_tokens q)") simp_all
  then show ?thesis using parse_search_query_parsed [OF assms(1) q(1)] by (simp add: list_all_iff)
qed

section \<open>Targets\<close>

lemma check_types_subset: "check_types allowed quals = Inr ts \<Longrightarrow> set ts \<subseteq> set allowed"
  by (auto simp: check_types_def Let_def split: if_splits)

lemma narrow_targets_subset: "narrow_targets env n quals allowed = Inr ts \<Longrightarrow> set ts \<subseteq> set allowed"
proof (induction quals arbitrary: allowed)
  case (Cons tk tks)
  then show ?case by (cases n) (fastforce simp: bindE_Inr Let_def split: if_splits option.splits)+
qed simp

lemma narrow_targets_supported:
  assumes "narrow_targets env True quals allowed = Inr ts" "tk \<in> set quals" "tk_key tk \<noteq> ''type''"
    and "targets_for_token env tk = Inr (Some supported)"
  shows "set ts \<subseteq> set supported"
  using assms
proof (induction quals arbitrary: allowed)
  case (Cons t tks)
  show ?case
  proof (cases "t = tk")
    case True
    then have "narrow_targets env True tks (filter (\<lambda>t. t \<in> set supported) allowed) = Inr ts"
      using Cons.prems by (auto simp: Let_def split: if_splits)
    then show ?thesis using narrow_targets_subset by fastforce
  next
    case False
    then have m: "tk \<in> set tks" using Cons.prems by simp
    obtain allowed' where "narrow_targets env True tks allowed' = Inr ts"
      using Cons.prems(1) by (auto simp: bindE_Inr Let_def split: if_splits option.splits)
    then show ?thesis using Cons.IH m Cons.prems by blast
  qed
qed simp

lemma narrow_targets_available:
  assumes "narrow_targets env n quals allowed = Inr ts" "tk \<in> set quals" "tk_key tk \<noteq> ''type''"
    and "targets_for_token env tk = Inr (Some supported)"
  shows "set supported \<inter> set allowed \<noteq> {}"
  using assms
proof (induction quals arbitrary: allowed)
  case (Cons t tks)
  show ?case
  proof (cases "t = tk")
    case True
    then show ?thesis using Cons.prems by (auto simp: Let_def filter_empty_conv split: if_splits)
  next
    case False
    then have m: "tk \<in> set tks" using Cons.prems by simp
    obtain allowed' where "narrow_targets env n tks allowed' = Inr ts" "set allowed' \<subseteq> set allowed"
    proof (cases "tk_key t = ''type''")
      case True
      then show ?thesis using that [of allowed] Cons.prems(1) by simp
    next
      case False
      then show ?thesis using that Cons.prems(1) by (auto simp: bindE_Inr Let_def split: if_splits option.splits)
    qed
    then show ?thesis using Cons.IH [of allowed'] m Cons.prems by blast
  qed
qed simp

lemma validate_query_targets:
  assumes "validate_query env tokens scope = Inr ts"
  shows "ts \<noteq> [] \<and> set ts \<subseteq> set (dict_get SCOPE_TARGETS scope []) \<and>
    (\<forall>tk \<in> set tokens. \<forall>supported. is_qualifier tk \<and> tk_key tk \<noteq> ''type'' \<and> targets_for_token env tk = Inr (Some supported) \<longrightarrow>
      set supported \<inter> set (dict_get SCOPE_TARGETS scope []) \<noteq> {}) \<and>
    (scope = ''global'' \<and> \<not> list_ex (has_key ''type'') tokens \<longrightarrow>
      (\<forall>tk \<in> set tokens. \<forall>supported. is_qualifier tk \<and> targets_for_token env tk = Inr (Some supported) \<longrightarrow> set ts \<subseteq> set supported))"
proof -
  define quals where "quals = filter is_qualifier tokens"
  let ?n = "scope = ''global'' \<and> \<not> list_ex (has_key ''type'') quals"
  obtain a0 a where a0: "check_types (dict_get SCOPE_TARGETS scope []) quals = Inr a0"
      and a: "narrow_targets env ?n quals a0 = Inr a" "a \<noteq> []"
      and ts: "ts = filter (\<lambda>t. t \<in> set a) (dict_get SCOPE_TARGETS scope [])"
    using assms unfolding validate_query_def Let_def quals_def [symmetric] by (auto simp: bindE_Inr split: if_splits)
  have sub: "set a \<subseteq> set (dict_get SCOPE_TARGETS scope [])"
    using check_types_subset [OF a0] narrow_targets_subset [OF a(1)] by blast
  then have ne: "ts \<noteq> []" "set ts = set a" using a(2) by (cases a; auto simp: ts filter_empty_conv)+
  have ty: "list_ex (has_key ''type'') quals = list_ex (has_key ''type'') tokens"
    by (auto simp: quals_def list_ex_iff has_key_def)
  have "set ts \<subseteq> set supported" if "scope = ''global''" "\<not> list_ex (has_key ''type'') tokens" "tk \<in> set tokens"
      "is_qualifier tk" "targets_for_token env tk = Inr (Some supported)" for tk supported
  proof -
    have "tk \<in> set quals" "tk_key tk \<noteq> ''type''" using that by (auto simp: quals_def list_ex_iff has_key_def)
    moreover have ?n using that ty by simp
    ultimately show ?thesis using narrow_targets_supported [of env quals a0 a tk supported] a that ne by simp
  qed
  moreover have "set supported \<inter> set (dict_get SCOPE_TARGETS scope []) \<noteq> {}" if "tk \<in> set tokens" "is_qualifier tk" "tk_key tk \<noteq> ''type''"
      "targets_for_token env tk = Inr (Some supported)" for tk supported
  proof -
    have "tk \<in> set quals" using that by (simp add: quals_def)
    from narrow_targets_available [OF a(1) this that(3,4)] show ?thesis using check_types_subset [OF a0] by blast
  qed
  ultimately show ?thesis using ne sub by blast
qed

section \<open>The probe of an edit\<close>

lemma canonical_value_last: "canonical_value v \<noteq> [] \<and> \<not> py_isspace (last (canonical_value v))"
proof (cases "needs_quotes v")
  case True
  then show ?thesis by (simp add: canonical_value_def py_isspace_def)
next
  case False
  then show ?thesis using not_needs_quotes [of v] by (auto simp: canonical_value_def)
qed

lemma probe_text_atomic: "k \<in> set QUALIFIER_KEYS \<Longrightarrow> atomic (probe_text negated k v)"
  using atomic_canonical_value [OF plain_key [of k negated], of v] by (simp add: probe_text_def)

lemma parse_one_lexeme:
  assumes "atomic w" "parse_search_query env w scope = Inr q"
  shows "\<exists>lx tk. lx_raw lx = w \<and> parse_lexeme env lx = Inr tk \<and> sq_tokens q = [tk]"
proof -
  obtain lx where lx: "lex w = Inr [lx]" "lx_raw lx = w"
    using lex_join [of "[w]"] assms(1) by (auto simp: map_eq_Cons_conv)
  then obtain tk where "parse_lexeme env lx = Inr tk" "sq_tokens q = [tk]"
    using assms(2) by (auto simp: parse_search_query_def bindE_Inr split: if_splits)
  then show ?thesis using lx by blast
qed

lemma parse_probe_qualifier:
  assumes "k \<in> set QUALIFIER_KEYS" "parse_probe env (probe_text negated k v) scope = Inr p"
  shows "\<exists>lx. parse_qualifier env lx negated k (canonical_value v) = Inr p \<and> (\<exists>ts. validate_query env [p] scope = Inr ts)"
proof -
  obtain q where q: "parse_search_query env (probe_text negated k v) scope = Inr q"
      "(case filter is_qualifier (sq_tokens q) of [] \<Rightarrow> Inl SearchValueError | tk # _ \<Rightarrow> Inr tk) = Inr p"
    using assms(2) unfolding parse_probe_def bindE_Inr by (elim exE conjE)
  obtain lx tk where lx: "lx_raw lx = probe_text negated k v" "parse_lexeme env lx = Inr tk" "sq_tokens q = [tk]"
    using parse_one_lexeme [OF probe_text_atomic [OF assms(1)] q(1)] by blast
  have "p = tk" using q(2) lx(3) by (cases "is_qualifier tk") simp_all
  moreover have "parse_lexeme env lx = parse_qualifier env lx negated k (canonical_value v)"
    using canonical_value_last [of v] lx(1) unfolding probe_text_def by (intro parse_lexeme_as_qualifier [OF assms(1)]) simp_all
  moreover have "\<exists>ts. validate_query env [tk] scope = Inr ts" using parse_search_query_Inr [OF q(1)] lx(3) by simp
  ultimately show ?thesis using lx(2) by auto
qed

lemma parse_qualifier_shape:
  assumes "parse_qualifier env lx negated k raw = Inr p"
  shows "is_qualifier p \<and> tk_key p = k \<and> tk_negated p = negated"
  using assms by (auto simp: parse_qualifier_def validate_value_def bindE_Inr is_qualifier_def split: if_splits)

lemma parse_probe_shape:
  assumes "k \<in> set QUALIFIER_KEYS" "parse_probe env (probe_text negated k v) scope = Inr p"
  shows "is_qualifier p \<and> tk_key p = k \<and> tk_negated p = negated"
  using parse_probe_qualifier [OF assms] parse_qualifier_shape by blast

lemma stable_qualifier: "is_qualifier p \<Longrightarrow> stable_token p \<longleftrightarrow> tk_value p \<noteq> []"
  by (cases p) (simp_all add: is_qualifier_def)

section \<open>The result of an edit\<close>

lemma reparse_meaning:
  assumes "list_all (parsed_token env) tks" "list_all stable_token tks"
    and "parse_search_query env (canonical_text tks) scope = Inr q"
  shows "map meaning (sq_tokens q) = map meaning tks"
proof -
  have "list_all atomic (map canonical_token tks)"
    using assms(1,2) token_atomic by (auto simp: list_all_iff)
  then obtain lxs where lxs: "lex (canonical_text tks) = Inr lxs" "map lx_raw lxs = map canonical_token tks"
    using lex_join unfolding canonical_text_def by blast
  obtain tks' where "mapE (parse_lexeme env) lxs = Inr tks'" "map meaning tks' = map meaning tks"
    using mapE_reparse [OF assms(1,2) lxs(2)] by blast
  then show ?thesis using assms(3) lxs by (auto simp: parse_search_query_def bindE_Inr split: if_splits)
qed

definition selected_values :: "search_token list \<Rightarrow> string \<Rightarrow> bool option \<Rightarrow> string list" where
  "selected_values tks key negated =
    map tk_value (filter (\<lambda>tk. has_key key tk \<and> (case negated of None \<Rightarrow> True | Some b \<Rightarrow> tk_negated tk = b)) tks)"

lemma selected_values_meaning: "selected_values (map meaning tks) key negated = selected_values tks key negated"
proof -
  have "filter (\<lambda>tk. has_key key tk \<and> (case negated of None \<Rightarrow> True | Some b \<Rightarrow> tk_negated tk = b)) (map meaning tks) =
    map meaning (filter (\<lambda>tk. has_key key tk \<and> (case negated of None \<Rightarrow> True | Some b \<Rightarrow> tk_negated tk = b)) tks)"
    by (rule filter_meaning) (auto simp: has_key_def split: option.split)
  then show ?thesis by (simp add: selected_values_def)
qed

lemma query_values_same:
  "map meaning (sq_tokens q) = map meaning tks \<Longrightarrow> query_values q key negated = selected_values tks key negated"
  using selected_values_meaning [of "sq_tokens q"] selected_values_meaning [of tks]
  by (simp add: query_values_def selected_values_def)

lemma compose_parts:
  assumes "compose_search_query env query scope key v operation negated rv = Inr q"
  shows "\<exists>parsed probe tokens. parse_search_query env query scope = Inr parsed \<and> py_lower key \<in> set QUALIFIER_KEYS \<and>
    (case v of None \<Rightarrow> probe = None
     | Some x \<Rightarrow> \<exists>p. probe = Some p \<and> parse_probe env (probe_text negated (py_lower key) x) scope = Inr p) \<and>
    edit_tokens env scope (py_lower key) v operation negated rv probe (sq_tokens parsed) = Inr tokens \<and>
    parse_search_query env (canonical_text tokens) scope = Inr q"
  using assms unfolding compose_search_query_def Let_def bindE_Inr
  by (cases v) (auto simp: bindE_Inr split: if_splits)

end
