(* ===== verification/Search_Properties.thy ===== *)
theory Search_Properties
  imports Search_Reparse
begin

text \<open>
  Properties of the search language. The provider of the witnesses recognises one work of one
  source and returns its address in a fixed form.
\<close>

definition demo_search_env :: search_env where
  "demo_search_env =
    \<lparr>env_hostname = (\<lambda>_. Inr (Some ''www.pixiv.net'')), env_fromiso = (\<lambda>_. True),
     env_provider_url = (\<lambda>_ _. Some (''work'', ''https://www.pixiv.net/artworks/456''))\<rparr>"











text \<open>C37. No edit can choose the order by relevance: whatever the query, the scope and the operation,
  composing \<open>sort\<close> with \<open>relevance\<close> fails, also when the query has text to rank by, because the
  chosen qualifier is first parsed alone, and alone it has no text.\<close>

lemma sort_relevance_rejected:
  assumes "has_key ''sort'' p" "tk_value p = ''relevance''"
  shows "validate_query env [p] scope \<noteq> Inr ts"
proof -
  have "is_qualifier p" using assms by (simp add: has_key_def)
  then have "\<exists>e. check_sort [p] [p] = Inl e" using assms by (simp add: check_sort_def)
  then show ?thesis using \<open>is_qualifier p\<close> by (auto simp: validate_query_def Let_def bindE_Inr)
qed

theorem compose_relevance_fails:
  "\<exists>e. compose_search_query env query scope ''sort'' (Some ''relevance'') operation negated rv = Inl e"
proof (cases "compose_search_query env query scope ''sort'' (Some ''relevance'') operation negated rv")
  case (Inr q)
  have low: "py_lower ''sort'' = ''sort''" by code_simp
  have key: "''sort'' \<in> set QUALIFIER_KEYS" by code_simp
  obtain p where p: "parse_probe env (probe_text negated ''sort'' ''relevance'') scope = Inr p"
    using compose_parts [OF Inr] low by auto
  obtain lx ts where q: "parse_qualifier env lx negated ''sort'' (canonical_value ''relevance'') = Inr p"
      and ok: "validate_query env [p] scope = Inr ts"
    using parse_probe_qualifier [OF key p] by blast
  have dec: "decode_value (canonical_value ''relevance'') lx = Inr (''relevance'', needs_quotes ''relevance'')"
    by (rule decode_canonical) simp
  have val: "\<And>v. validated_value env ''sort'' ''relevance'' lx = Inr v \<Longrightarrow> v = ''relevance''"
  proof -
    have low: "py_lower (py_strip ''relevance'') = ''relevance''" by code_simp
    show "v = ''relevance''" if "validated_value env ''sort'' ''relevance'' lx = Inr v" for v
      using that low by (simp add: validated_value_def Let_def check_member_Inr)
  qed
  have "tk_value p = ''relevance''"
    using q dec val by (auto simp: parse_qualifier_def validate_value_def bindE_Inr split: if_splits)
  then show ?thesis using sort_relevance_rejected [of p env scope ts] ok parse_qualifier_shape [OF q] by (simp add: has_key_def)
qed simp

text \<open>C38. The text of a quoted term can lose its quotes in the canonical form and then be read as an
  operator: the accepted query \<open>"OR"\<close> has a canonical form that is rejected.\<close>

theorem quoted_operator_lost:
  "\<exists>q e. parse_search_query env (quote_mark @ ''OR'' @ quote_mark) ''global'' = Inr q \<and>
     parse_search_query env (sq_canonical q) ''global'' = Inl e"
proof -
  let ?lx = "\<lparr>lx_raw = quote_mark @ ''OR'' @ quote_mark, lx_start = 0, lx_end = 4\<rparr>"
  let ?lx' = "\<lparr>lx_raw = ''OR'', lx_start = 0, lx_end = 2\<rparr>"
  let ?tk = "SearchTerm ''OR'' True 0 4"
  let ?q = "\<lparr>sq_raw = quote_mark @ ''OR'' @ quote_mark, sq_canonical = ''OR'', sq_scope = ''global'', sq_tokens = [?tk],
    sq_targets = dict_get SCOPE_TARGETS ''global'' []\<rparr>"
  have lex1: "lex (quote_mark @ ''OR'' @ quote_mark) = Inr [?lx]" and lex2: "lex ''OR'' = Inr [?lx']" by code_simp+
  have esc: "quote_mark @ ''OR'' @ quote_mark = CHR 0x22 # escape_value ''OR'' @ [CHR 0x22]" by code_simp
  have scope: "dict_has SCOPE_TARGETS ''global''" by code_simp
  have tk: "parse_lexeme env ?lx = Inr ?tk" using parse_quoted_term [of ?lx "''OR''" env] esc by simp
  have canonical: "canonical_text [?tk] = ''OR''" by code_simp
  have checks: "check_types ts [] = Inr ts" "check_conflicts [] cs = Inr ()" "check_overlap [] = Inr ()" "check_sort tks [] = Inr ()" for ts cs tks
    by (induction cs) (simp_all add: check_types_def check_overlap_def check_sort_def conflict_found_def)
  have val: "validate_query env [?tk] ''global'' = Inr (dict_get SCOPE_TARGETS ''global'' [])"
  proof -
    have "dict_get SCOPE_TARGETS ''global'' [] \<noteq> []" by code_simp
    then show ?thesis by (simp add: validate_query_def Let_def is_qualifier_def checks)
  qed
  have "parse_search_query env (quote_mark @ ''OR'' @ quote_mark) ''global'' = Inr ?q"
    unfolding parse_search_query_def lex1 using scope tk val canonical by simp
  moreover have "parse_lexeme env ?lx' = Inl (lex_error ''unsupported_operator'' ?lx' [])"
  proof -
    have "parse_lexeme env ?lx' = parse_term ?lx'"
      by (rule parse_lexeme_term [OF _ refl]) (code_simp | simp)+
    also have "\<dots> = Inl (lex_error ''unsupported_operator'' ?lx' [])" by code_simp
    finally show ?thesis .
  qed
  ultimately show ?thesis using lex2 scope by (intro exI conjI) (assumption, simp add: parse_search_query_def)
qed

text \<open>The catalogue of the task scope offers the qualifier \<open>uid\<close>, but no accepted query of that
  scope has one.\<close>

theorem catalog_offers_rejected:
  assumes "parse_search_query env query ''tasks'' = Inr q"
  shows "''uid'' \<in> set (map ce_key (qualifier_catalog ''tasks'')) \<and> \<not> list_ex (has_key ''uid'') (sq_tokens q)"
proof -
  have offered: "''uid'' \<in> set (map ce_key (qualifier_catalog ''tasks''))" by code_simp
  have apart: "map_of QUALIFIER_TARGETS ''uid'' = Some [''works'', ''creators'', ''repositories'', ''subscriptions'']"
    "dict_get SCOPE_TARGETS ''tasks'' [] = [''tasks'']" by code_simp+
  have "\<not> has_key ''uid'' tk" if "tk \<in> set (sq_tokens q)" for tk
  proof
    assume k: "has_key ''uid'' tk"
    then have "targets_for_token env tk = Inr (Some [''works'', ''creators'', ''repositories'', ''subscriptions''])"
      using apart by (simp add: targets_for_token_def has_key_def)
    moreover have "validate_query env (sq_tokens q) ''tasks'' = Inr (sq_targets q)" using parse_search_query_Inr [OF assms] by simp
    note validate_query_targets [OF this, THEN conjunct2, THEN conjunct2, THEN conjunct1, rule_format, OF that]
    ultimately have "set [''works'', ''creators'', ''repositories'', ''subscriptions''] \<inter> set (dict_get SCOPE_TARGETS ''tasks'' []) \<noteq> {}"
      using k by (simp only: has_key_def) simp
    then show False using apart by simp
  qed
  then show ?thesis using offered by (simp add: list_ex_iff)
qed

theorem catalog_offers_rejected_witness:
  "\<exists>q. parse_search_query demo_search_env ''status:failed'' ''tasks'' = Inr q \<and> \<not> list_ex (has_key ''uid'') (sq_tokens q)"
proof -
  let ?s = "parse_search_query demo_search_env ''status:failed'' ''tasks''"
  have "case_sum (\<lambda>_. False) (\<lambda>_. True) ?s" by code_simp
  then obtain q where q: "?s = Inr q" by (cases ?s) simp_all
  show ?thesis using catalog_offers_rejected [OF q] q by blast
qed

end
