(* ===== verification/Heavy_IO.thy ===== *)
theory Heavy_IO
  imports Pressure_Budget
begin

text \<open>
  Admission of heavy work: \<^verbatim>\<open>backend/app/services/heavy_io.py\<close> and the durable marker of
  \<^verbatim>\<open>remote_search_flight.py\<close>.

  Redis is not part of the source: its commands are the argument \<open>R\<close>, a record of functions on an
  opaque server state, and \<open>redis_laws\<close> states the documented behaviour the code relies on. The Lua
  scripts are part of the source and are translated over these commands; a script runs atomically.
  A stored text is represented by what it decodes to. \<^verbatim>\<open>flock\<close> is modelled as a table of holders
  per path. Connection failures and \<^verbatim>\<open>OSError\<close> are not modelled; time passes between operations
  only by the expiry of keys.
\<close>

section \<open>Redis\<close>

record lease_payload =
  lp_token :: string
  lp_owner :: string
  lp_workload :: string
  lp_profile :: string
  lp_reserved_bytes :: int
  lp_capacity_bytes :: int
  lp_acquired_at :: string

text \<open>\<open>mk_task_uid\<close> is \<open>None\<close> while the key is missing.\<close>

record flight_marker =
  mk_owner :: string
  mk_workload :: string
  mk_profile :: string
  mk_reserved_bytes :: int
  mk_task_uid :: "int option option"

datatype redis_value = RLease lease_payload | RMarker flight_marker | RNum int | RText string

record 's redis_ops =
  r_get :: "'s \<Rightarrow> string \<Rightarrow> redis_value option"
  r_set :: "'s \<Rightarrow> string \<Rightarrow> redis_value \<Rightarrow> int option \<Rightarrow> 's"
  r_del :: "'s \<Rightarrow> string \<Rightarrow> 's"
  r_expire :: "'s \<Rightarrow> string \<Rightarrow> int \<Rightarrow> 's"
  r_time :: "'s \<Rightarrow> int"
  r_llen :: "'s \<Rightarrow> string \<Rightarrow> nat"
  r_zcard :: "'s \<Rightarrow> string \<Rightarrow> nat"

definition redis_laws :: "'s redis_ops \<Rightarrow> bool" where
  "redis_laws R \<longleftrightarrow>
     (\<forall>s k v ex. (case ex of None \<Rightarrow> True | Some n \<Rightarrow> 0 < n) \<longrightarrow> r_get R (r_set R s k v ex) k = Some v) \<and>
     (\<forall>s k k' v ex. k' \<noteq> k \<longrightarrow> r_get R (r_set R s k v ex) k' = r_get R s k') \<and>
     (\<forall>s k. r_get R (r_del R s k) k = None) \<and>
     (\<forall>s k k'. k' \<noteq> k \<longrightarrow> r_get R (r_del R s k) k' = r_get R s k') \<and>
     (\<forall>s k k' n. 0 < n \<longrightarrow> r_get R (r_expire R s k n) k' = r_get R s k')"

definition r_exists :: "'s redis_ops \<Rightarrow> 's \<Rightarrow> string \<Rightarrow> bool" where
  "r_exists R s k \<longleftrightarrow> r_get R s k \<noteq> None"

text \<open>\<^verbatim>\<open>SET key value NX EX n\<close>\<close>

definition r_set_nx :: "'s redis_ops \<Rightarrow> 's \<Rightarrow> string \<Rightarrow> redis_value \<Rightarrow> int \<Rightarrow> bool \<times> 's" where
  "r_set_nx R s k v ex = (if r_exists R s k then (False, s) else (True, r_set R s k v (Some ex)))"

section \<open>Keys\<close>

definition HEAVY_IO_LOCK_KEY :: string where "HEAVY_IO_LOCK_KEY = ''lock:heavy-io''"
definition RESOURCE_NETWORK_TOKEN_KEY :: string where "RESOURCE_NETWORK_TOKEN_KEY = ''lock:resource-budget:network''"
definition RESOURCE_DISK_TOKEN_KEY :: string where "RESOURCE_DISK_TOKEN_KEY = ''lock:resource-budget:disk''"
definition RESOURCE_BACKGROUND_TOKEN_KEY :: string where "RESOURCE_BACKGROUND_TOKEN_KEY = ''lock:resource-budget:background''"
definition REMOTE_RESERVATION_KEY :: string where "REMOTE_RESERVATION_KEY = ''lock:resource-budget:remote-search''"
definition LAST_BACKGROUND_KEY :: string where "LAST_BACKGROUND_KEY = ''resource:lanes:last-background''"

definition RESOURCE_RESERVATION_KEYS :: "string list" where
  "RESOURCE_RESERVATION_KEYS =
    [RESOURCE_NETWORK_TOKEN_KEY, RESOURCE_DISK_TOKEN_KEY, RESOURCE_BACKGROUND_TOKEN_KEY, REMOTE_RESERVATION_KEY]"

lemmas heavy_io_keys [table_defs] =
  HEAVY_IO_LOCK_KEY_def RESOURCE_NETWORK_TOKEN_KEY_def RESOURCE_DISK_TOKEN_KEY_def
  RESOURCE_BACKGROUND_TOKEN_KEY_def REMOTE_RESERVATION_KEY_def LAST_BACKGROUND_KEY_def
  RESOURCE_RESERVATION_KEYS_def

section \<open>The Lua scripts\<close>

definition renew_script :: "'s redis_ops \<Rightarrow> 's \<Rightarrow> string \<Rightarrow> redis_value \<Rightarrow> int \<Rightarrow> int \<times> 's" where
  "renew_script R s k v ex = (if r_get R s k = Some v then (1, r_expire R s k ex) else (0, s))"

definition release_script :: "'s redis_ops \<Rightarrow> 's \<Rightarrow> string \<Rightarrow> redis_value \<Rightarrow> int \<times> 's" where
  "release_script R s k v = (if r_get R s k = Some v then (1, r_del R s k) else (0, s))"

datatype script_stop = Returned int | ScriptError

text \<open>
  The loop over the reservations: a text that does not decode stops the script with -2, indexing a
  number raises in Lua.
\<close>

fun reserved_total :: "redis_value option list \<Rightarrow> int \<Rightarrow> script_stop + int" where
  "reserved_total [] used = Inr used"
| "reserved_total (None # vs) used = reserved_total vs used"
| "reserved_total (Some (RLease l) # vs) used = reserved_total vs (used + lp_reserved_bytes l)"
| "reserved_total (Some (RMarker m) # vs) used = reserved_total vs (used + mk_reserved_bytes m)"
| "reserved_total (Some (RText t) # vs) used = Inl (Returned (- 2))"
| "reserved_total (Some (RNum n) # vs) used = Inl ScriptError"

definition ingest_ready :: "'s redis_ops \<Rightarrow> 's \<Rightarrow> bool" where
  "ingest_ready R s \<longleftrightarrow> r_exists R s RESOURCE_DISK_TOKEN_KEY \<or> 0 < r_llen R s ''rq:queue:imports'' \<or>
     0 < r_zcard R s ''rq:wip:imports''"

text \<open>The fairness test of the background lane; \<open>Inr\<close> is the state in which the script goes on.\<close>

definition background_turn :: "'s redis_ops \<Rightarrow> 's \<Rightarrow> (script_stop \<times> 's) + 's" where
  "background_turn R s =
    (if \<not> ingest_ready R s then Inr s
     else case r_get R s LAST_BACKGROUND_KEY of
            None \<Rightarrow> Inl (Returned (- 3), snd (r_set_nx R s LAST_BACKGROUND_KEY (RNum (r_time R s)) 86400))
          | Some (RNum before) \<Rightarrow> if r_time R s - before < 60 then Inl (Returned (- 3), s) else Inr s
          | Some _ \<Rightarrow> Inl (ScriptError, s))"

definition reserve_script ::
  "'s redis_ops \<Rightarrow> 's \<Rightarrow> string list \<Rightarrow> redis_value \<Rightarrow> int \<Rightarrow> int \<Rightarrow> int \<Rightarrow> script_stop \<times> 's" where
  "reserve_script R s keys v requested capacity ex =
    (let k = hd keys
     in if r_exists R s k then (Returned 0, s)
        else case reserved_total (map (r_get R s) (tl keys)) 0 of
               Inl stop \<Rightarrow> (stop, s)
             | Inr used \<Rightarrow>
                 if capacity < used + requested then (Returned (- 1), s)
                 else case (if k = RESOURCE_BACKGROUND_TOKEN_KEY then background_turn R s else Inr s) of
                        Inl (stop, s') \<Rightarrow> (stop, s')
                      | Inr s' \<Rightarrow>
                          (case r_set_nx R s' k v ex of
                             (True, s2) \<Rightarrow>
                               (Returned 1,
                                if k = RESOURCE_BACKGROUND_TOKEN_KEY
                                then r_set R s2 LAST_BACKGROUND_KEY (RNum (r_time R s')) (Some 86400) else s2)
                           | (False, s2) \<Rightarrow> (Returned 0, s2)))"

section \<open>The durable marker of a remote search flight\<close>

text \<open>The marker file and the server state; the \<^verbatim>\<open>flock\<close> guard makes each operation atomic.\<close>

definition new_marker :: "string \<Rightarrow> string \<Rightarrow> flight_marker" where
  "new_marker receipt workload =
    (let name = workload_profile_name (Some workload)
     in \<lparr>mk_owner = receipt, mk_workload = workload, mk_profile = name,
         mk_reserved_bytes = memory_reservation_bytes (the (map_of RESOURCE_PROFILES name)), mk_task_uid = None\<rparr>)"

datatype flight_error = AnotherFlight | OwnershipLost

definition create_marker ::
  "'s redis_ops \<Rightarrow> string \<Rightarrow> string \<Rightarrow> flight_marker option \<times> 's \<Rightarrow> flight_error + flight_marker option \<times> 's" where
  "create_marker R receipt workload = (\<lambda>(file, s).
    case file of
      Some existing \<Rightarrow> if mk_owner existing \<noteq> receipt then Inl AnotherFlight else Inr (file, s)
    | None \<Rightarrow>
        let m = new_marker receipt workload
        in Inr (Some m, r_set R s REMOTE_RESERVATION_KEY (RMarker m) None))"

definition clear_marker ::
  "'s redis_ops \<Rightarrow> string \<Rightarrow> flight_marker option \<times> 's \<Rightarrow> flight_marker option \<times> 's" where
  "clear_marker R receipt = (\<lambda>(file, s).
    case file of
      Some m \<Rightarrow> if mk_owner m = receipt then (None, r_del R s REMOTE_RESERVATION_KEY) else (file, s)
    | None \<Rightarrow> (file, s))"

definition reconcile_reservation :: "'s redis_ops \<Rightarrow> flight_marker option \<times> 's \<Rightarrow> 's" where
  "reconcile_reservation R = (\<lambda>(file, s).
    case file of
      Some m \<Rightarrow> r_set R s REMOTE_RESERVATION_KEY (RMarker m) None
    | None \<Rightarrow> r_del R s REMOTE_RESERVATION_KEY)"

definition record_task ::
  "string \<Rightarrow> int option \<Rightarrow> flight_marker option \<Rightarrow> flight_error + flight_marker option" where
  "record_task receipt task_uid file =
    (case file of
       None \<Rightarrow> Inl OwnershipLost
     | Some m \<Rightarrow> if mk_owner m \<noteq> receipt then Inl OwnershipLost else Inr (Some (m\<lparr>mk_task_uid := Some task_uid\<rparr>)))"

text \<open>\<^verbatim>\<open>_RESTORE_AND_FENCE_SCRIPT\<close> followed by the reservation script, in one execution.\<close>

definition reserve_memory ::
  "'s redis_ops \<Rightarrow> flight_marker option \<times> 's \<Rightarrow> string list \<Rightarrow> redis_value \<Rightarrow> int \<Rightarrow> int \<Rightarrow> int \<Rightarrow> script_stop \<times> 's" where
  "reserve_memory R = (\<lambda>(file, s) keys v requested capacity ex.
    let s1 = reconcile_reservation R (file, s)
    in case file of
         Some m \<Rightarrow>
           if mk_profile m = ''maintenance'' \<or> hd keys = RESOURCE_BACKGROUND_TOKEN_KEY \<or> hd keys = HEAVY_IO_LOCK_KEY
           then (Returned (- 4), s1)
           else reserve_script R s1 keys v requested capacity ex
       | None \<Rightarrow> reserve_script R s1 keys v requested capacity ex)"

section \<open>Keys and locks of a workload\<close>

definition workload_conflict_group :: "string \<Rightarrow> string option" where
  "workload_conflict_group workload =
    (let name = workload_profile_name (Some workload)
     in if name = ''download_network'' then None
        else if name \<in> {''image_derive'', ''video_derive''} then Some ''media''
        else if name = ''maintenance'' then Some ''maintenance''
        else if name = ''light'' then None
        else Some (replace_char (CHR ''_'') (CHR ''-'') name))"

definition lane_group :: "string option \<Rightarrow> string \<Rightarrow> string" where
  "lane_group lane grp = (case lane of None \<Rightarrow> grp | Some l \<Rightarrow> l @ ''-'' @ grp)"

definition profile_lease_key :: "string \<Rightarrow> string option \<Rightarrow> string option" where
  "profile_lease_key workload lane =
    (case workload_conflict_group workload of
       None \<Rightarrow> None
     | Some grp \<Rightarrow>
         if grp = ''maintenance'' then Some HEAVY_IO_LOCK_KEY
         else Some (''lock:resource-profile:'' @ lane_group lane grp))"

text \<open>\<open>Inl ()\<close> is the \<^verbatim>\<open>ValueError\<close> of an unsupported lane.\<close>

definition resource_budget_token_key :: "string \<Rightarrow> string option \<Rightarrow> unit + string option" where
  "resource_budget_token_key workload lane =
    (let name = workload_profile_name (Some workload)
     in if lane \<notin> {None, Some ''ingest'', Some ''background''} then Inl ()
        else if name = ''light'' then Inr None
        else if name = ''maintenance'' then Inr (Some HEAVY_IO_LOCK_KEY)
        else if name = ''download_network'' then Inr (Some RESOURCE_NETWORK_TOKEN_KEY)
        else if lane = Some ''ingest'' \<or> (lane = None \<and> name = ''import_db'') then Inr (Some RESOURCE_DISK_TOKEN_KEY)
        else Inr (Some RESOURCE_BACKGROUND_TOKEN_KEY))"

definition opt_list :: "'a option \<Rightarrow> 'a list" where
  "opt_list v = (case v of None \<Rightarrow> [] | Some x \<Rightarrow> [x])"

definition resource_lease_keys :: "string \<Rightarrow> string option \<Rightarrow> unit + string list" where
  "resource_lease_keys workload lane =
    bindE (resource_budget_token_key workload lane) (\<lambda>token.
      Inr (dedup (opt_list token @ opt_list (profile_lease_key workload lane))))"

text \<open>Requested bytes and the capacity above the hard floor; \<open>live\<close> is the current value of
  \<^verbatim>\<open>MemAvailable\<close>, \<open>None\<close> when it cannot be read.\<close>

definition resource_reservation_details :: "pressure_snapshot \<Rightarrow> string \<Rightarrow> int option \<Rightarrow> int \<times> int" where
  "resource_reservation_details sn workload live =
    (let name = workload_profile_name (Some workload);
         base = memory_reservation_bytes (the (map_of RESOURCE_PROFILES name));
         reservation = (case published_profile sn name of None \<Rightarrow> Absent | Some p \<Rightarrow> pp_reservation p)
     in case (case reservation of Absent \<Rightarrow> Some base | Malformed \<Rightarrow> None | Given n \<Rightarrow> Some n) of
          None \<Rightarrow> (base, 0)
        | Some n \<Rightarrow>
            let requested = max 0 n
            in case (sn_available_bytes sn, sn_hard_floor_bytes sn) of
                 (Given available, Given hard_floor) \<Rightarrow>
                   (case live of
                      None \<Rightarrow> (requested, 0)
                    | Some current \<Rightarrow> (requested, max 0 (min available current - hard_floor)))
               | _ \<Rightarrow> (requested, 0))"

section \<open>Advisory file locks\<close>

text \<open>The holders of each path with their mode; a holder is an open file description.\<close>

type_synonym lock_table = "string \<Rightarrow> (nat \<times> bool) list"

record local_lock =
  ll_path :: string
  ll_shared :: bool
  ll_held :: bool

definition new_lock :: "string \<Rightarrow> bool \<Rightarrow> local_lock" where
  "new_lock path sh = \<lparr>ll_path = path, ll_shared = sh, ll_held = False\<rparr>"

text \<open>\<^verbatim>\<open>flock(fd, mode | LOCK_NB)\<close> succeeds\<close>

definition flock_free :: "lock_table \<Rightarrow> string \<Rightarrow> bool \<Rightarrow> bool" where
  "flock_free table path sh = (if sh then list_all snd (table path) else table path = [])"

definition lock_try_acquire :: "nat \<Rightarrow> local_lock \<Rightarrow> lock_table \<Rightarrow> bool \<times> local_lock \<times> lock_table" where
  "lock_try_acquire i l table =
    (if ll_held l then (True, l, table)
     else if flock_free table (ll_path l) (ll_shared l)
     then (True, l\<lparr>ll_held := True\<rparr>, table(ll_path l := (i, ll_shared l) # table (ll_path l)))
     else (False, l, table))"

definition lock_release :: "nat \<Rightarrow> local_lock \<Rightarrow> lock_table \<Rightarrow> local_lock \<times> lock_table" where
  "lock_release i l table =
    (if \<not> ll_held l then (l, table)
     else (l\<lparr>ll_held := False\<rparr>, table(ll_path l := filter (\<lambda>h. fst h \<noteq> i) (table (ll_path l)))))"

text \<open>The loop of \<^verbatim>\<open>LocalResourceLocks.try_acquire\<close>: the locks taken so far are given back in
  reverse order when one is refused.\<close>

fun acquire_all :: "nat \<Rightarrow> local_lock list \<Rightarrow> lock_table \<Rightarrow> bool \<times> local_lock list \<times> lock_table" where
  "acquire_all i [] table = (True, [], table)"
| "acquire_all i (l # ls) table =
    (case lock_try_acquire i l table of
       (False, l', table') \<Rightarrow> (False, l' # ls, table')
     | (True, l', table') \<Rightarrow>
         (case acquire_all i ls table' of
            (True, ls', table2) \<Rightarrow> (True, l' # ls', table2)
          | (False, ls', table2) \<Rightarrow>
              (case lock_release i l' table2 of (l2, table3) \<Rightarrow> (False, l2 # ls', table3))))"

fun release_all :: "nat \<Rightarrow> local_lock list \<Rightarrow> lock_table \<Rightarrow> local_lock list \<times> lock_table" where
  "release_all i [] table = ([], table)"
| "release_all i (l # ls) table =
    (case release_all i ls table of
       (ls', table') \<Rightarrow> (case lock_release i l table' of (l', table2) \<Rightarrow> (l' # ls', table2)))"

record resource_locks =
  rl_locks :: "local_lock list"
  rl_remote_exclusive :: bool

definition locks_try_acquire ::
  "nat \<Rightarrow> flight_marker option \<Rightarrow> resource_locks \<Rightarrow> lock_table \<Rightarrow> bool \<times> resource_locks \<times> lock_table" where
  "locks_try_acquire i file rl table =
    (case acquire_all i (rl_locks rl) table of
       (False, ls, table') \<Rightarrow> (False, rl\<lparr>rl_locks := ls\<rparr>, table')
     | (True, ls, table') \<Rightarrow>
         (case file of
            None \<Rightarrow> (True, rl\<lparr>rl_locks := ls\<rparr>, table')
          | Some m \<Rightarrow>
              if rl_remote_exclusive rl \<or> mk_profile m = ''maintenance''
              then (case release_all i ls table' of (ls', table2) \<Rightarrow> (False, rl\<lparr>rl_locks := ls'\<rparr>, table2))
              else (True, rl\<lparr>rl_locks := ls\<rparr>, table')))"

definition locks_release :: "nat \<Rightarrow> resource_locks \<Rightarrow> lock_table \<Rightarrow> resource_locks \<times> lock_table" where
  "locks_release i rl table = (case release_all i (rl_locks rl) table of (ls, table') \<Rightarrow> (rl\<lparr>rl_locks := ls\<rparr>, table'))"

text \<open>The lock files are named relative to their directory; \<open>digest\<close> is the first 24 digits of the
  SHA-256 of the source identity.\<close>

definition BARRIER :: string where "BARRIER = ''heavy-io.lock''"

definition source_lock_name :: "(string \<Rightarrow> string) \<Rightarrow> string \<Rightarrow> string" where
  "source_lock_name digest source_identity = ''source-'' @ digest source_identity @ ''.lock''"

definition lane_locks :: "string option \<Rightarrow> local_lock list" where
  "lane_locks token =
    (if token = Some RESOURCE_DISK_TOKEN_KEY then [new_lock ''lane-ingest.lock'' False]
     else if token = Some RESOURCE_BACKGROUND_TOKEN_KEY then [new_lock ''lane-background.lock'' False]
     else [])"

definition group_locks :: "string option \<Rightarrow> string option \<Rightarrow> local_lock list" where
  "group_locks grp lane =
    (case grp of None \<Rightarrow> [] | Some g \<Rightarrow> [new_lock (''profile-'' @ lane_group lane g @ ''.lock'') False])"

definition source_locks :: "(string \<Rightarrow> string) \<Rightarrow> string option \<Rightarrow> local_lock list" where
  "source_locks digest source_identity =
    (case source_identity of
       Some (c # cs) \<Rightarrow> [new_lock (source_lock_name digest (c # cs)) False]
     | _ \<Rightarrow> [])"

definition local_lock_for_workload ::
  "(string \<Rightarrow> string) \<Rightarrow> string \<Rightarrow> string option \<Rightarrow> string option \<Rightarrow> unit + resource_locks option" where
  "local_lock_for_workload digest workload source_identity lane =
    (let name = workload_profile_name (Some workload);
         grp = workload_conflict_group workload
     in if grp = Some ''maintenance''
        then Inr (Some \<lparr>rl_locks = [new_lock BARRIER False], rl_remote_exclusive = True\<rparr>)
        else if name = ''light'' then Inr None
        else bindE (resource_budget_token_key workload lane) (\<lambda>token.
          Inr (Some \<lparr>rl_locks = new_lock BARRIER True # lane_locks token @ group_locks grp lane @ source_locks digest source_identity,
                     rl_remote_exclusive = (token = Some RESOURCE_BACKGROUND_TOKEN_KEY)\<rparr>)))"

definition local_source_lock :: "(string \<Rightarrow> string) \<Rightarrow> string \<Rightarrow> resource_locks" where
  "local_source_lock digest source_identity =
    \<lparr>rl_locks = [new_lock (source_lock_name digest source_identity) False], rl_remote_exclusive = False\<rparr>"

definition source_lock_key :: "(string \<Rightarrow> string) \<Rightarrow> string \<Rightarrow> string" where
  "source_lock_key digest source_identity = ''lock:heavy-io:source:'' @ digest source_identity"

section \<open>Renewable leases\<close>

record lease =
  le_keys :: "string list"
  le_workload :: string
  le_lease_seconds :: int
  le_renew_seconds :: int
  le_reservation_key :: "string option"
  le_reservation_bytes :: int
  le_capacity_bytes :: int
  le_payload :: lease_payload
  le_denial :: "string option"
  le_acquired :: bool
  le_lost :: bool

text \<open>The constructor; the token and the time stamp are arguments. \<open>None\<close> is the \<^verbatim>\<open>ValueError\<close> of an
  empty list of keys.\<close>

definition new_lease ::
  "string list \<Rightarrow> string \<Rightarrow> string \<Rightarrow> int \<Rightarrow> int \<Rightarrow> string option \<Rightarrow> int \<Rightarrow> int \<Rightarrow> string \<Rightarrow> string \<Rightarrow> lease option" where
  "new_lease keys workload owner lease_seconds renew_seconds reservation_key reservation capacity token stamp =
    (if keys = [] then None
     else let ks = dedup keys;
              secs = max 30 lease_seconds;
              rk = (case reservation_key of None \<Rightarrow> None | Some k \<Rightarrow> if k \<in> set ks then Some k else None);
              ks' = (case rk of None \<Rightarrow> ks | Some k \<Rightarrow> k # remove1 k ks)
          in Some \<lparr>le_keys = ks', le_workload = workload, le_lease_seconds = secs,
                   le_renew_seconds = max 5 (min renew_seconds (secs div 2)),
                   le_reservation_key = rk, le_reservation_bytes = max 0 reservation, le_capacity_bytes = max 0 capacity,
                   le_payload = \<lparr>lp_token = token, lp_owner = owner, lp_workload = workload,
                     lp_profile = workload_profile_name (Some workload), lp_reserved_bytes = max 0 reservation,
                     lp_capacity_bytes = max 0 capacity, lp_acquired_at = stamp\<rparr>,
                   le_denial = None, le_acquired = False, le_lost = False\<rparr>)"

definition le_value :: "lease \<Rightarrow> redis_value" where
  "le_value le = RLease (le_payload le)"

text \<open>\<^verbatim>\<open>_release_keys\<close>: every key in reverse order.\<close>

definition release_keys :: "'s redis_ops \<Rightarrow> redis_value \<Rightarrow> string list \<Rightarrow> 's \<Rightarrow> 's" where
  "release_keys R v keys s = fold (\<lambda>k s. snd (release_script R s k v)) (rev keys) s"

definition denial_of :: "script_stop \<Rightarrow> string" where
  "denial_of stop =
    (case stop of
       Returned n \<Rightarrow> if n = - 4 then ''remote_search_in_flight''
                     else if n = - 1 \<or> n = - 2 then ''resource_reservation_capacity''
                     else if n = - 3 then ''background_yield_to_ingest''
                     else ''resource_reservation_busy''
     | ScriptError \<Rightarrow> [])"

text \<open>One step of the loop over the keys: acquired or not, the reason, the state.\<close>

definition acquire_key ::
  "'s redis_ops \<Rightarrow> flight_marker option \<Rightarrow> lease \<Rightarrow> string \<Rightarrow> 's \<Rightarrow> bool \<times> string option \<times> 's" where
  "acquire_key R file le k s =
    (if Some k = le_reservation_key le
     then (case reserve_memory R (file, s) (dedup (k # RESOURCE_RESERVATION_KEYS)) (le_value le)
                  (le_reservation_bytes le) (le_capacity_bytes le) (le_lease_seconds le) of
             (stop, s') \<Rightarrow>
               (stop = Returned 1,
                if stop = Returned 1 \<or> stop = ScriptError then None else Some (denial_of stop), s'))
     else (case r_set_nx R s k (le_value le) (le_lease_seconds le) of (ok, s') \<Rightarrow> (ok, None, s')))"

fun acquire_keys ::
  "'s redis_ops \<Rightarrow> flight_marker option \<Rightarrow> lease \<Rightarrow> string list \<Rightarrow> string list \<Rightarrow> 's \<Rightarrow> bool \<times> string option \<times> 's" where
  "acquire_keys R file le acquired [] s = (True, None, s)"
| "acquire_keys R file le acquired (k # ks) s =
    (case acquire_key R file le k s of
       (True, _, s') \<Rightarrow> acquire_keys R file le (acquired @ [k]) ks s'
     | (False, denial, s') \<Rightarrow> (False, denial, release_keys R (le_value le) acquired s'))"

definition lease_try_acquire ::
  "'s redis_ops \<Rightarrow> flight_marker option \<Rightarrow> lease \<Rightarrow> 's \<Rightarrow> bool \<times> lease \<times> 's" where
  "lease_try_acquire R file le s =
    (let s1 = reconcile_reservation R (file, s);
         fenced = (case file of
             None \<Rightarrow> False
           | Some m \<Rightarrow> mk_profile m = ''maintenance'' \<or> HEAVY_IO_LOCK_KEY \<in> set (le_keys le) \<or>
                       RESOURCE_BACKGROUND_TOKEN_KEY \<in> set (le_keys le))
     in if fenced then (False, le\<lparr>le_denial := Some ''remote_search_in_flight''\<rparr>, s1)
        else case acquire_keys R file le [] (le_keys le) s1 of
               (True, _, s2) \<Rightarrow> (True, le\<lparr>le_denial := None, le_acquired := True\<rparr>, s2)
             | (False, denial, s2) \<Rightarrow> (False, le\<lparr>le_denial := denial\<rparr>, s2))"

text \<open>One beat of the renewal thread.\<close>

fun renew_keys :: "'s redis_ops \<Rightarrow> redis_value \<Rightarrow> int \<Rightarrow> string list \<Rightarrow> 's \<Rightarrow> bool \<times> 's" where
  "renew_keys R v ex [] s = (True, s)"
| "renew_keys R v ex (k # ks) s =
    (case renew_script R s k v ex of
       (n, s') \<Rightarrow> (case renew_keys R v ex ks s' of (ok, s2) \<Rightarrow> (n \<noteq> 0 \<and> ok, s2)))"

definition renew_beat :: "'s redis_ops \<Rightarrow> lease \<Rightarrow> 's \<Rightarrow> lease \<times> 's" where
  "renew_beat R le s =
    (if \<not> le_acquired le then (le, s)
     else case renew_keys R (le_value le) (le_lease_seconds le) (le_keys le) s of
            (ok, s') \<Rightarrow> (if ok then le else le\<lparr>le_lost := True\<rparr>, s'))"

definition lease_release :: "'s redis_ops \<Rightarrow> lease \<Rightarrow> 's \<Rightarrow> lease \<times> 's" where
  "lease_release R le s =
    (if \<not> le_acquired le then (le, s)
     else (le\<lparr>le_acquired := False\<rparr>, release_keys R (le_value le) (le_keys le) s))"

section \<open>The slot\<close>

text \<open>
  What a call of \<^verbatim>\<open>heavy_io_slot\<close> gets: its arguments, the pressure snapshot, the live memory, the
  token of the new lease, and what the worker parent left to the process: whether it inherited a
  lock and for which profile.
\<close>

record slot_call =
  sc_workload :: string
  sc_owner :: string
  sc_source :: "string option"
  sc_lane :: "string option"
  sc_lease_seconds :: int
  sc_renew_seconds :: int
  sc_snapshot :: pressure_snapshot
  sc_live_memory :: "int option"
  sc_token :: string
  sc_stamp :: string
  sc_inherited :: bool
  sc_inherited_profile :: "string option"

record 's io_world =
  w_redis :: 's
  w_locks :: lock_table
  w_marker :: "flight_marker option"

datatype slot_refusal = Unavailable string | UnsupportedLane

record slot =
  sl_lease :: "lease option"
  sl_local :: "resource_locks option"

text \<open>\<^verbatim>\<open>mark_worker_flock_inherited(value)\<close> with a truth value or a profile name.\<close>

definition mark_worker_flock_inherited :: "bool + string \<Rightarrow> bool \<times> string option" where
  "mark_worker_flock_inherited value =
    (case value of
       Inr name \<Rightarrow> (name \<noteq> [], Some name)
     | Inl b \<Rightarrow> (b, if b then Some ''legacy-global'' else None))"

definition inherited_flock :: "slot_call \<Rightarrow> bool" where
  "inherited_flock c \<longleftrightarrow> sc_inherited c \<and>
     sc_inherited_profile c \<in> {Some ''legacy-global'', Some (workload_profile_name (Some (sc_workload c)))}"

definition needs_child_token :: "slot_call \<Rightarrow> bool" where
  "needs_child_token c \<longleftrightarrow> inherited_flock c \<and> sc_inherited_profile c = Some ''download_network'' \<and>
     workload_profile_name (Some (sc_workload c)) = ''download_network''"

definition own_admission :: "slot_call \<Rightarrow> bool" where
  "own_admission c \<longleftrightarrow> \<not> inherited_flock c \<or> needs_child_token c"

text \<open>The pressure gate and the maintenance gate.\<close>

definition slot_gate :: "'s redis_ops \<Rightarrow> slot_call \<Rightarrow> 's io_world \<Rightarrow> slot_refusal + unit" where
  "slot_gate R c w =
    (if \<not> own_admission c then Inr ()
     else if \<not> fst (resource_profile_permit (sc_snapshot c) (Some (sc_workload c)))
     then Inl (Unavailable ''resource_pressure'')
     else if workload_profile_name (Some (sc_workload c)) \<noteq> ''maintenance'' \<and> \<not> inherited_flock c \<and>
             r_exists R (w_redis w) HEAVY_IO_LOCK_KEY
     then Inl (Unavailable ''maintenance_pending'')
     else Inr ())"

definition slot_keys :: "(string \<Rightarrow> string) \<Rightarrow> slot_call \<Rightarrow> slot_refusal + string list" where
  "slot_keys digest c =
    (let source = (case sc_source c of Some (x # xs) \<Rightarrow> [source_lock_key digest (x # xs)] | _ \<Rightarrow> [])
     in if own_admission c
        then (case resource_lease_keys (sc_workload c) (sc_lane c) of
                Inl _ \<Rightarrow> Inl UnsupportedLane | Inr ks \<Rightarrow> Inr (ks @ source))
        else Inr source)"

definition slot_reservation_key :: "slot_call \<Rightarrow> string option" where
  "slot_reservation_key c =
    (case resource_budget_token_key (sc_workload c) (sc_lane c) of
       Inr (Some k) \<Rightarrow> if own_admission c \<and> k \<in> set RESOURCE_RESERVATION_KEYS then Some k else None
     | _ \<Rightarrow> None)"

text \<open>
  The lease of the slot: no lease without keys, a refusal when the memory is not there or the lease
  is busy. A process that inherited the lock goes on without a lease; \<^verbatim>\<open>resource_budget_token_key\<close>
  is evaluated whenever there are keys.
\<close>

definition slot_lease ::
  "'s redis_ops \<Rightarrow> (string \<Rightarrow> string) \<Rightarrow> slot_call \<Rightarrow> 's io_world \<Rightarrow> (slot_refusal + lease option) \<times> 's io_world" where
  "slot_lease R digest c w =
    (case slot_keys digest c of
       Inl e \<Rightarrow> (Inl e, w)
     | Inr keys \<Rightarrow>
         if keys = [] then (Inr None, w)
         else let (reservation, capacity) = resource_reservation_details (sc_snapshot c) (sc_workload c) (sc_live_memory c)
              in if capacity < reservation then (Inl (Unavailable ''profile_memory_reserve_live''), w)
                 else if resource_budget_token_key (sc_workload c) (sc_lane c) = Inl () then (Inl UnsupportedLane, w)
                 else case new_lease keys (sc_workload c) (sc_owner c) (sc_lease_seconds c) (sc_renew_seconds c)
                        (slot_reservation_key c) reservation capacity (sc_token c) (sc_stamp c) of
                     None \<Rightarrow> (Inr None, w)
                   | Some le \<Rightarrow>
                       (case lease_try_acquire R (w_marker w) le (w_redis w) of
                          (ok, le', s) \<Rightarrow>
                            (if ok \<or> \<not> own_admission c then Inr (Some le')
                             else Inl (Unavailable (str_or (le_denial le') ''redis_lease_busy'')),
                             w\<lparr>w_redis := s\<rparr>)))"

definition slot_local :: "(string \<Rightarrow> string) \<Rightarrow> slot_call \<Rightarrow> slot_refusal + resource_locks option" where
  "slot_local digest c =
    (let inherited_source = (inherited_flock c \<and> workload_profile_name (Some (sc_workload c)) = ''download_network'' \<and> sc_source c \<noteq> None)
     in if inherited_flock c \<and> \<not> inherited_source then Inr None
        else if inherited_source then Inr (Some (local_source_lock digest (the (sc_source c))))
        else (case local_lock_for_workload digest (sc_workload c) (sc_source c) (sc_lane c) of
                Inl _ \<Rightarrow> Inl UnsupportedLane | Inr l \<Rightarrow> Inr l))"

definition leave_lease :: "'s redis_ops \<Rightarrow> lease option \<Rightarrow> 's io_world \<Rightarrow> 's io_world" where
  "leave_lease R le w = (case le of None \<Rightarrow> w | Some l \<Rightarrow> w\<lparr>w_redis := snd (lease_release R l (w_redis w))\<rparr>)"

text \<open>Entering the slot as process \<open>i\<close>: the slot or the refusal, and the world after it (the
  \<^verbatim>\<open>finally\<close> clause has run when it is refused).\<close>

definition enter_slot ::
  "'s redis_ops \<Rightarrow> (string \<Rightarrow> string) \<Rightarrow> nat \<Rightarrow> slot_call \<Rightarrow> 's io_world \<Rightarrow> (slot_refusal + slot) \<times> 's io_world" where
  "enter_slot R digest i c w =
    (case slot_gate R c w of
       Inl e \<Rightarrow> (Inl e, w)
     | Inr _ \<Rightarrow>
         (case slot_lease R digest c w of
            (Inl e, w1) \<Rightarrow> (Inl e, w1)
          | (Inr le, w1) \<Rightarrow>
              (case slot_local digest c of
                 Inl e \<Rightarrow> (Inl e, leave_lease R le w1)
               | Inr None \<Rightarrow> (Inr \<lparr>sl_lease = le, sl_local = None\<rparr>, w1)
               | Inr (Some rl) \<Rightarrow>
                   (case locks_try_acquire i (w_marker w1) rl (w_locks w1) of
                      (True, rl', table) \<Rightarrow> (Inr \<lparr>sl_lease = le, sl_local = Some rl'\<rparr>, w1\<lparr>w_locks := table\<rparr>)
                    | (False, rl', table) \<Rightarrow>
                        (Inl (Unavailable ''profile_busy''),
                         leave_lease R le (w1\<lparr>w_locks := snd (locks_release i rl' table)\<rparr>))))))"

definition leave_slot :: "'s redis_ops \<Rightarrow> nat \<Rightarrow> slot \<Rightarrow> 's io_world \<Rightarrow> 's io_world" where
  "leave_slot R i sl w =
    leave_lease R (sl_lease sl)
      (case sl_local sl of None \<Rightarrow> w | Some rl \<Rightarrow> w\<lparr>w_locks := snd (locks_release i rl (w_locks w))\<rparr>)"

text \<open>\<^verbatim>\<open>_adaptive_poll_seconds\<close>; the random factor is an argument.\<close>

definition adaptive_poll_seconds :: "rat \<Rightarrow> int \<Rightarrow> rat \<Rightarrow> rat" where
  "adaptive_poll_seconds factor attempt initial =
    (let base = min 30 (max 2 initial * 2 ^ nat (max 0 attempt))
     in max 2 (min 30 (base * factor)))"

end
