(* ===== verification/Heavy_IO_Leases.thy ===== *)
theory Heavy_IO_Leases
  imports Heavy_IO
begin

text \<open>
  The reservation scripts and the renewable leases: what a grant guarantees, that a refused lease
  leaves no key behind, and that a lease that was lost cannot touch its successor.
\<close>

section \<open>Redis laws\<close>

lemma redis_get:
  assumes "redis_laws R"
  shows get_set: "(case ex of None \<Rightarrow> True | Some n \<Rightarrow> 0 < n) \<Longrightarrow> r_get R (r_set R s k v ex) k = Some v"
    and get_set_other: "k' \<noteq> k \<Longrightarrow> r_get R (r_set R s k v ex) k' = r_get R s k'"
    and get_del: "r_get R (r_del R s k) k = None"
    and get_del_other: "k' \<noteq> k \<Longrightarrow> r_get R (r_del R s k) k' = r_get R s k'"
    and get_expire: "0 < n \<Longrightarrow> r_get R (r_expire R s k n) k' = r_get R s k'"
  using assms by (simp_all add: redis_laws_def)

declare redis_get [simp]

lemma set_nx_True:
  assumes "redis_laws R" "r_set_nx R s k v ex = (True, s')" "0 < ex"
  shows "r_get R s k = None \<and> r_get R s' k = Some v \<and> (\<forall>k'. k' \<noteq> k \<longrightarrow> r_get R s' k' = r_get R s k')"
  using assms by (auto simp: r_set_nx_def r_exists_def split: if_splits)

lemma set_nx_False: "r_set_nx R s k v ex = (False, s') \<Longrightarrow> s' = s"
  by (auto simp: r_set_nx_def split: if_splits)

section \<open>Reservations\<close>

definition reserved_of :: "redis_value option \<Rightarrow> int" where
  "reserved_of v = (case v of Some (RLease l) \<Rightarrow> lp_reserved_bytes l | Some (RMarker m) \<Rightarrow> mk_reserved_bytes m | _ \<Rightarrow> 0)"

lemma reserved_total_sum: "reserved_total vs n = Inr m \<Longrightarrow> m = n + sum_list (map reserved_of vs)"
  by (induction vs n rule: reserved_total.induct) (auto simp: reserved_of_def)

lemma reserved_total_stop: "reserved_total vs n = Inl stop \<Longrightarrow> stop = Returned (- 2) \<or> stop = ScriptError"
  by (induction vs n rule: reserved_total.induct) auto

lemma background_turn_other:
  assumes "redis_laws R" "background_turn R s = Inl (stop, s')" "k \<noteq> LAST_BACKGROUND_KEY"
  shows "r_get R s' k = r_get R s k \<and> stop \<noteq> Returned 1"
  using assms by (auto simp: background_turn_def r_set_nx_def split: if_splits option.splits redis_value.splits)

lemma background_turn_Inr: "background_turn R s = Inr s' \<Longrightarrow> s' = s"
  by (auto simp: background_turn_def split: if_splits option.splits redis_value.splits)

lemma reserve_granted:
  assumes "redis_laws R" "reserve_script R s keys v requested capacity ex = (Returned 1, s')" "0 < ex" "hd keys \<noteq> LAST_BACKGROUND_KEY"
  shows "r_get R s (hd keys) = None \<and> r_get R s' (hd keys) = Some v \<and>
    (\<forall>k. k \<noteq> hd keys \<and> k \<noteq> LAST_BACKGROUND_KEY \<longrightarrow> r_get R s' k = r_get R s k) \<and>
    sum_list (map (\<lambda>k. reserved_of (r_get R s k)) (tl keys)) + requested \<le> capacity"
proof -
  let ?k = "hd keys"
  have free: "\<not> r_exists R s ?k" using assms(2) by (auto simp: reserve_script_def Let_def)
  obtain used where used: "reserved_total (map (r_get R s) (tl keys)) 0 = Inr used"
    using assms(2) free reserved_total_stop [of "map (r_get R s) (tl keys)" 0]
    by (cases "reserved_total (map (r_get R s) (tl keys)) 0") (auto simp: reserve_script_def Let_def)
  have cap: "used + requested \<le> capacity"
    using assms(2) free used by (auto simp: reserve_script_def Let_def split: if_splits)
  obtain s1 where s1: "(if ?k = RESOURCE_BACKGROUND_TOKEN_KEY then background_turn R s else Inr s) = Inr s1"
  proof (cases "if ?k = RESOURCE_BACKGROUND_TOKEN_KEY then background_turn R s else Inr s")
    case (Inl p)
    then have "fst p = Returned 1" using assms(2) free used cap by (auto simp: reserve_script_def Let_def split: if_splits prod.splits)
    moreover have "background_turn R s = Inl (fst p, snd p)" using Inl by (auto split: if_splits)
    ultimately show ?thesis using background_turn_other [OF assms(1), of s "fst p" "snd p" "[]"] by (simp add: LAST_BACKGROUND_KEY_def)
  qed (use that in auto)
  then have "s1 = s" by (auto split: if_splits dest: background_turn_Inr)
  obtain s2 where s2: "r_set_nx R s ?k v ex = (True, s2)"
      "s' = (if ?k = RESOURCE_BACKGROUND_TOKEN_KEY then r_set R s2 LAST_BACKGROUND_KEY (RNum (r_time R s)) (Some 86400) else s2)"
    using assms(2) free used cap s1 \<open>s1 = s\<close> by (auto simp: reserve_script_def Let_def split: prod.splits bool.splits)
  from set_nx_True [OF assms(1) s2(1) assms(3)] have nx: "r_get R s ?k = None" "r_get R s2 ?k = Some v"
      "\<And>k'. k' \<noteq> ?k \<Longrightarrow> r_get R s2 k' = r_get R s k'" by auto
  have "r_get R s' k = r_get R s2 k" if "k \<noteq> LAST_BACKGROUND_KEY" for k using s2(2) that assms(1) by simp
  then show ?thesis using nx cap reserved_total_sum [OF used] assms(4) by (simp add: comp_def)
qed

lemma reserve_refused:
  assumes "redis_laws R" "reserve_script R s keys v requested capacity ex = (stop, s')" "stop \<noteq> Returned 1" "k \<noteq> LAST_BACKGROUND_KEY"
  shows "r_get R s' k = r_get R s k"
proof (cases "r_exists R s (hd keys)")
  case free: False
  show ?thesis
  proof (cases "reserved_total (map (r_get R s) (tl keys)) 0")
    case (Inr used)
    let ?turn = "if hd keys = RESOURCE_BACKGROUND_TOKEN_KEY then background_turn R s else Inr s"
    show ?thesis
    proof (cases ?turn)
      case (Inl p)
      then have "background_turn R s = Inl (fst p, snd p)" by (auto split: if_splits)
      from background_turn_other [OF assms(1) this assms(4)] show ?thesis
        using assms(2) free Inr Inl by (auto simp: reserve_script_def Let_def split: if_splits prod.splits)
    next
      case turn: (Inr s1)
      then have "s1 = s" by (auto split: if_splits dest: background_turn_Inr)
      then show ?thesis using assms(2,3) free Inr turn
        by (auto simp: reserve_script_def Let_def r_set_nx_def split: if_splits)
    qed
  qed (use assms(2) free in \<open>auto simp: reserve_script_def Let_def\<close>)
qed (use assms(2) in \<open>auto simp: reserve_script_def Let_def\<close>)

lemma reconcile_gets:
  assumes "redis_laws R"
  shows "r_get R (reconcile_reservation R (file, s)) REMOTE_RESERVATION_KEY = map_option RMarker file"
    "k \<noteq> REMOTE_RESERVATION_KEY \<Longrightarrow> r_get R (reconcile_reservation R (file, s)) k = r_get R s k"
  using assms by (auto simp: reconcile_reservation_def split: option.split)

section \<open>Acquiring the keys of a lease\<close>

definition side_keys :: "string set" where
  "side_keys = {REMOTE_RESERVATION_KEY, LAST_BACKGROUND_KEY}"

lemma release_script_get:
  assumes "redis_laws R"
  shows "r_get R (snd (release_script R s k v)) k' = (if k' = k \<and> r_get R s k = Some v then None else r_get R s k')"
  using assms by (simp add: release_script_def)

lemma release_keys_get:
  assumes "redis_laws R"
  shows "r_get R (release_keys R v keys s) k = (if k \<in> set keys \<and> r_get R s k = Some v then None else r_get R s k)"
proof -
  have "r_get R (fold (\<lambda>k s. snd (release_script R s k v)) ks s) k =
      (if k \<in> set ks \<and> r_get R s k = Some v then None else r_get R s k)" for ks s
    by (induction ks arbitrary: s) (auto simp: release_script_get [OF assms])
  then show ?thesis by (simp add: release_keys_def)
qed

lemma reserve_memory_cases:
  "reserve_memory R (file, s) keys v requested capacity ex = (Returned (- 4), reconcile_reservation R (file, s)) \<or>
   reserve_memory R (file, s) keys v requested capacity ex =
     reserve_script R (reconcile_reservation R (file, s)) keys v requested capacity ex"
  by (simp add: reserve_memory_def Let_def split: option.split)

lemma hd_dedup: "hd (dedup (k # ks)) = k"
  by (simp add: dedup_def)

lemma acquire_key_True:
  assumes laws: "redis_laws R" and a: "acquire_key R file le k s = (True, d, s')"
    and k: "k \<notin> side_keys" and pos: "0 < le_lease_seconds le"
  shows "r_get R s k = None \<and> r_get R s' k = Some (le_value le) \<and>
    (\<forall>k'. k' \<noteq> k \<and> k' \<notin> side_keys \<longrightarrow> r_get R s' k' = r_get R s k')"
proof (cases "Some k = le_reservation_key le")
  case True
  let ?s = "reconcile_reservation R (file, s)"
  have "reserve_memory R (file, s) (dedup (k # RESOURCE_RESERVATION_KEYS)) (le_value le)
      (le_reservation_bytes le) (le_capacity_bytes le) (le_lease_seconds le) = (Returned 1, s')"
    using a True by (auto simp: acquire_key_def split: prod.splits)
  then have "reserve_script R ?s (dedup (k # RESOURCE_RESERVATION_KEYS)) (le_value le)
      (le_reservation_bytes le) (le_capacity_bytes le) (le_lease_seconds le) = (Returned 1, s')"
    using reserve_memory_cases [of R "file" s "dedup (k # RESOURCE_RESERVATION_KEYS)"] by (metis one_neq_neg_numeral prod.inject script_stop.inject)
  from reserve_granted [OF laws this pos] show ?thesis
    using k reconcile_gets [OF laws] by (auto simp: hd_dedup side_keys_def)
next
  case False
  then have "r_set_nx R s k (le_value le) (le_lease_seconds le) = (True, s')"
    using a by (auto simp: acquire_key_def split: prod.splits)
  from set_nx_True [OF laws this pos] show ?thesis by simp
qed

lemma acquire_key_False:
  assumes laws: "redis_laws R" and a: "acquire_key R file le k s = (False, d, s')" and k: "k' \<notin> side_keys"
  shows "r_get R s' k' = r_get R s k'"
proof (cases "Some k = le_reservation_key le")
  case True
  let ?s = "reconcile_reservation R (file, s)"
  obtain stop where r: "reserve_memory R (file, s) (dedup (k # RESOURCE_RESERVATION_KEYS)) (le_value le)
      (le_reservation_bytes le) (le_capacity_bytes le) (le_lease_seconds le) = (stop, s')" "stop \<noteq> Returned 1"
    using a True by (auto simp: acquire_key_def split: prod.splits)
  have "r_get R s' k' = r_get R ?s k'"
    using reserve_memory_cases [of R "file" s "dedup (k # RESOURCE_RESERVATION_KEYS)" "le_value le" "le_reservation_bytes le"
        "le_capacity_bytes le" "le_lease_seconds le"]
      reserve_refused [OF laws _ r(2), of ?s "dedup (k # RESOURCE_RESERVATION_KEYS)" "le_value le" "le_reservation_bytes le"
        "le_capacity_bytes le" "le_lease_seconds le" s' k'] k r(1)
    by (auto simp: side_keys_def)
  then show ?thesis using k reconcile_gets(2) [OF laws] by (simp add: side_keys_def)
next
  case False
  then have "r_set_nx R s k (le_value le) (le_lease_seconds le) = (False, s')"
    using a by (auto simp: acquire_key_def split: prod.splits)
  then show ?thesis by (auto dest: set_nx_False)
qed

lemma acquire_keys_spec:
  assumes laws: "redis_laws R" and pos: "0 < le_lease_seconds le"
  shows "acquire_keys R file le acq ks s = (ok, d, s') \<Longrightarrow> distinct (acq @ ks) \<Longrightarrow> set (acq @ ks) \<inter> side_keys = {} \<Longrightarrow>
    \<forall>k \<in> set acq. r_get R s k = Some (le_value le) \<Longrightarrow>
    (if ok then (\<forall>k \<in> set ks. r_get R s k = None \<and> r_get R s' k = Some (le_value le)) \<and>
          (\<forall>k. k \<notin> set ks \<and> k \<notin> side_keys \<longrightarrow> r_get R s' k = r_get R s k)
     else (\<forall>k. k \<notin> side_keys \<longrightarrow> r_get R s' k = (if k \<in> set acq then None else r_get R s k)))"
proof (induction ks arbitrary: acq s)
  case Nil
  then show ?case by auto
next
  case (Cons k ks)
  obtain ok1 d1 s1 where a: "acquire_key R file le k s = (ok1, d1, s1)" by (metis prod_cases3)
  show ?case
  proof (cases ok1)
    case True
    have k: "k \<notin> side_keys" using Cons.prems(3) by auto
    note t = acquire_key_True [OF laws a [unfolded True [THEN eqTrueI]] k pos]
    have rec: "acquire_keys R file le (acq @ [k]) ks s1 = (ok, d, s')" using Cons.prems(1) a True by simp
    have "r_get R s1 k' = Some (le_value le)" if k': "k' \<in> set (acq @ [k])" for k'
    proof (cases "k' = k")
      case False
      then have "k' \<in> set acq" using k' by simp
      moreover from this have "k' \<notin> side_keys" using Cons.prems(3) by auto
      ultimately show ?thesis using t False Cons.prems(4) by simp
    qed (use t in simp)
    then have "\<forall>k' \<in> set (acq @ [k]). r_get R s1 k' = Some (le_value le)" by blast
    note IH = Cons.IH [OF rec _ _ this]
    have old: "r_get R s1 k' = r_get R s k'" if "k' \<noteq> k" "k' \<notin> side_keys" for k' using t that by simp
    show ?thesis
    proof (cases ok)
      case True
      have ks: "(\<forall>k \<in> set ks. r_get R s1 k = None \<and> r_get R s' k = Some (le_value le)) \<and>
          (\<forall>k. k \<notin> set ks \<and> k \<notin> side_keys \<longrightarrow> r_get R s' k = r_get R s1 k)"
        using IH True Cons.prems(2,3) by auto
      have "k \<notin> set ks" using Cons.prems(2) by simp
      then show ?thesis using True ks old t k Cons.prems(2,3) by auto
    next
      case False
      have ks: "\<forall>k'. k' \<notin> side_keys \<longrightarrow> r_get R s' k' = (if k' \<in> set (acq @ [k]) then None else r_get R s1 k')"
        using IH False Cons.prems(2,3) by auto
      have "k \<notin> set acq" using Cons.prems(2) by simp
      then show ?thesis using False ks old t by auto
    qed
  next
    case False
    then have a': "acquire_key R file le k s = (False, d1, s1)" using a by simp
    have "(ok, d, s') = (False, d1, release_keys R (le_value le) acq s1)" using Cons.prems(1) a' by simp
    moreover have "r_get R s1 k' = r_get R s k'" if "k' \<notin> side_keys" for k' using acquire_key_False [OF laws a' that] .
    ultimately show ?thesis using release_keys_get [OF laws] Cons.prems(4) by auto
  qed
qed

section \<open>Leases\<close>

lemma half_beat: "2 * max 5 (min rs (max 30 ls div 2)) \<le> max 30 (ls :: int)"
proof -
  define m where "m = max 30 ls"
  have "2 * (m div 2) \<le> m" by presburger
  moreover have "30 \<le> m" by (simp add: m_def)
  ultimately show ?thesis unfolding m_def [symmetric] by linarith
qed

lemma reservation_first:
  assumes "distinct ks"
  shows "distinct (case rk of None \<Rightarrow> ks | Some k \<Rightarrow> k # remove1 k ks) \<and>
    (rk = None \<or> the rk \<in> set ks \<longrightarrow> set (case rk of None \<Rightarrow> ks | Some k \<Rightarrow> k # remove1 k ks) = set ks)"
proof (cases rk)
  case (Some k)
  then show ?thesis using assms by (simp add: set_remove1_eq) blast
qed (use assms in simp)

lemma new_lease_props:
  assumes "new_lease keys workload owner ls rs rk reservation capacity token stamp = Some le"
  shows "distinct (le_keys le) \<and> set (le_keys le) = set keys \<and> 30 \<le> le_lease_seconds le \<and>
    5 \<le> le_renew_seconds le \<and> 2 * le_renew_seconds le \<le> le_lease_seconds le \<and> \<not> le_acquired le \<and>
    lp_reserved_bytes (le_payload le) = le_reservation_bytes le \<and> 0 \<le> le_reservation_bytes le \<and>
    le_capacity_bytes le = max 0 capacity \<and> le_reservation_bytes le = max 0 reservation \<and> lp_token (le_payload le) = token \<and>
    (case le_reservation_key le of None \<Rightarrow> True | Some k \<Rightarrow> rk = Some k \<and> k \<in> set keys \<and> (\<exists>rest. le_keys le = k # rest))"
proof -
  define ks where "ks = dedup keys"
  define rk' where "rk' = (case rk of None \<Rightarrow> None | Some k \<Rightarrow> if k \<in> set ks then Some k else None)"
  define ks' where "ks' = (case rk' of None \<Rightarrow> ks | Some k \<Rightarrow> k # remove1 k ks)"
  have ks: "distinct ks" "set ks = set keys" by (simp_all add: ks_def)
  have rk': "case rk' of None \<Rightarrow> True | Some k \<Rightarrow> rk = Some k \<and> k \<in> set ks"
    by (simp add: rk'_def split: option.split)
  have "rk' = None \<or> the rk' \<in> set ks" using rk' by (cases rk') simp_all
  then have ks': "distinct ks'" "set ks' = set keys" using reservation_first [OF ks(1), of rk'] ks(2) unfolding ks'_def by simp_all
  have le: "le = \<lparr>le_keys = ks', le_workload = workload, le_lease_seconds = max 30 ls,
       le_renew_seconds = max 5 (min rs (max 30 ls div 2)), le_reservation_key = rk', le_reservation_bytes = max 0 reservation,
       le_capacity_bytes = max 0 capacity,
       le_payload = \<lparr>lp_token = token, lp_owner = owner, lp_workload = workload, lp_profile = workload_profile_name (Some workload),
         lp_reserved_bytes = max 0 reservation, lp_capacity_bytes = max 0 capacity, lp_acquired_at = stamp\<rparr>,
       le_denial = None, le_acquired = False, le_lost = False\<rparr>"
    using assms unfolding new_lease_def Let_def ks_def [symmetric] rk'_def [symmetric] ks'_def [symmetric]
    by (cases "keys = []") simp_all
  have "case rk' of None \<Rightarrow> True | Some k \<Rightarrow> rk = Some k \<and> k \<in> set keys \<and> (\<exists>rest. ks' = k # rest)"
    using rk' ks(2) by (cases rk') (simp_all add: ks'_def)
  moreover have "le_keys le = ks'" "le_reservation_key le = rk'" by (simp_all only: le lease.simps)
  moreover have "30 \<le> le_lease_seconds le" "5 \<le> le_renew_seconds le" "2 * le_renew_seconds le \<le> le_lease_seconds le"
    using half_beat [of rs ls] by (simp_all only: le lease.simps max.cobounded1)
  moreover have "\<not> le_acquired le" "lp_reserved_bytes (le_payload le) = le_reservation_bytes le" "0 \<le> le_reservation_bytes le"
      "le_capacity_bytes le = max 0 capacity" "le_reservation_bytes le = max 0 reservation" "lp_token (le_payload le) = token"
    by (simp_all only: le lease.simps lease_payload.simps max.cobounded1 simp_thms)
  ultimately show ?thesis using ks' by (simp only: simp_thms)
qed

lemma lease_acquired:
  assumes "lease_try_acquire R file le s = (True, le', s')"
  shows "\<exists>d. acquire_keys R file le [] (le_keys le) (reconcile_reservation R (file, s)) = (True, d, s') \<and>
    le' = le\<lparr>le_denial := None, le_acquired := True\<rparr>"
  using assms by (auto simp: lease_try_acquire_def Let_def split: if_splits prod.splits bool.splits)

lemma lease_refused:
  assumes "lease_try_acquire R file le s = (False, le', s')"
  shows "s' = reconcile_reservation R (file, s) \<or>
    (\<exists>d. acquire_keys R file le [] (le_keys le) (reconcile_reservation R (file, s)) = (False, d, s'))"
  using assms by (auto simp: lease_try_acquire_def Let_def split: if_splits prod.splits bool.splits)

text \<open>Acquiring a lease is all or nothing: on success every key was free and now holds this lease; on
  refusal nothing of the lease is left behind. In both cases no other key changes, except the two of
  the accounting. The heartbeat runs at least twice per lease time.\<close>

lemma lease_outcome:
  assumes "redis_laws R" "new_lease keys workload owner ls rs rk reservation capacity token stamp = Some le"
    and "set keys \<inter> side_keys = {}" "lease_try_acquire R file le s = (ok, le', s')"
  shows "2 * le_renew_seconds le \<le> le_lease_seconds le \<and> le_acquired le' = ok \<and>
    (if ok then (\<forall>k \<in> set keys. r_get R s k = None \<and> r_get R s' k = Some (le_value le)) \<and>
          (\<forall>k. k \<in> set keys \<or> k \<in> side_keys \<or> r_get R s' k = r_get R s k)
     else \<forall>k. k \<in> side_keys \<or> r_get R s' k = r_get R s k)"
proof -
  note le = new_lease_props [OF assms(2)]
  have keys: "distinct ([] @ le_keys le)" "set ([] @ le_keys le) \<inter> side_keys = {}" "\<forall>k \<in> set []. r_get R x k = Some (le_value le)" for x
    using le assms(3) by simp_all
  have pos: "0 < le_lease_seconds le" using le by linarith
  have old: "k \<notin> side_keys \<Longrightarrow> r_get R (reconcile_reservation R (file, s)) k = r_get R s k" for k
    using reconcile_gets(2) [OF assms(1)] by (simp add: side_keys_def)
  show ?thesis
  proof (cases ok)
    case True
    then obtain d where a: "acquire_keys R file le [] (le_keys le) (reconcile_reservation R (file, s)) = (True, d, s')"
        "le' = le\<lparr>le_denial := None, le_acquired := True\<rparr>"
      using lease_acquired [of R "file" le s le' s'] assms(4) True by auto
    from acquire_keys_spec [OF assms(1) pos a(1) keys]
    have got: "\<forall>k \<in> set keys. r_get R (reconcile_reservation R (file, s)) k = None \<and> r_get R s' k = Some (le_value le)"
      and "\<forall>k. k \<in> set keys \<or> k \<in> side_keys \<or> r_get R s' k = r_get R (reconcile_reservation R (file, s)) k"
      using le by auto
    then have rest: "\<forall>k. k \<in> set keys \<or> k \<in> side_keys \<or> r_get R s' k = r_get R s k" using old by metis
    have "r_get R s k = None" if "k \<in> set keys" for k
      using got old [of k] that assms(3) by (metis IntI emptyE)
    then show ?thesis using True a(2) le got rest by simp
  next
    case False
    then have "\<not> le_acquired le'" using assms(4) le by (auto simp: lease_try_acquire_def Let_def split: if_splits prod.splits bool.splits)
    moreover have "r_get R s' k = r_get R s k" if "k \<notin> side_keys" for k
      using lease_refused [of R "file" le s le' s'] assms(4) False acquire_keys_spec [OF assms(1) pos _ keys] old that by fastforce
    ultimately show ?thesis using False le by auto
  qed
qed

section \<open>Memory\<close>

definition reserved_sum :: "'s redis_ops \<Rightarrow> 's \<Rightarrow> int" where
  "reserved_sum R s = sum_list (map (\<lambda>k. reserved_of (r_get R s k)) RESOURCE_RESERVATION_KEYS)"

lemma reservation_keys_distinct: "distinct RESOURCE_RESERVATION_KEYS" "LAST_BACKGROUND_KEY \<notin> set RESOURCE_RESERVATION_KEYS"
  by code_simp+

lemma sum_dedup_front:
  fixes f :: "'a \<Rightarrow> int"
  assumes "k \<in> set ks" "distinct ks"
  shows "sum_list (map f ks) = f k + sum_list (map f (tl (dedup (k # ks))))"
proof -
  have "set (dedup (k # ks)) = set ks" using assms(1) by auto
  then have "sum_list (map f ks) = sum_list (map f (dedup (k # ks)))"
    using assms(2) distinct_dedup [of "k # ks"] by (simp add: sum_list_distinct_conv_sum_set)
  moreover have "dedup (k # ks) = k # tl (dedup (k # ks))" by (simp add: dedup_def)
  ultimately show ?thesis by (metis list.simps(9) sum_list.Cons)
qed

lemma set_tl_dedup: "set (tl (dedup (k # ks))) = set ks - {k}"
  using dedup_from_props [of "[k]" ks] by (simp add: dedup_def)

lemma acquire_keys_plain:
  assumes laws: "redis_laws R" and pos: "0 < le_lease_seconds le"
  shows "acquire_keys R file le acq ks s = (True, d, s') \<Longrightarrow> \<forall>k \<in> set ks. le_reservation_key le \<noteq> Some k \<Longrightarrow>
    k \<notin> set ks \<Longrightarrow> r_get R s' k = r_get R s k"
proof (induction ks arbitrary: acq s)
  case (Cons k' ks)
  obtain s1 d1 where a: "acquire_key R file le k' s = (True, d1, s1)" "acquire_keys R file le (acq @ [k']) ks s1 = (True, d, s')"
    using Cons.prems(1) by (auto split: prod.splits bool.splits)
  have "r_set_nx R s k' (le_value le) (le_lease_seconds le) = (True, s1)"
    using a(1) Cons.prems(2) by (auto simp: acquire_key_def split: prod.splits)
  from set_nx_True [OF laws this pos] have "r_get R s1 k = r_get R s k" using Cons.prems(3) by auto
  then show ?case using Cons.IH [OF a(2)] Cons.prems by simp
qed simp

text \<open>A granted memory reservation respects the capacity it was granted against: after the
  grant the reservations of all lanes, the new one and that of an unresolved remote search flight
  included, sum to at most the capacity, even if the server had lost the account of the flight.\<close>

lemma lease_memory:
  assumes "redis_laws R" "new_lease keys workload owner ls rs (Some key) reservation capacity token stamp = Some le"
    and "key \<in> set keys" "key \<in> set RESOURCE_RESERVATION_KEYS" "key \<noteq> REMOTE_RESERVATION_KEY"
    and "set keys \<inter> set RESOURCE_RESERVATION_KEYS = {key}" "LAST_BACKGROUND_KEY \<notin> set keys"
    and "lease_try_acquire R file le s = (True, le', s')"
  shows "reserved_sum R s' \<le> max 0 capacity \<and> r_get R s' REMOTE_RESERVATION_KEY = map_option RMarker file \<and>
    reserved_of (r_get R s' key) = max 0 reservation"
proof -
  note le = new_lease_props [OF assms(2)]
  have rk: "le_reservation_key le = Some key"
    using assms(2,3) by (auto simp: new_lease_def Let_def split: if_splits)
  then obtain rest where rest: "le_keys le = key # rest" using le by auto
  let ?s1 = "reconcile_reservation R (file, s)"
  let ?ks = "dedup (key # RESOURCE_RESERVATION_KEYS)"
  obtain d s2 where a: "acquire_key R file le key ?s1 = (True, d, s2)" "\<exists>d. acquire_keys R file le [key] rest s2 = (True, d, s')"
    using lease_acquired [OF assms(8)] rest by (auto split: prod.splits bool.splits)
  let ?s = "reconcile_reservation R (file, ?s1)"
  have pos: "0 < le_lease_seconds le" using le by linarith
  have "reserve_memory R (file, ?s1) ?ks (le_value le) (le_reservation_bytes le) (le_capacity_bytes le) (le_lease_seconds le) = (Returned 1, s2)"
    using a rk by (auto simp: acquire_key_def split: prod.splits)
  then have g: "reserve_script R ?s ?ks (le_value le) (le_reservation_bytes le) (le_capacity_bytes le) (le_lease_seconds le) = (Returned 1, s2)"
    using reserve_memory_cases [of R "file" ?s1 ?ks] by (metis one_neq_neg_numeral prod.inject script_stop.inject)
  have last: "hd ?ks \<noteq> LAST_BACKGROUND_KEY" using assms(4) reservation_keys_distinct(2) by (auto simp: hd_dedup)
  note granted = reserve_granted [OF assms(1) g pos last, unfolded hd_dedup]
  have side: "key \<notin> side_keys" using assms(4,5) reservation_keys_distinct(2) by (auto simp: side_keys_def)
  have keys: "distinct ([key] @ rest)" "set rest \<inter> set RESOURCE_RESERVATION_KEYS = {}" "LAST_BACKGROUND_KEY \<notin> set rest"
  proof -
    have d: "distinct (key # rest)" and s: "set (key # rest) = set keys" using le unfolding rest by (simp_all only:)
    show "distinct ([key] @ rest)" using d by simp
    show "set rest \<inter> set RESOURCE_RESERVATION_KEYS = {}" using d s [symmetric] assms(6) by fastforce
    show "LAST_BACKGROUND_KEY \<notin> set rest" using s [symmetric] assms(7) by simp
  qed
  have plain: "\<forall>k \<in> set rest. le_reservation_key le \<noteq> Some k" using keys(1) rk by auto
  have s': "r_get R s' k = r_get R s2 k" if "k \<notin> set rest" for k
    using a(2) acquire_keys_plain [OF assms(1) pos _ plain that] by blast
  have mid: "r_get R s' k = r_get R ?s k" if "k \<in> set RESOURCE_RESERVATION_KEYS" "k \<noteq> key" for k
    using that granted s' [of k] keys(2) reservation_keys_distinct(2) by (metis disjoint_iff)
  have own: "r_get R s' key = Some (le_value le)" using granted s' [of key] keys(1) by auto
  have bytes: "reserved_of (Some (le_value le)) = le_reservation_bytes le" using le by (simp add: reserved_of_def le_value_def)
  have "reserved_sum R s' = reserved_of (r_get R s' key) + sum_list (map (\<lambda>k. reserved_of (r_get R s' k)) (tl ?ks))"
    unfolding reserved_sum_def by (rule sum_dedup_front [OF assms(4) reservation_keys_distinct(1)])
  also have "map (\<lambda>k. reserved_of (r_get R s' k)) (tl ?ks) = map (\<lambda>k. reserved_of (r_get R ?s k)) (tl ?ks)"
    using mid by (intro map_cong refl) (simp add: set_tl_dedup)
  finally have "reserved_sum R s' \<le> le_capacity_bytes le" using granted own bytes by simp
  moreover have "r_get R s' REMOTE_RESERVATION_KEY = map_option RMarker file"
    using mid [of REMOTE_RESERVATION_KEY] assms(5) reconcile_gets(1) [OF assms(1)] by (simp add: RESOURCE_RESERVATION_KEYS_def)
  ultimately show ?thesis using own bytes le by simp
qed

text \<open>A server without expiry, for examples.\<close>

definition map_redis :: "(string \<Rightarrow> redis_value option) redis_ops" where
  "map_redis = \<lparr>r_get = (\<lambda>s k. s k), r_set = (\<lambda>s k v ex. s(k \<mapsto> v)), r_del = (\<lambda>s k. s(k := None)),
     r_expire = (\<lambda>s k n. s), r_time = (\<lambda>s. 0), r_llen = (\<lambda>s k. 0), r_zcard = (\<lambda>s k. 0)\<rparr>"

lemma map_redis_laws: "redis_laws map_redis"
  by (simp add: redis_laws_def map_redis_def)

lemmas lease_eval =
  new_lease_def lease_try_acquire_def acquire_key_def reserve_memory_def reserve_script_def background_turn_def
  reconcile_reservation_def r_set_nx_def r_exists_def map_redis_def dedup_def side_keys_def heavy_io_keys Let_def

end
