(* ===== verification/Heavy_IO_Slots.thy ===== *)
theory Heavy_IO_Slots
  imports Heavy_IO_Leases
begin

text \<open>
  Slots: the lock files, the exclusion of conflicting work, and what an admission, a refusal and a
  lost lease leave behind.
\<close>



section \<open>One lock\<close>

abbreviation hold :: "local_lock \<Rightarrow> local_lock" where
  "hold l \<equiv> l\<lparr>ll_held := True\<rparr>"

text \<open>The entries that process \<open>i\<close> adds to the table when it takes all of \<open>ls\<close>, and the table
  without the entries of \<open>i\<close> on the paths of \<open>ls\<close>.\<close>

definition with_locks :: "nat \<Rightarrow> local_lock list \<Rightarrow> lock_table \<Rightarrow> lock_table" where
  "with_locks i ls table = (\<lambda>p. map (\<lambda>l. (i, ll_shared l)) (rev (filter (\<lambda>l. ll_path l = p) ls)) @ table p)"

definition without_locks :: "nat \<Rightarrow> local_lock list \<Rightarrow> lock_table \<Rightarrow> lock_table" where
  "without_locks i ls table = (\<lambda>p. if p \<in> ll_path ` set ls then filter (\<lambda>h. fst h \<noteq> i) (table p) else table p)"

definition absent :: "nat \<Rightarrow> lock_table \<Rightarrow> bool" where
  "absent i table \<longleftrightarrow> (\<forall>p. i \<notin> fst ` set (table p))"

lemma absent_filter: "absent i table \<Longrightarrow> filter (\<lambda>h. fst h \<noteq> i) (table p) = table p"
  by (force simp: absent_def filter_id_conv)

lemma with_locks_simps [simp]:
  "with_locks i [] table = table"
  "with_locks i (l # ls) table = with_locks i ls (table(ll_path l := (i, ll_shared l) # table (ll_path l)))"
  by (auto simp: with_locks_def)

lemma set_with_locks: "set (with_locks i ls table p) = (\<lambda>l. (i, ll_shared l)) ` {l \<in> set ls. ll_path l = p} \<union> set (table p)"
  by (auto simp: with_locks_def)

lemma without_with_locks:
  assumes "absent i table" "ll_path ` set ls \<subseteq> ll_path ` set ls'"
  shows "without_locks i ls' (with_locks i ls table) = table"
proof
  fix p
  have "filter (\<lambda>l. ll_path l = p) ls = []" if "p \<notin> ll_path ` set ls'"
    using that assms(2) by (auto simp: filter_empty_conv)
  then show "without_locks i ls' (with_locks i ls table) p = table p"
    using absent_filter [OF assms(1)] by (simp add: without_locks_def with_locks_def rev_map [symmetric] filter_map comp_def)
qed

lemma release_all_held:
  "list_all ll_held ls \<Longrightarrow> release_all i ls table = (map (\<lambda>l. l\<lparr>ll_held := False\<rparr>) ls, without_locks i ls table)"
proof (induction ls)
  case (Cons l ls)
  then have "lock_release i l (without_locks i ls table) = (l\<lparr>ll_held := False\<rparr>, without_locks i (l # ls) table)"
    by (auto simp: lock_release_def without_locks_def)
  then show ?case using Cons by simp
qed (simp add: without_locks_def)

lemma release_all_idle: "list_all (\<lambda>l. \<not> ll_held l) ls \<Longrightarrow> release_all i ls table = (ls, table)"
  by (induction ls) (auto simp: lock_release_def)

lemma unhold: "\<not> ll_held l \<Longrightarrow> l\<lparr>ll_held := False\<rparr> = l"
  by (cases l) simp


lemma acquire_all_eq:
  assumes "list_all (\<lambda>l. \<not> ll_held l) ls" "distinct (map ll_path ls)" "absent i table"
  shows "acquire_all i ls table =
    (if list_all (\<lambda>l. flock_free table (ll_path l) (ll_shared l)) ls then (True, map hold ls, with_locks i ls table)
     else (False, ls, table))"
proof -
  have "acquire_all i ls table =
    (if list_all (\<lambda>l. flock_free table (ll_path l) (ll_shared l)) ls then (True, map hold ls, with_locks i ls table)
     else (False, ls, table))" if "\<forall>l \<in> set ls. i \<notin> fst ` set (table (ll_path l))"
    using assms(1,2) that
  proof (induction ls arbitrary: table)
    case (Cons l ls)
    let ?t = "table(ll_path l := (i, ll_shared l) # table (ll_path l))"
    have other: "l' \<in> set ls \<Longrightarrow> ?t (ll_path l') = table (ll_path l')" for l'
      using Cons.prems(2) by (auto simp: image_iff)
    have free: "list_all (\<lambda>l. flock_free ?t (ll_path l) (ll_shared l)) ls = list_all (\<lambda>l. flock_free table (ll_path l) (ll_shared l)) ls"
      using other by (auto simp: list_all_iff flock_free_def)
    have IH: "acquire_all i ls ?t =
        (if list_all (\<lambda>l. flock_free table (ll_path l) (ll_shared l)) ls then (True, map hold ls, with_locks i ls ?t)
         else (False, ls, ?t))"
    proof -
      have "\<forall>l' \<in> set ls. i \<notin> fst ` set (?t (ll_path l'))" using Cons.prems(3) other by simp
      from Cons.IH [OF _ _ this] show ?thesis using Cons.prems(1,2) unfolding free by (simp only: list.simps distinct.simps list.pred_inject simp_thms)
    qed
    have back': "filter (\<lambda>h. fst h \<noteq> i) (table (ll_path l)) = table (ll_path l)"
      using Cons.prems(3) by (force simp: filter_id_conv)
    have rel: "lock_release i (hold l) ?t = (l, table)"
      using unhold [of l] Cons.prems(1) back' by (simp add: lock_release_def)
    show ?case using IH rel Cons.prems(1) by (simp add: lock_try_acquire_def)
  qed simp
  then show ?thesis using assms(3) by (simp add: absent_def)
qed


section \<open>The locks of a slot\<close>

definition slot_demand :: "(string \<Rightarrow> string) \<Rightarrow> slot_call \<Rightarrow> local_lock list" where
  "slot_demand digest c = (case slot_local digest c of Inr (Some rl) \<Rightarrow> rl_locks rl | _ \<Rightarrow> [])"

definition flight_fences :: "flight_marker option \<Rightarrow> resource_locks \<Rightarrow> bool" where
  "flight_fences file rl \<longleftrightarrow> (case file of None \<Rightarrow> False | Some m \<Rightarrow> rl_remote_exclusive rl \<or> mk_profile m = ''maintenance'')"

lemma paths_apart:
  "distinct (map ll_path (new_lock BARRIER True # lane_locks token @ group_locks grp lane @ source_locks digest source))"
  by (auto simp: new_lock_def BARRIER_def lane_locks_def group_locks_def source_locks_def source_lock_name_def
      split: option.split list.split)

lemma idle_locks: "list_all (\<lambda>l. \<not> ll_held l) (new_lock BARRIER True # lane_locks token @ group_locks grp lane @ source_locks digest source)"
  by (auto simp: new_lock_def lane_locks_def group_locks_def source_locks_def split: option.split list.split)

lemma workload_locks_ok:
  assumes "local_lock_for_workload digest workload source lane = Inr (Some rl)"
  shows "distinct (map ll_path (rl_locks rl)) \<and> list_all (\<lambda>l. \<not> ll_held l) (rl_locks rl)"
proof (cases "workload_conflict_group workload = Some ''maintenance''")
  case True
  then show ?thesis using assms by (auto simp: local_lock_for_workload_def Let_def new_lock_def)
next
  case False
  with assms obtain token where "rl_locks rl = new_lock BARRIER True # lane_locks token @ group_locks (workload_conflict_group workload) lane @ source_locks digest source"
    by (auto simp: local_lock_for_workload_def Let_def bindE_Inr split: if_splits)
  then show ?thesis using paths_apart idle_locks by simp
qed

lemma slot_locks_ok:
  assumes "slot_local digest c = Inr (Some rl)"
  shows "distinct (map ll_path (rl_locks rl)) \<and> list_all (\<lambda>l. \<not> ll_held l) (rl_locks rl)"
  using assms workload_locks_ok [of digest "sc_workload c" "sc_source c" "sc_lane c" rl]
  by (auto simp: slot_local_def Let_def local_source_lock_def new_lock_def split: if_splits sum.splits)

lemma locks_try_acquire_eq:
  assumes "slot_local digest c = Inr (Some rl)" "absent i table"
  shows "locks_try_acquire i file rl table =
    (if list_all (\<lambda>l. flock_free table (ll_path l) (ll_shared l)) (rl_locks rl) \<and> \<not> flight_fences file rl
     then (True, rl\<lparr>rl_locks := map hold (rl_locks rl)\<rparr>, with_locks i (rl_locks rl) table) else (False, rl, table))"
proof -
  note ok = slot_locks_ok [OF assms(1)]
  have "map (\<lambda>l. l\<lparr>ll_held := False\<rparr>) (map hold (rl_locks rl)) = rl_locks rl"
    using ok by (auto simp: list_all_iff unhold intro: map_idI)
  moreover have "without_locks i (map hold (rl_locks rl)) (with_locks i (rl_locks rl) table) = table"
    by (rule without_with_locks [OF assms(2)]) (simp add: image_image)
  ultimately have rel: "release_all i (map hold (rl_locks rl)) (with_locks i (rl_locks rl) table) = (rl_locks rl, table)"
    using release_all_held [of "map hold (rl_locks rl)" i] by (simp add: list_all_iff)
  show ?thesis
    using acquire_all_eq [of "rl_locks rl" i table] ok assms(2) rel
    by (cases "file") (auto simp: locks_try_acquire_def flight_fences_def)
qed


section \<open>Slots over time\<close>

text \<open>
  The admitted slots of a host with the call that each of them made. Between the operations the
  server and the marker may change in any way: keys expire, the server is restarted empty, other
  hosts run.
\<close>

type_synonym admitted = "(nat \<times> slot_call \<times> slot) list"

inductive slot_reach ::
  "'s redis_ops \<Rightarrow> (string \<Rightarrow> string) \<Rightarrow> 's io_world \<Rightarrow> admitted \<Rightarrow> bool" for R :: "'s redis_ops" and digest where
  boot: "w_locks w = (\<lambda>_. []) \<Longrightarrow> slot_reach R digest w []"
| admit: "slot_reach R digest w hs \<Longrightarrow> i \<notin> fst ` set hs \<Longrightarrow> enter_slot R digest i c w = (Inr sl, w') \<Longrightarrow>
    slot_reach R digest w' ((i, c, sl) # hs)"
| refuse: "slot_reach R digest w hs \<Longrightarrow> i \<notin> fst ` set hs \<Longrightarrow> enter_slot R digest i c w = (Inl e, w') \<Longrightarrow>
    slot_reach R digest w' hs"
| leave: "slot_reach R digest w hs \<Longrightarrow> (i, c, sl) \<in> set hs \<Longrightarrow>
    slot_reach R digest (leave_slot R i sl w) (filter (\<lambda>h. fst h \<noteq> i) hs)"
| environment: "slot_reach R digest w hs \<Longrightarrow> slot_reach R digest (w\<lparr>w_redis := s, w_marker := m\<rparr>) hs"

definition compatible :: "(string \<Rightarrow> string) \<Rightarrow> slot_call \<Rightarrow> slot_call \<Rightarrow> bool" where
  "compatible digest c c' \<longleftrightarrow> list_all (\<lambda>l. list_all (\<lambda>l'. ll_path l = ll_path l' \<longrightarrow> ll_shared l \<and> ll_shared l')
     (slot_demand digest c')) (slot_demand digest c)"

lemma compatible_sym: "compatible digest c c' = compatible digest c' c"
  by (auto simp: compatible_def list_all_iff)

text \<open>The lock table holds exactly the locks of the admitted slots, and these are compatible.\<close>

definition slot_entries :: "(string \<Rightarrow> string) \<Rightarrow> admitted \<Rightarrow> string \<Rightarrow> (nat \<times> bool) set" where
  "slot_entries digest hs p = (\<Union>(i, c, sl) \<in> set hs. (\<lambda>l. (i, ll_shared l)) ` {l \<in> set (slot_demand digest c). ll_path l = p})"

definition slot_held :: "(string \<Rightarrow> string) \<Rightarrow> slot_call \<Rightarrow> slot \<Rightarrow> bool" where
  "slot_held digest c sl \<longleftrightarrow> (\<exists>l. slot_local digest c = Inr l \<and>
     sl_local sl = map_option (\<lambda>rl. rl\<lparr>rl_locks := map hold (rl_locks rl)\<rparr>) l)"

definition slot_inv :: "(string \<Rightarrow> string) \<Rightarrow> lock_table \<Rightarrow> admitted \<Rightarrow> bool" where
  "slot_inv digest table hs \<longleftrightarrow> distinct (map fst hs) \<and> (\<forall>p. set (table p) = slot_entries digest hs p) \<and>
     (\<forall>(i, c, sl) \<in> set hs. slot_held digest c sl) \<and>
     (\<forall>(i, c, sl) \<in> set hs. \<forall>(j, c', sl') \<in> set hs. i \<noteq> j \<longrightarrow> compatible digest c c')"

lemma slot_inv_absent: "slot_inv digest table hs \<Longrightarrow> i \<notin> fst ` set hs \<Longrightarrow> absent i table"
  unfolding slot_inv_def absent_def slot_entries_def by (simp only: simp_thms) (auto simp: image_iff)

lemma ball_slot_entries:
  "(\<forall>h \<in> slot_entries digest hs p. Q h) \<longleftrightarrow>
    (\<forall>(j, c', sl') \<in> set hs. \<forall>l' \<in> set (slot_demand digest c'). p = ll_path l' \<longrightarrow> Q (j, ll_shared l'))"
  unfolding slot_entries_def by (simp add: split_beta ball_UN) blast

lemma free_iff_compatible:
  assumes "slot_inv digest table hs"
  shows "list_all (\<lambda>l. flock_free table (ll_path l) (ll_shared l)) (slot_demand digest c) \<longleftrightarrow>
    (\<forall>(j, c', sl') \<in> set hs. compatible digest c c')"
proof -
  have table: "set (table p) = slot_entries digest hs p" for p using assms by (simp add: slot_inv_def)
  have empty: "table p = [] \<longleftrightarrow> (\<forall>(j, c', sl') \<in> set hs. \<forall>l' \<in> set (slot_demand digest c'). p = ll_path l' \<longrightarrow> False)" for p
    unfolding ball_slot_entries [where Q = "\<lambda>_. False", symmetric] using table [of p] by (cases "table p") auto
  have "flock_free table p sh \<longleftrightarrow>
      (\<forall>(j, c', sl') \<in> set hs. \<forall>l' \<in> set (slot_demand digest c'). p = ll_path l' \<longrightarrow> sh \<and> ll_shared l')" for p sh
    by (cases sh) (simp_all add: flock_free_def list_all_iff table empty ball_slot_entries)
  then show ?thesis unfolding compatible_def list_all_iff by (simp add: split_beta) blast
qed

lemma slot_lease_locks:
  assumes "slot_lease R digest c w = (r, w')"
  shows "w_locks w' = w_locks w \<and> w_marker w' = w_marker w"
  using assms by (auto simp: slot_lease_def Let_def split: sum.splits if_splits option.splits prod.splits)

lemma leave_lease_locks [simp]: "w_locks (leave_lease R le w) = w_locks w" "w_marker (leave_lease R le w) = w_marker w"
  by (simp_all add: leave_lease_def split: option.split)


lemma enter_slot_admitted:
  assumes "enter_slot R digest i c w = (Inr sl, w')" "absent i (w_locks w)"
  shows "slot_held digest c sl \<and> w_locks w' = with_locks i (slot_demand digest c) (w_locks w) \<and>
    list_all (\<lambda>l. flock_free (w_locks w) (ll_path l) (ll_shared l)) (slot_demand digest c) \<and>
    (\<forall>rl. slot_local digest c = Inr (Some rl) \<longrightarrow> \<not> flight_fences (w_marker w) rl)"
proof -
  obtain le w1 where le: "slot_lease R digest c w = (Inr le, w1)"
    using assms(1) by (auto simp: enter_slot_def split: sum.splits prod.splits)
  note same = slot_lease_locks [OF le]
  obtain l where l: "slot_local digest c = Inr l"
    using assms(1) le by (auto simp: enter_slot_def split: sum.splits prod.splits)
  show ?thesis
  proof (cases l)
    case None
    then show ?thesis using assms(1) le l same by (auto simp: enter_slot_def slot_held_def slot_demand_def split: sum.splits)
  next
    case (Some rl)
    then have rl: "slot_local digest c = Inr (Some rl)" using l by simp
    note eq = locks_try_acquire_eq [OF rl assms(2), of "w_marker w"]
    show ?thesis using assms(1) le rl same eq
      by (auto simp: enter_slot_def slot_held_def slot_demand_def split: sum.splits if_splits)
  qed
qed

lemma enter_slot_refused:
  assumes "enter_slot R digest i c w = (Inl e, w')" "absent i (w_locks w)"
  shows "w_locks w' = w_locks w"
proof (cases "slot_gate R c w")
  case gate: (Inr u)
  obtain r w1 where le: "slot_lease R digest c w = (r, w1)" by (cases "slot_lease R digest c w")
  note same = slot_lease_locks [OF le]
  show ?thesis
  proof (cases r)
    case (Inr l)
    note r = Inr
    show ?thesis
    proof (cases "\<exists>rl. slot_local digest c = Inr (Some rl)")
      case True
      then obtain rl where rl: "slot_local digest c = Inr (Some rl)" by blast
      note eq = locks_try_acquire_eq [OF rl assms(2), of "w_marker w"]
      have "locks_release i rl (w_locks w) = (rl, w_locks w)"
        using slot_locks_ok [OF rl] release_all_idle [of "rl_locks rl" i "w_locks w"] by (simp add: locks_release_def)
      then show ?thesis using assms(1) gate le r rl same eq
        by (auto simp: enter_slot_def split: if_splits)
    qed (use assms(1) gate le r same in \<open>auto simp: enter_slot_def split: sum.splits option.splits\<close>)
  qed (use assms(1) gate le same in \<open>auto simp: enter_slot_def\<close>)
qed (use assms(1) in \<open>auto simp: enter_slot_def\<close>)

lemma leave_slot_locks:
  assumes "slot_held digest c sl"
  shows "w_locks (leave_slot R i sl w) = without_locks i (slot_demand digest c) (w_locks w)"
proof -
  have paths: "ll_path ` set (map hold ls) = ll_path ` set ls" for ls by (simp add: image_image)
  have "snd (release_all i (map hold ls) t) = without_locks i ls t" for ls t
    using release_all_held [of "map hold ls" i t] unfolding without_locks_def paths by (simp add: list_all_iff)
  moreover obtain l where l: "slot_local digest c = Inr l" "sl_local sl = map_option (\<lambda>rl. rl\<lparr>rl_locks := map hold (rl_locks rl)\<rparr>) l"
    using assms by (auto simp: slot_held_def)
  ultimately show ?thesis
    by (cases l) (simp_all add: leave_slot_def locks_release_def slot_demand_def split_beta, simp add: without_locks_def)
qed

lemma slot_inv_admit:
  assumes inv: "slot_inv digest table hs" and i: "i \<notin> fst ` set hs" and held: "slot_held digest c sl"
    and comp: "\<forall>(j, c', sl') \<in> set hs. compatible digest c c'"
  shows "slot_inv digest (with_locks i (slot_demand digest c) table) ((i, c, sl) # hs)"
proof -
  have "set (with_locks i (slot_demand digest c) table p) = slot_entries digest ((i, c, sl) # hs) p" for p
    using inv by (simp add: set_with_locks slot_inv_def slot_entries_def)
  moreover have "distinct (map fst ((i, c, sl) # hs))" using inv i by (simp add: slot_inv_def)
  moreover have "\<forall>(j, c', sl') \<in> set ((i, c, sl) # hs). slot_held digest c' sl'" using inv held by (simp add: slot_inv_def)
  moreover have "j \<noteq> k \<longrightarrow> compatible digest d d'" if "(j, d, x) \<in> set ((i, c, sl) # hs)" "(k, d', y) \<in> set ((i, c, sl) # hs)" for j d x k d' y
  proof -
    have old: "(j, d, x) \<in> set hs \<Longrightarrow> (k, d', y) \<in> set hs \<Longrightarrow> j \<noteq> k \<longrightarrow> compatible digest d d'"
      using inv unfolding slot_inv_def by blast
    have new: "(k', c', z) \<in> set hs \<Longrightarrow> compatible digest c c' \<and> compatible digest c' c" for k' c' z
      using comp compatible_sym [of digest c c'] by blast
    show ?thesis using that old new [of k d' y] new [of j d x] by auto
  qed
  ultimately show ?thesis unfolding slot_inv_def by blast
qed

lemma slot_inv_leave:
  assumes inv: "slot_inv digest table hs" and i: "(i, c, sl) \<in> set hs"
  shows "slot_inv digest (without_locks i (slot_demand digest c) table) (filter (\<lambda>h. fst h \<noteq> i) hs)"
proof -
  have dist: "distinct (map fst hs)" and table: "\<And>p. set (table p) = slot_entries digest hs p" using inv by (simp_all add: slot_inv_def)
  have own: "h = (i, c, sl)" if "h \<in> set hs" "fst h = i" for h
    using dist that i by (metis distinct_map fst_conv inj_on_def)
  have mine: "p \<in> ll_path ` set (slot_demand digest c)" if h: "h \<in> slot_entries digest hs p" "fst h = i" for h p
  proof -
    obtain e l where e: "e \<in> set hs" "fst e = i" "l \<in> set (slot_demand digest (fst (snd e)))" "ll_path l = p"
      using h by (auto simp: slot_entries_def)
    from own [OF e(1,2)] e(3,4) show ?thesis by auto
  qed
  have "set (without_locks i (slot_demand digest c) table p) = {h \<in> slot_entries digest hs p. fst h \<noteq> i}" for p
    using mine [of _ p] table [of p] by (auto simp: without_locks_def)
  moreover have "slot_entries digest (filter (\<lambda>h. fst h \<noteq> i) hs) p = {h \<in> slot_entries digest hs p. fst h \<noteq> i}" for p
    by (auto simp: slot_entries_def)
  moreover have "distinct (map fst (filter (\<lambda>h. fst h \<noteq> i) hs))" using dist by (simp add: distinct_map_filter)
  moreover have "set (filter (\<lambda>h. fst h \<noteq> i) hs) \<subseteq> set hs" by auto
  ultimately show ?thesis using inv unfolding slot_inv_def by blast
qed

lemma slot_reach_inv: "slot_reach R digest w hs \<Longrightarrow> slot_inv digest (w_locks w) hs"
proof (induction rule: slot_reach.induct)
  case (boot w)
  then show ?case by (simp add: slot_inv_def slot_entries_def)
next
  case (admit w hs i c sl w')
  note e = enter_slot_admitted [OF admit.hyps(3) slot_inv_absent [OF admit.IH admit.hyps(2)]]
  then have "\<forall>(j, c', sl') \<in> set hs. compatible digest c c'" using free_iff_compatible [OF admit.IH] by simp
  from slot_inv_admit [OF admit.IH admit.hyps(2) _ this] e show ?case by simp
next
  case (refuse w hs i c e w')
  then show ?case using enter_slot_refused [OF refuse.hyps(3) slot_inv_absent] by simp
next
  case (leave w hs i c sl)
  then have "slot_held digest c sl" unfolding slot_inv_def by blast
  then show ?case unfolding leave_slot_locks [OF \<open>slot_held digest c sl\<close>] using slot_inv_leave [OF leave.IH leave.hyps(2)] by blast
qed simp

section \<open>Exclusion\<close>




definition lane_token :: "slot_call \<Rightarrow> string option" where
  "lane_token c = (case resource_budget_token_key (sc_workload c) (sc_lane c) of Inl _ \<Rightarrow> None | Inr t \<Rightarrow> t)"









text \<open>C11. The lock files implement the compatibility of calls and nothing else: in every reachable
  state the local locks of a new call are granted exactly when no unresolved remote search flight
  fences it and its locks are compatible with those of every admitted slot.\<close>

theorem local_locks_refine_compatibility:
  assumes "slot_reach R digest w hs" "i \<notin> fst ` set hs" "slot_local digest c = Inr (Some rl)"
  shows "fst (locks_try_acquire i (w_marker w) rl (w_locks w)) \<longleftrightarrow>
    \<not> flight_fences (w_marker w) rl \<and> (\<forall>(j, c', sl') \<in> set hs. compatible digest c c')"
proof -
  note inv = slot_reach_inv [OF assms(1)]
  have "rl_locks rl = slot_demand digest c" using assms(3) by (simp add: slot_demand_def)
  then show ?thesis
    using locks_try_acquire_eq [OF assms(3) slot_inv_absent [OF inv assms(2)]] free_iff_compatible [OF inv, of c] by auto
qed

section \<open>The keys of a slot\<close>

lemma slot_key_kinds:
  assumes "slot_keys digest c = Inr keys" "k \<in> set keys"
  shows "lane_token c = Some k \<and> own_admission c \<or> k = HEAVY_IO_LOCK_KEY \<or> (\<exists>x. k = ''lock:resource-profile:'' @ x) \<or>
    (\<exists>x. k = ''lock:heavy-io:source:'' @ x)"
  using assms
  by (auto simp: slot_keys_def Let_def resource_lease_keys_def bindE_Inr lane_token_def opt_list_def profile_lease_key_def source_lock_key_def
      split: if_splits sum.splits option.splits list.splits)

lemma lane_token_cases:
  "lane_token c \<in> {None, Some HEAVY_IO_LOCK_KEY, Some RESOURCE_NETWORK_TOKEN_KEY, Some RESOURCE_DISK_TOKEN_KEY, Some RESOURCE_BACKGROUND_TOKEN_KEY}"
  by (simp add: lane_token_def resource_budget_token_key_def Let_def)

lemma accounting_keys_apart:
  "set (LAST_BACKGROUND_KEY # RESOURCE_RESERVATION_KEYS) \<inter> ({HEAVY_IO_LOCK_KEY} \<union> range ((@) ''lock:resource-profile:'') \<union> range ((@) ''lock:heavy-io:source:'')) = {}"
  by (auto simp: heavy_io_keys)

lemma slot_keys_reserved:
  assumes "slot_keys digest c = Inr keys" "k \<in> set keys" "k \<in> set (LAST_BACKGROUND_KEY # RESOURCE_RESERVATION_KEYS)"
  shows "lane_token c = Some k \<and> own_admission c \<and> k \<in> {RESOURCE_NETWORK_TOKEN_KEY, RESOURCE_DISK_TOKEN_KEY, RESOURCE_BACKGROUND_TOKEN_KEY}"
proof -
  have "k \<notin> {HEAVY_IO_LOCK_KEY} \<union> range ((@) ''lock:resource-profile:'') \<union> range ((@) ''lock:heavy-io:source:'')"
    using disjoint_iff [THEN iffD1, OF accounting_keys_apart, rule_format, OF assms(3)] .
  then have no: "k \<noteq> HEAVY_IO_LOCK_KEY" "\<not> (\<exists>x. k = ''lock:resource-profile:'' @ x)" "\<not> (\<exists>x. k = ''lock:heavy-io:source:'' @ x)"
    unfolding Un_iff image_iff by (simp_all only: simp_thms singleton_iff UNIV_I bex_simps Bex_def de_Morgan_disj)
  from slot_key_kinds [OF assms(1,2)] have own: "lane_token c = Some k \<and> own_admission c" using no by (simp only: simp_thms)
  from lane_token_cases [of c] own no(1) show ?thesis by (simp only: insert_iff empty_iff option.inject option.distinct simp_thms)
qed

lemma slot_keys_side: "slot_keys digest c = Inr keys \<Longrightarrow> set keys \<inter> side_keys = {}"
proof -
  assume k: "slot_keys digest c = Inr keys"
  have "side_keys \<subseteq> set (LAST_BACKGROUND_KEY # RESOURCE_RESERVATION_KEYS)" by (auto simp: side_keys_def RESOURCE_RESERVATION_KEYS_def)
  moreover have "{RESOURCE_NETWORK_TOKEN_KEY, RESOURCE_DISK_TOKEN_KEY, RESOURCE_BACKGROUND_TOKEN_KEY} \<inter> side_keys = {}"
    by (simp add: side_keys_def heavy_io_keys)
  ultimately show ?thesis using slot_keys_reserved [OF k] by blast
qed


text \<open>The lease of an entered or refused slot.\<close>

lemma slot_lease_cases:
  assumes "slot_lease R digest c w = (r, w1)"
  shows "w1 = w \<and> (\<forall>le. r \<noteq> Inr (Some le)) \<or>
    (\<exists>keys reservation capacity le ok le' s. slot_keys digest c = Inr keys \<and>
       resource_reservation_details (sc_snapshot c) (sc_workload c) (sc_live_memory c) = (reservation, capacity) \<and>
       reservation \<le> capacity \<and>
       new_lease keys (sc_workload c) (sc_owner c) (sc_lease_seconds c) (sc_renew_seconds c)
         (slot_reservation_key c) reservation capacity (sc_token c) (sc_stamp c) = Some le \<and>
       lease_try_acquire R (w_marker w) le (w_redis w) = (ok, le', s) \<and> w1 = w\<lparr>w_redis := s\<rparr> \<and>
       r = (if ok \<or> \<not> own_admission c then Inr (Some le') else Inl (Unavailable (str_or (le_denial le') ''redis_lease_busy''))))"
  using assms unfolding slot_lease_def
  by (auto simp: Let_def not_less split: sum.splits if_splits prod.splits option.splits)
section \<open>What an admission and a refusal leave behind\<close>

lemma lease_release_gets:
  assumes "redis_laws R" "le_acquired le"
  shows "r_get R (snd (lease_release R le s)) k =
    (if k \<in> set (le_keys le) \<and> r_get R s k = Some (le_value le) then None else r_get R s k)"
  using assms release_keys_get [OF assms(1)] by (simp add: lease_release_def)

lemma lease_release_idle: "\<not> le_acquired le \<Longrightarrow> snd (lease_release R le s) = s"
  by (simp add: lease_release_def)

lemma acquired_lease_same:
  assumes "lease_try_acquire R file le s = (ok, le', s')"
  shows "le_keys le' = le_keys le \<and> le_value le' = le_value le"
  using assms by (auto simp: lease_try_acquire_def Let_def le_value_def split: if_splits prod.splits bool.splits)

lemma slot_lease_undone:
  assumes "redis_laws R" "slot_lease R digest c w = (r, w1)" "k \<notin> side_keys"
  shows "case r of Inl e \<Rightarrow> r_get R (w_redis w1) k = r_get R (w_redis w) k
    | Inr le \<Rightarrow> r_get R (w_redis (leave_lease R le w1)) k = r_get R (w_redis w) k"
  using slot_lease_cases [OF assms(2)]
proof (elim disjE exE conjE)
  assume "w1 = w" "\<forall>le. r \<noteq> Inr (Some le)"
  then show ?thesis by (cases r) (auto simp: leave_lease_def split: option.split)
next
  fix keys reservation capacity le ok le' s
  assume keys: "slot_keys digest c = Inr keys" and
    le: "new_lease keys (sc_workload c) (sc_owner c) (sc_lease_seconds c) (sc_renew_seconds c)
         (slot_reservation_key c) reservation capacity (sc_token c) (sc_stamp c) = Some le" and
    a: "lease_try_acquire R (w_marker w) le (w_redis w) = (ok, le', s)" and w1: "w1 = w\<lparr>w_redis := s\<rparr>" and
    r: "r = (if ok \<or> \<not> own_admission c then Inr (Some le') else Inl (Unavailable (str_or (le_denial le') ''redis_lease_busy'')))"
  note out = lease_outcome [OF assms(1) le slot_keys_side [OF keys] a]
  have same: "le_keys le' = le_keys le" "le_value le' = le_value le" using acquired_lease_same [OF a] by simp_all
  have set: "set (le_keys le) = set keys" using new_lease_props [OF le] by (simp only:)
  show ?thesis
  proof (cases ok)
    case True
    then have acq: "le_acquired le'" and got: "\<forall>k \<in> set keys. r_get R (w_redis w) k = None \<and> r_get R s k = Some (le_value le)"
      and other: "k \<notin> set keys \<Longrightarrow> r_get R s k = r_get R (w_redis w) k"
      using out assms(3) by (simp_all, blast)
    have "r_get R (snd (lease_release R le' s)) k = r_get R (w_redis w) k"
      using got other set by (simp add: lease_release_gets [OF assms(1) acq] same)
    then show ?thesis using True r w1 by (simp add: leave_lease_def)
  next
    case False
    then have "\<not> le_acquired le'" "r_get R s k = r_get R (w_redis w) k" using out assms(3) by auto
    then show ?thesis using r w1 by (simp add: leave_lease_def lease_release_idle)
  qed
qed

lemma leave_lease_locks_upd: "w_redis (leave_lease R le (w\<lparr>w_locks := t\<rparr>)) = w_redis (leave_lease R le w)"
  by (simp add: leave_lease_def split: option.split)

lemma enter_slot_redis:
  assumes "enter_slot R digest i c w = (r, w1)" "w' = (case r of Inl e \<Rightarrow> w1 | Inr sl \<Rightarrow> leave_slot R i sl w1)"
  shows "w_marker w' = w_marker w \<and> (w_redis w' = w_redis w \<or>
      (\<exists>r1 w2. slot_lease R digest c w = (r1, w2) \<and>
        w_redis w' = (case r1 of Inl e \<Rightarrow> w_redis w2 | Inr le \<Rightarrow> w_redis (leave_lease R le w2))))"
proof (cases "slot_gate R c w")
  case (Inr u)
  obtain r1 w2 where le: "slot_lease R digest c w = (r1, w2)" by (cases "slot_lease R digest c w")
  note same = slot_lease_locks [OF le]
  have leave: "w_redis (leave_slot R i sl w) = w_redis (leave_lease R (sl_lease sl) w) \<and> w_marker (leave_slot R i sl w) = w_marker w" for sl and w :: "'a io_world"
    by (simp add: leave_slot_def leave_lease_locks_upd split: option.split)
  show ?thesis using assms Inr le same leave
    by (auto simp: enter_slot_def leave_lease_locks_upd split: sum.splits option.splits prod.splits bool.splits)
qed (use assms in \<open>auto simp: enter_slot_def\<close>)

text \<open>C9. Entering a slot is all or nothing across both services. A refused call leaves no trace:
  the lock table and the marker are as before, and so is every key of the server except the two of
  the accounting. A call that was admitted and leaves again at once leaves no trace either.\<close>

theorem slot_leaves_no_trace:
  assumes "redis_laws R" "slot_reach R digest w hs" "i \<notin> fst ` set hs" "enter_slot R digest i c w = (r, w1)"
    and "w' = (case r of Inl e \<Rightarrow> w1 | Inr sl \<Rightarrow> leave_slot R i sl w1)"
  shows "w_locks w' = w_locks w \<and> w_marker w' = w_marker w \<and>
    (\<forall>k. k \<in> side_keys \<or> r_get R (w_redis w') k = r_get R (w_redis w) k)"
proof -
  note inv = slot_reach_inv [OF assms(2)]
  note abs = slot_inv_absent [OF inv assms(3)]
  have locks: "w_locks w' = w_locks w"
  proof (cases r)
    case (Inl e)
    then show ?thesis using enter_slot_refused [OF _ abs, of R digest c e w1] assms(4,5) by simp
  next
    case (Inr sl)
    note e = enter_slot_admitted [OF assms(4) [unfolded Inr] abs]
    have "without_locks i (slot_demand digest c) (with_locks i (slot_demand digest c) (w_locks w)) = w_locks w"
      by (rule without_with_locks [OF abs]) simp
    then show ?thesis using Inr e assms(5) leave_slot_locks [of digest c sl R i w1] by simp
  qed
  have parts: "w_marker w' = w_marker w \<and> (w_redis w' = w_redis w \<or>
      (\<exists>r1 w2. slot_lease R digest c w = (r1, w2) \<and>
        w_redis w' = (case r1 of Inl e \<Rightarrow> w_redis w2 | Inr le \<Rightarrow> w_redis (leave_lease R le w2))))"
    by (rule enter_slot_redis [OF assms(4,5)])
  have "r_get R (w_redis w') k = r_get R (w_redis w) k" if "k \<notin> side_keys" for k
  proof (cases "w_redis w' = w_redis w")
    case False
    then obtain r1 w2 where l: "slot_lease R digest c w = (r1, w2)"
        "w_redis w' = (case r1 of Inl e \<Rightarrow> w_redis w2 | Inr le \<Rightarrow> w_redis (leave_lease R le w2))" using parts by blast
    from slot_lease_undone [OF assms(1) l(1) that] show ?thesis unfolding l(2) by (cases r1) simp_all
  qed simp
  then show ?thesis using locks parts by blast
qed







section \<open>Leases that were lost\<close>

lemma renew_keys_spec:
  assumes "redis_laws R" "0 < ex"
  shows "(fst (renew_keys R v ex ks s) \<longleftrightarrow> (\<forall>k \<in> set ks. r_get R s k = Some v)) \<and> r_get R (snd (renew_keys R v ex ks s)) k = r_get R s k"
proof (induction ks arbitrary: s)
  case (Cons k' ks)
  have "r_get R (snd (renew_script R s k' v ex)) k = r_get R s k" for k
    using assms by (simp add: renew_script_def)
  moreover have "fst (renew_script R s k' v ex) \<noteq> 0 \<longleftrightarrow> r_get R s k' = Some v" by (simp add: renew_script_def)
  ultimately show ?case using Cons [of "snd (renew_script R s k' v ex)"] by (simp add: split_beta)
qed simp

text \<open>C16. A holder that lost its lease cannot harm its successor. A renewal changes no value and
  marks the lease lost exactly when one of its keys is no longer its own; a release removes exactly
  the keys that are still its own, so a key that another token took over stays with it.\<close>

theorem stale_lease_is_harmless:
  assumes "redis_laws R" "new_lease keys workload owner ls rs rk reservation capacity token stamp = Some le0"
    and "le = le0\<lparr>le_denial := d, le_acquired := True, le_lost := False\<rparr>"
  shows "r_get R (snd (renew_beat R le s)) k = r_get R s k \<and>
    (le_lost (fst (renew_beat R le s)) \<longleftrightarrow> (\<exists>k \<in> set keys. r_get R s k \<noteq> Some (le_value le))) \<and>
    r_get R (snd (lease_release R le s)) k = (if k \<in> set keys \<and> r_get R s k = Some (le_value le) then None else r_get R s k) \<and>
    (lp_token (le_payload other) \<noteq> token \<and> r_get R s k = Some (le_value other) \<longrightarrow>
       r_get R (snd (lease_release R le s)) k = Some (le_value other))"
proof -
  note le0 = new_lease_props [OF assms(2)]
  have keys: "set (le_keys le) = set keys" "0 < le_lease_seconds le" "le_acquired le" "\<not> le_lost le" "lp_token (le_payload le) = token"
    using le0 by (simp_all add: assms(3))
  note renew = renew_keys_spec [OF assms(1) keys(2), of "le_value le" "le_keys le" s]
  have release: "r_get R (snd (lease_release R le s)) k = (if k \<in> set keys \<and> r_get R s k = Some (le_value le) then None else r_get R s k)"
    using lease_release_gets [OF assms(1) keys(3)] keys(1) by simp
  have "lp_token (le_payload other) \<noteq> token \<Longrightarrow> le_value other \<noteq> le_value le" using keys(5) by (auto simp: le_value_def)
  then show ?thesis using renew release keys by (auto simp: renew_beat_def split_beta)
qed
section \<open>Examples\<close>

definition demo_call :: "string \<Rightarrow> slot_call" where
  "demo_call workload = \<lparr>sc_workload = workload, sc_owner = ''worker-1'', sc_source = None, sc_lane = None,
     sc_lease_seconds = 120, sc_renew_seconds = 60,
     sc_snapshot = \<lparr>sn_status = None, sn_controller_mode = None, sn_budget = None,
       sn_available_bytes = Given 8000000000, sn_hard_floor_bytes = Given 1000000000\<rparr>,
     sc_live_memory = Some 7000000000, sc_token = ''t1'', sc_stamp = ''now'', sc_inherited = False, sc_inherited_profile = None\<rparr>"

definition demo_world :: "flight_marker option \<Rightarrow> (string \<Rightarrow> redis_value option) io_world" where
  "demo_world m = \<lparr>w_redis = Map.empty, w_locks = (\<lambda>_. []), w_marker = m\<rparr>"

definition demo_enter :: "(slot_refusal + slot) \<times> (string \<Rightarrow> redis_value option) io_world" where
  "demo_enter = enter_slot map_redis id 0 (demo_call ''import'') (demo_world None)"

lemma demo_first: "\<not> isl (fst demo_enter)"
  by code_simp


lemma demo_third: "isl (fst (enter_slot map_redis id 1 (demo_call ''import'') (snd demo_enter)))"
  by code_simp

lemma demo_local: "case slot_local id (demo_call ''import'') of Inr (Some rl) \<Rightarrow> True | _ \<Rightarrow> False"
  by code_simp

lemma not_isl_fst: "\<not> isl (fst p) \<Longrightarrow> \<exists>y z. p = (Inr y, z)"
  by (cases p; cases "fst p") auto

lemma demo_reach:
  "\<exists>sl w. enter_slot map_redis id 0 (demo_call ''import'') (demo_world None) = (Inr sl, w) \<and> w = snd demo_enter \<and>
     slot_reach map_redis id w [(0, demo_call ''import'', sl)]"
proof -
  obtain sl w where e: "demo_enter = (Inr sl, w)" using not_isl_fst [OF demo_first] by blast
  have "slot_reach map_redis id (demo_world None) []" by (rule boot) (simp add: demo_world_def)
  from admit [OF this _ e [unfolded demo_enter_def]] show ?thesis using e by (simp add: demo_enter_def)
qed


theorem local_locks_refine_compatibility_witness:
  "\<exists>rl. slot_local id (demo_call ''import'') = Inr (Some rl) \<and>
     fst (locks_try_acquire 1 None rl (w_locks (demo_world None))) = (\<not> flight_fences None rl)"
proof -
  have r: "slot_reach map_redis id (demo_world None) []" by (rule boot) (simp add: demo_world_def)
  have "\<exists>rl. slot_local id (demo_call ''import'') = Inr (Some rl)" by (cases "slot_local id (demo_call ''import'')") (use demo_local in \<open>auto split: option.splits\<close>)
  then obtain rl where rl: "slot_local id (demo_call ''import'') = Inr (Some rl)" by blast
  from local_locks_refine_compatibility [OF r _ rl, of 1] rl show ?thesis by (auto simp: demo_world_def)
qed

theorem slot_leaves_no_trace_witness:
  "\<exists>e w'. enter_slot map_redis id 1 (demo_call ''import'') (snd demo_enter) = (Inl e, w') \<and>
     w_locks w' = w_locks (snd demo_enter) \<and> w_redis w' HEAVY_IO_LOCK_KEY = w_redis (snd demo_enter) HEAVY_IO_LOCK_KEY"
proof -
  obtain sl where one: "slot_reach map_redis id (snd demo_enter) [(0, demo_call ''import'', sl)]" using demo_reach by blast
  obtain e w' where e: "enter_slot map_redis id 1 (demo_call ''import'') (snd demo_enter) = (Inl e, w')"
    using demo_third by (cases "enter_slot map_redis id 1 (demo_call ''import'') (snd demo_enter)") (auto simp: isl_def)
  have "HEAVY_IO_LOCK_KEY \<notin> side_keys" by (simp add: side_keys_def heavy_io_keys)
  with slot_leaves_no_trace [OF map_redis_laws one _ e, of w'] show ?thesis using e by (auto simp: map_redis_def)
qed



theorem stale_lease_is_harmless_witness:
  "\<exists>le0. new_lease [''a''] ''import'' ''w1'' 120 60 None 0 0 ''t1'' ''now'' = Some le0 \<and>
     le_lost (fst (renew_beat map_redis (le0\<lparr>le_denial := None, le_acquired := True, le_lost := False\<rparr>) Map.empty))"
proof -
  obtain le0 where le: "new_lease [''a''] ''import'' ''w1'' 120 60 None 0 0 ''t1'' ''now'' = Some le0" by (simp add: new_lease_def Let_def)
  from stale_lease_is_harmless [OF map_redis_laws le refl, of None Map.empty] le show ?thesis by (auto simp: map_redis_def)
qed

end
