(* ===== verification/Text_Codecs.thy ===== *)
theory Text_Codecs
  imports Json
begin

text \<open>
  The codecs of the standard library that opaque tokens of the program are made of: URL-safe
  base64 and the text of a UUID. A byte string is a list of characters.
\<close>

section \<open>Base64\<close>

definition b64_char :: "nat \<Rightarrow> char" where
  "b64_char n =
    (if n < 26 then char_of (65 + n) else if n < 52 then char_of (71 + n) else if n < 62 then char_of (n - 4)
     else if n = 62 then CHR ''-'' else CHR ''_'')"

text \<open>The decoder accepts the characters of both alphabets.\<close>

definition b64_val :: "char \<Rightarrow> nat option" where
  "b64_val c =
    (let n = (of_char c :: nat)
     in if 65 \<le> n \<and> n \<le> 90 then Some (n - 65)
        else if 97 \<le> n \<and> n \<le> 122 then Some (n - 71)
        else if 48 \<le> n \<and> n \<le> 57 then Some (n + 4)
        else if c = CHR ''-'' \<or> c = CHR ''+'' then Some 62
        else if c = CHR ''_'' \<or> c = CHR ''/'' then Some 63
        else None)"

text \<open>\<^verbatim>\<open>base64.urlsafe_b64encode\<close>\<close>

fun b64_encode :: "string \<Rightarrow> string" where
  "b64_encode [] = []"
| "b64_encode [a] =
    (let x = (of_char a :: nat) in [b64_char (x div 4), b64_char (x mod 4 * 16), CHR ''='', CHR ''=''])"
| "b64_encode [a, b] =
    (let x = (of_char a :: nat); y = (of_char b :: nat)
     in [b64_char (x div 4), b64_char (x mod 4 * 16 + y div 16), b64_char (y mod 16 * 4), CHR ''=''])"
| "b64_encode (a # b # c # cs) =
    (let x = (of_char a :: nat); y = (of_char b :: nat); z = (of_char c :: nat)
     in [b64_char (x div 4), b64_char (x mod 4 * 16 + y div 16), b64_char (y mod 16 * 4 + z div 64), b64_char (z mod 64)]
        @ b64_encode cs)"

text \<open>
  \<^verbatim>\<open>binascii.a2b_base64\<close> in its lenient mode: characters outside the alphabet are skipped, the
  padding ends the input once it completes a group of four, and an incomplete group is an error. The
  state is the position in the group, the bits left over and the padding seen.
\<close>

fun b64_scan :: "nat \<Rightarrow> nat \<Rightarrow> nat \<Rightarrow> string \<Rightarrow> string option" where
  "b64_scan pos left pads [] = (if pos = 0 then Some [] else None)"
| "b64_scan pos left pads (c # cs) =
    (if c = CHR ''='' then
       (if 2 \<le> pos \<and> 4 \<le> pos + pads + 1 then Some []
        else b64_scan pos left (if 2 \<le> pos then pads + 1 else pads) cs)
     else case b64_val c of
            None \<Rightarrow> b64_scan pos left pads cs
          | Some v \<Rightarrow>
              if pos = 0 then b64_scan 1 v 0 cs
              else if pos = 1 then map_option (Cons (char_of (left * 4 + v div 16))) (b64_scan 2 (v mod 16) 0 cs)
              else if pos = 2 then map_option (Cons (char_of (left * 16 + v div 4))) (b64_scan 3 (v mod 4) 0 cs)
              else map_option (Cons (char_of (left * 64 + v))) (b64_scan 0 0 0 cs))"

text \<open>\<^verbatim>\<open>base64.urlsafe_b64decode\<close> of a text; \<open>None\<close> is its \<^verbatim>\<open>ValueError\<close>.\<close>

definition b64_decode :: "string \<Rightarrow> string option" where
  "b64_decode s = (if list_all (\<lambda>c. (of_char c :: nat) < 128) s then b64_scan 0 0 0 s else None)"

definition rstrip_pad :: "string \<Rightarrow> string" where
  "rstrip_pad s = rev (dropWhile (\<lambda>c. c = CHR ''='') (rev s))"

text \<open>\<^verbatim>\<open>cursor + "=" * (-len(cursor) % 4)\<close>\<close>

definition repad :: "string \<Rightarrow> string" where
  "repad s = s @ replicate (nat ((- int (length s)) mod 4)) (CHR ''='')"

fun b64_core :: "string \<Rightarrow> string" where
  "b64_core [] = []"
| "b64_core [a] =
    (let x = (of_char a :: nat) in [b64_char (x div 4), b64_char (x mod 4 * 16)])"
| "b64_core [a, b] =
    (let x = (of_char a :: nat); y = (of_char b :: nat)
     in [b64_char (x div 4), b64_char (x mod 4 * 16 + y div 16), b64_char (y mod 16 * 4)])"
| "b64_core (a # b # c # cs) =
    (let x = (of_char a :: nat); y = (of_char b :: nat); z = (of_char c :: nat)
     in [b64_char (x div 4), b64_char (x mod 4 * 16 + y div 16), b64_char (y mod 16 * 4 + z div 64), b64_char (z mod 64)]
        @ b64_core cs)"

lemma b64_code:
  assumes "n < 64"
  shows "(of_char (b64_char n) :: nat) = (if n < 26 then 65 + n else if n < 52 then 71 + n else if n < 62 then n - 4 else if n = 62 then 45 else 95)"
  using assms by (auto simp: b64_char_def)

lemma b64_char [simp]:
  assumes "n < 64"
  shows "b64_val (b64_char n) = Some n" "b64_char n \<noteq> CHR ''=''" "(of_char (b64_char n) :: nat) < 128"
proof -
  note code = b64_code [OF assms]
  show "(of_char (b64_char n) :: nat) < 128" using assms unfolding code by auto
  have "(of_char (b64_char n) :: nat) \<noteq> of_char (CHR ''='')" using assms unfolding code by auto
  then show "b64_char n \<noteq> CHR ''=''" by metis
  consider "n < 62" | "n = 62" | "n = 63" using assms by linarith
  then show "b64_val (b64_char n) = Some n"
  proof cases
    case 1
    then show ?thesis unfolding b64_val_def Let_def code by auto
  qed (simp_all add: b64_val_def b64_char_def)
qed

lemma sextet_bounds:
  fixes x y :: nat
  assumes "x < 256" "y < 256"
  shows "x div 4 < 64" "x mod 4 * 16 + y div 16 < 64" "x mod 16 * 4 + y div 64 < 64" "x mod 64 < 64"
    "x mod 4 * 16 < 64" "x mod 16 * 4 < 64"
proof -
  have small: "x div 4 < 64" "y div 16 < 16" "y div 64 < 4" "x mod 64 < 64" "x mod 4 < 4" "x mod 16 < 16" using assms by simp_all
  show "x div 4 < 64" "x mod 64 < 64" by (fact small)+
  show "x mod 4 * 16 + y div 16 < 64" "x mod 16 * 4 + y div 64 < 64" "x mod 4 * 16 < 64" "x mod 16 * 4 < 64"
    using small by linarith+
qed

lemma b64_scan_byte:
  assumes "(x::nat) < 64"
  shows "b64_scan 0 left pads (b64_char x # cs) = b64_scan 1 x 0 cs"
    "b64_scan 1 left pads (b64_char x # cs) = map_option (Cons (char_of (left * 4 + x div 16))) (b64_scan 2 (x mod 16) 0 cs)"
    "b64_scan 2 left pads (b64_char x # cs) = map_option (Cons (char_of (left * 16 + x div 4))) (b64_scan 3 (x mod 4) 0 cs)"
    "b64_scan 3 left pads (b64_char x # cs) = map_option (Cons (char_of (left * 64 + x))) (b64_scan 0 0 0 cs)"
  using assms by simp_all

lemma byte_parts:
  fixes x y z :: nat
  assumes "x < 256" "y < 256" "z < 256"
  shows "x div 4 * 4 + (x mod 4 * 16 + y div 16) div 16 = x" "(x mod 4 * 16 + y div 16) mod 16 = y div 16"
    "y div 16 * 16 + (y mod 16 * 4 + z div 64) div 4 = y" "(y mod 16 * 4 + z div 64) mod 4 = z div 64"
    "z div 64 * 64 + z mod 64 = z" "x div 4 * 4 + (x mod 4 * 16) div 16 = x"  "y div 16 * 16 + (y mod 16 * 4) div 4 = y"
proof -
  have "y div 16 < 16" "z div 64 < 4" using assms by simp_all
  then show "x div 4 * 4 + (x mod 4 * 16 + y div 16) div 16 = x" "(x mod 4 * 16 + y div 16) mod 16 = y div 16"
    "y div 16 * 16 + (y mod 16 * 4 + z div 64) div 4 = y" "(y mod 16 * 4 + z div 64) mod 4 = z div 64" by simp_all
qed simp_all

lemma b64_scan_group:
  assumes "x < 256" "y < 256" "z < 256"
  shows "b64_scan 0 l p (b64_char (x div 4) # b64_char (x mod 4 * 16 + y div 16) # b64_char (y mod 16 * 4 + z div 64) # b64_char (z mod 64) # cs)
    = map_option (\<lambda>r. char_of x # char_of y # char_of z # r) (b64_scan 0 0 0 cs)"
    "b64_scan 0 l p (b64_char (x div 4) # b64_char (x mod 4 * 16 + y div 16) # b64_char (y mod 16 * 4) # ''='') = Some [char_of x, char_of y]"
    "b64_scan 0 l p (b64_char (x div 4) # b64_char (x mod 4 * 16) # ''=='') = Some [char_of x]"
proof -
  note b = sextet_bounds [OF assms(1,2)] sextet_bounds [OF assms(2,3)] sextet_bounds [OF assms(3,3)] byte_parts [OF assms]
  show "b64_scan 0 l p (b64_char (x div 4) # b64_char (x mod 4 * 16 + y div 16) # b64_char (y mod 16 * 4 + z div 64) # b64_char (z mod 64) # cs)
    = map_option (\<lambda>r. char_of x # char_of y # char_of z # r) (b64_scan 0 0 0 cs)"
    by (simp only: b64_scan_byte b option.map_comp comp_def)
  have "b64_scan 2 left 0 ''=='' = Some []" "b64_scan 3 left 0 ''='' = Some []" for left by simp_all
  then show "b64_scan 0 l p (b64_char (x div 4) # b64_char (x mod 4 * 16 + y div 16) # b64_char (y mod 16 * 4) # ''='') = Some [char_of x, char_of y]"
    "b64_scan 0 l p (b64_char (x div 4) # b64_char (x mod 4 * 16) # ''=='') = Some [char_of x]"
    by (simp_all only: b64_scan_byte b option.map)
qed

lemma b64_scan_core: "b64_scan 0 0 0 (repad (b64_core bs)) = Some bs"
proof (induction bs rule: b64_core.induct)
  case 1
  then show ?case by (simp add: repad_def)
next
  case (2 a)
  have "(of_char a :: nat) < 256" by simp
  from b64_scan_group(3) [OF this this this, of 0 0] show ?case by (simp only: repad_def b64_core.simps Let_def) (simp add: numeral_2_eq_2)
next
  case (3 a b)
  have "(of_char a :: nat) < 256" "(of_char b :: nat) < 256" by simp_all
  from b64_scan_group(2) [OF this this(1), of 0 0] show ?case by (simp only: repad_def b64_core.simps Let_def) simp
next
  case (4 a b c cs)
  have small: "(of_char a :: nat) < 256" "(of_char b :: nat) < 256" "(of_char c :: nat) < 256" by simp_all
  have "nat ((- int (length (b64_core (a # b # c # cs)))) mod 4) = nat ((- int (length (b64_core cs))) mod 4)"
  proof -
    have "(- 4 - m) mod 4 = (- m) mod (4 :: int)" for m by presburger
    then show ?thesis by (simp add: Let_def)
  qed
  then have "repad (b64_core (a # b # c # cs)) = b64_char (of_char a div 4) # b64_char (of_char a mod 4 * 16 + of_char b div 16) #
      b64_char (of_char b mod 16 * 4 + of_char c div 64) # b64_char (of_char c mod 64) # repad (b64_core cs)"
    unfolding repad_def by (simp add: Let_def)
  then show ?case using 4 b64_scan_group(1) [OF small, of 0 0 "repad (b64_core cs)"] by simp
qed

lemma b64_core_chars: "\<forall>c \<in> set (b64_core bs). c \<noteq> CHR ''='' \<and> (of_char c :: nat) < 128"
proof (induction bs rule: b64_core.induct)
  case (2 a)
  have "(of_char a :: nat) < 256" by simp
  note b = sextet_bounds [OF this this]
  show ?case by (simp only: b64_core.simps Let_def list.set ball_simps b64_char b simp_thms)
next
  case (3 a b)
  have "(of_char a :: nat) < 256" "(of_char b :: nat) < 256" by simp_all
  note b = sextet_bounds [OF this] sextet_bounds [OF this(2,2)]
  show ?case by (simp only: b64_core.simps Let_def list.set ball_simps b64_char b simp_thms)
next
  case (4 a b c cs)
  have "(of_char a :: nat) < 256" "(of_char b :: nat) < 256" "(of_char c :: nat) < 256" by simp_all
  note b = sextet_bounds [OF this(1,2)] sextet_bounds [OF this(2,3)] sextet_bounds [OF this(3,3)]
  from 4 [OF refl refl refl] show ?case by (simp only: b64_core.simps Let_def set_append list.set ball_simps ball_Un b64_char b simp_thms)
qed simp

lemma dropWhile_none: "\<forall>x \<in> set xs. \<not> P x \<Longrightarrow> dropWhile P xs = xs"
  by (cases xs) simp_all

lemma dropWhile_pad: "\<forall>c \<in> set s. c \<noteq> CHR ''='' \<Longrightarrow> rstrip_pad (s @ replicate n (CHR ''='')) = s"
proof -
  assume s: "\<forall>c \<in> set s. c \<noteq> CHR ''=''"
  have "dropWhile (\<lambda>c. c = CHR ''='') (replicate n (CHR ''='') @ r) = dropWhile (\<lambda>c. c = CHR ''='') r" for r
    by (induction n) simp_all
  moreover have "dropWhile (\<lambda>c. c = CHR ''='') (rev s) = rev s" by (rule dropWhile_none) (use s in simp)
  ultimately show ?thesis by (simp add: rstrip_pad_def)
qed

lemma b64_encode_core: "\<exists>n. b64_encode bs = b64_core bs @ replicate n (CHR ''='')"
proof (induction bs rule: b64_core.induct)
  case 1
  then show ?case by simp
next
  case (2 a)
  have "b64_encode [a] = b64_core [a] @ replicate 2 (CHR ''='')" by (simp add: Let_def numeral_2_eq_2)
  then show ?case by blast
next
  case (3 a b)
  have "b64_encode [a, b] = b64_core [a, b] @ replicate 1 (CHR ''='')" by (simp add: Let_def)
  then show ?case by blast
next
  case (4 a b c cs)
  then obtain n where "b64_encode cs = b64_core cs @ replicate n (CHR ''='')" by blast
  then have "b64_encode (a # b # c # cs) = b64_core (a # b # c # cs) @ replicate n (CHR ''='')" by (simp add: Let_def)
  then show ?case by blast
qed

lemma b64_roundtrip: "b64_decode (repad (rstrip_pad (b64_encode bs))) = Some bs"
proof -
  obtain n where n: "b64_encode bs = b64_core bs @ replicate n (CHR ''='')" using b64_encode_core by blast
  have strip: "rstrip_pad (b64_encode bs) = b64_core bs" unfolding n using b64_core_chars by (intro dropWhile_pad) blast
  have "(of_char (CHR ''='') :: nat) < 128" by simp
  then have "list_all (\<lambda>c. (of_char c :: nat) < 128) (repad (b64_core bs))"
    using b64_core_chars [of bs] unfolding repad_def list_all_iff set_append by (metis Un_iff in_set_replicate)
  then show ?thesis unfolding strip b64_decode_def by (simp only: if_True b64_scan_core)
qed

section \<open>UUIDs\<close>

text \<open>A UUID is its integer value. \<^verbatim>\<open>str(uuid)\<close> prints it in lower case.\<close>

fun hex_digits :: "nat \<Rightarrow> nat \<Rightarrow> string" where
  "hex_digits 0 n = []"
| "hex_digits (Suc k) n = hex_digits k (n div 16) @ [hex_char (n mod 16)]"

definition uuid_str :: "nat \<Rightarrow> string" where
  "uuid_str n =
    (let h = hex_digits 32 n
     in take 8 h @ ''-'' @ take 4 (drop 8 h) @ ''-'' @ take 4 (drop 12 h) @ ''-'' @ take 4 (drop 16 h) @ ''-'' @ drop 20 h)"

text \<open>\<^verbatim>\<open>s.replace(p, "")\<close> for a nonempty \<open>p\<close>\<close>

function str_remove :: "string \<Rightarrow> string \<Rightarrow> string" where
  "str_remove p [] = []"
| "str_remove p (c # cs) =
    (if p \<noteq> [] \<and> startswith (c # cs) p then str_remove p (drop (length p - 1) cs) else c # str_remove p cs)"
  by pat_completeness auto
termination by (relation "measure (\<lambda>(p, s). length s)") auto

definition is_hex :: "char \<Rightarrow> bool" where
  "is_hex c \<longleftrightarrow> hex_val c \<noteq> None"

fun hex_underscores_ok :: "string \<Rightarrow> bool" where
  "hex_underscores_ok [] = False"
| "hex_underscores_ok [c] = is_hex c"
| "hex_underscores_ok (c # d # cs) =
     (is_hex c \<and> (if d = CHR ''_'' then hex_underscores_ok cs else hex_underscores_ok (d # cs)))"

definition hex_number :: "string \<Rightarrow> nat" where
  "hex_number s = foldl (\<lambda>n c. 16 * n + (case hex_val c of None \<Rightarrow> 0 | Some d \<Rightarrow> d)) 0 s"

text \<open>\<^verbatim>\<open>int(s, 16)\<close>: blanks around it, a sign, the prefix \<^verbatim>\<open>0x\<close> and single underscores are allowed.\<close>

definition hex_int_of_str :: "string \<Rightarrow> int option" where
  "hex_int_of_str s =
    (let t = py_strip s;
         neg = (t \<noteq> [] \<and> hd t = CHR ''-'');
         body = (if t \<noteq> [] \<and> (hd t = CHR ''-'' \<or> hd t = CHR ''+'') then tl t else t);
         digits = (if take 2 body = ''0x'' \<or> take 2 body = ''0X''
                   then (if startswith (drop 2 body) ''_'' then drop 3 body else drop 2 body) else body)
     in if hex_underscores_ok digits
        then (let n = int (hex_number (filter is_hex digits)) in Some (if neg then - n else n))
        else None)"

text \<open>\<^verbatim>\<open>UUID(s)\<close>; \<open>None\<close> is its \<^verbatim>\<open>ValueError\<close>.\<close>

definition uuid_parse :: "string \<Rightarrow> nat option" where
  "uuid_parse s =
    (let t = str_remove ''uuid:'' (str_remove ''urn:'' s);
         brace = (\<lambda>c. c = CHR ''{'' \<or> c = CHR ''}'');
         u = filter (\<lambda>c. c \<noteq> CHR ''-'') (rev (dropWhile brace (rev (dropWhile brace t))))
     in if length u \<noteq> 32 then None
        else case hex_int_of_str u of
               None \<Rightarrow> None
             | Some i \<Rightarrow> if 0 \<le> i \<and> i < 2 ^ 128 then Some (nat i) else None)"

lemma hex_char_code: "d < 16 \<Longrightarrow> (of_char (hex_char d) :: nat) = (if d < 10 then 48 + d else 87 + d)"
  by (simp add: hex_char_def)

lemma hex_digits_length [simp]: "length (hex_digits k n) = k"
  by (induction k arbitrary: n) simp_all

lemma hex_digits_chars: "c \<in> set (hex_digits k n) \<Longrightarrow> \<exists>d < 16. c = hex_char d"
  by (induction k arbitrary: n) (auto intro: exI [of _ "_ mod 16"])

lemma hex_number_digits: "n < 16 ^ k \<Longrightarrow> hex_number (hex_digits k n) = n"
proof (induction k arbitrary: n)
  case (Suc k)
  then have "n div 16 < 16 ^ k" by (simp add: less_mult_imp_div_less mult.commute)
  from Suc.IH [OF this] show ?case by (simp add: hex_number_def hex_val_hex_char)
qed (simp add: hex_number_def)

lemma hex_digit_facts:
  assumes "\<exists>d < 16. c = hex_char d"
  shows "is_hex c" "\<not> py_isspace c" "c \<notin> {CHR ''-'', CHR ''+'', CHR ''_'', CHR ''x'', CHR ''X'', CHR ''u'', CHR ''{'', CHR ''}''}"
proof -
  obtain d where d: "d < 16" "c = hex_char d" using assms by blast
  note code = hex_char_code [OF d(1), folded d(2)]
  show "is_hex c" using d hex_val_hex_char by (simp add: is_hex_def)
  show "\<not> py_isspace c" using d(1) unfolding py_isspace_def Let_def code by auto
  have "(of_char c :: nat) \<notin> {45, 43, 95, 120, 88, 117, 123, 125}" using d(1) unfolding code by auto
  then show "c \<notin> {CHR ''-'', CHR ''+'', CHR ''_'', CHR ''x'', CHR ''X'', CHR ''u'', CHR ''{'', CHR ''}''}" by auto
qed

lemma hex_underscores_digits: "s \<noteq> [] \<Longrightarrow> \<forall>c \<in> set s. is_hex c \<and> c \<noteq> CHR ''_'' \<Longrightarrow> hex_underscores_ok s"
  by (induction s rule: hex_underscores_ok.induct) auto

lemma str_remove_none: "CHR ''u'' \<notin> set s \<Longrightarrow> str_remove (CHR ''u'' # p) s = s"
  by (induction "CHR ''u'' # p" s rule: str_remove.induct) (auto simp: startswith_def)

lemma py_strip_none: "\<forall>c \<in> set s. \<not> py_isspace c \<Longrightarrow> py_strip s = s"
proof -
  assume s: "\<forall>c \<in> set s. \<not> py_isspace c"
  then have "dropWhile py_isspace s = s" "dropWhile py_isspace (rev s) = rev s" by (simp_all add: dropWhile_none)
  then show ?thesis by (simp add: py_strip_def py_lstrip_def)
qed

lemma hex_int_digits:
  assumes "0 < k" "n < 16 ^ k"
  shows "hex_int_of_str (hex_digits k n) = Some (int n)"
proof -
  let ?h = "hex_digits k n"
  have chars: "\<forall>c \<in> set ?h. is_hex c \<and> \<not> py_isspace c \<and> c \<notin> {CHR ''-'', CHR ''+'', CHR ''_'', CHR ''x'', CHR ''X'', CHR ''u'', CHR ''{'', CHR ''}''}"
    using hex_digits_chars hex_digit_facts by metis
  have ne: "?h \<noteq> []" using assms(1) by (metis hex_digits_length less_numeral_extra(3) list.size(3))
  have strip: "py_strip ?h = ?h" using chars by (intro py_strip_none) blast
  have sign: "hd ?h \<noteq> CHR ''-''" "hd ?h \<noteq> CHR ''+''" using chars ne by (metis insertCI list.set_sel(1))+
  have prefix: "take 2 ?h \<noteq> ''0x''" "take 2 ?h \<noteq> ''0X''"
    using chars by (metis in_set_takeD insertCI list.set_intros)+
  have ok: "hex_underscores_ok ?h" using chars ne by (intro hex_underscores_digits) auto
  have "filter is_hex ?h = ?h" using chars by (simp add: filter_id_conv)
  then show ?thesis using strip sign prefix ok hex_number_digits [OF assms(2)] by (simp add: hex_int_of_str_def Let_def)
qed

lemma uuid_roundtrip:
  assumes "n < 2 ^ 128"
  shows "uuid_parse (uuid_str n) = Some n"
proof -
  let ?h = "hex_digits 32 n"
  have chars: "\<forall>c \<in> set ?h. c \<notin> {CHR ''-'', CHR ''u'', CHR ''{'', CHR ''}''}"
  proof
    fix c assume "c \<in> set ?h"
    from hex_digit_facts(3) [OF hex_digits_chars [OF this]] show "c \<notin> {CHR ''-'', CHR ''u'', CHR ''{'', CHR ''}''}"
      by (simp only: insert_iff empty_iff de_Morgan_disj simp_thms)
  qed
  have sub: "set (uuid_str n) \<subseteq> insert (CHR ''-'') (set ?h)"
    by (auto simp: uuid_str_def Let_def dest: in_set_takeD in_set_dropD)
  then have "CHR ''u'' \<notin> set (uuid_str n)" using chars by auto
  then have t: "str_remove ''uuid:'' (str_remove ''urn:'' (uuid_str n)) = uuid_str n" by (simp add: str_remove_none)
  have "\<forall>c \<in> set (uuid_str n). \<not> (c = CHR ''{'' \<or> c = CHR ''}'')" using sub chars by auto
  then have braces: "dropWhile (\<lambda>c. c = CHR ''{'' \<or> c = CHR ''}'') (uuid_str n) = uuid_str n"
      "dropWhile (\<lambda>c. c = CHR ''{'' \<or> c = CHR ''}'') (rev (uuid_str n)) = rev (uuid_str n)"
    by (simp_all only: dropWhile_none set_rev)
  have keep: "filter (\<lambda>c. c \<noteq> CHR ''-'') xs = xs" if "set xs \<subseteq> set ?h" for xs
    using that chars by (auto simp: filter_id_conv)
  have slice: "set (take i (drop j ?h)) \<subseteq> set ?h" "set (drop j ?h) \<subseteq> set ?h" "set (take i ?h) \<subseteq> set ?h" for i j
    using set_take_subset set_drop_subset by (metis order_trans)+
  have "drop 20 ?h = drop 4 (drop 16 ?h)" "drop 16 ?h = drop 4 (drop 12 ?h)" "drop 12 ?h = drop 4 (drop 8 ?h)" by simp_all
  then have whole: "take 8 ?h @ take 4 (drop 8 ?h) @ take 4 (drop 12 ?h) @ take 4 (drop 16 ?h) @ drop 20 ?h = ?h"
    by (metis append_take_drop_id)
  have "filter (\<lambda>c. c \<noteq> CHR ''-'') (uuid_str n) = take 8 ?h @ take 4 (drop 8 ?h) @ take 4 (drop 12 ?h) @ take 4 (drop 16 ?h) @ drop 20 ?h"
    unfolding uuid_str_def Let_def filter_append keep [OF slice(1)] keep [OF slice(2)] keep [OF slice(3)] by simp
  then have u: "filter (\<lambda>c. c \<noteq> CHR ''-'') (uuid_str n) = ?h" unfolding whole .
  have "(2 :: nat) ^ 128 = 16 ^ 32" by simp
  then have "hex_int_of_str ?h = Some (int n)" using assms by (intro hex_int_digits) simp_all
  moreover have "int n < 2 ^ 128" using assms by (metis of_nat_less_iff of_nat_numeral of_nat_power)
  ultimately show ?thesis by (simp add: uuid_parse_def t braces u)
qed

end
