(* ===== verification/Search_Paging.thy ===== *)
theory Search_Paging
  imports Text_Codecs Search_Language
begin

unbundle bit_operations_syntax

text \<open>
  Pages of works: \<^verbatim>\<open>backend/app/services/search_pagination.py\<close> and the functions of
  \<^verbatim>\<open>search.py\<close> that read one page of works in sorted or in random order, from PostgreSQL or from
  Meilisearch.

  The rows a query matches are a list; \<^verbatim>\<open>ORDER BY\<close>, \<^verbatim>\<open>WHERE\<close>, \<^verbatim>\<open>OFFSET\<close> and \<^verbatim>\<open>LIMIT\<close> are functions
  on it. A condition of a \<^verbatim>\<open>WHERE\<close> has the three values of SQL, \<open>None\<close> for \<^verbatim>\<open>NULL\<close>. A UUID is its
  integer value, which orders as PostgreSQL orders UUIDs. SHA-256 is the argument \<open>H\<close> on bytes,
  BLAKE2b with its digest size and personalisation is the argument \<open>blake\<close>. A Meilisearch filter is
  represented by its expression, whose text is \<open>filter_text\<close>. A cursor whose JSON has a float is
  outside the model and reads as malformed.
\<close>

section \<open>Rows in order\<close>

fun insert_row :: "('w \<Rightarrow> 'w \<Rightarrow> bool) \<Rightarrow> 'w \<Rightarrow> 'w list \<Rightarrow> 'w list" where
  "insert_row before x [] = [x]"
| "insert_row before x (y # ys) = (if before y x then y # insert_row before x ys else x # y # ys)"

definition order_by :: "('w \<Rightarrow> 'w \<Rightarrow> bool) \<Rightarrow> 'w list \<Rightarrow> 'w list" where
  "order_by before rows = foldr (insert_row before) rows []"

definition limit_rows :: "nat \<Rightarrow> int \<Rightarrow> 'w list \<Rightarrow> 'w list" where
  "limit_rows off count rows = take (nat count) (drop off rows)"

section \<open>Sorted pages\<close>

text \<open>\<^verbatim>\<open>value.rsplit("-", 1)[0]\<close>\<close>

definition rsplit_dash :: "string \<Rightarrow> string" where
  "rsplit_dash s =
    (if CHR ''-'' \<in> set s then rev (tl (dropWhile (\<lambda>c. c \<noteq> CHR ''-'') (rev s))) else s)"

definition SORT_ATTRIBUTES :: "(string, string) dict" where
  "SORT_ATTRIBUTES =
    [(''created'', ''created_at''), (''updated'', ''updated_at''), (''posted'', ''posted_at''), (''heat'', ''heat_score''),
     (''title'', ''title''), (''name'', ''name''), (''last-sync'', ''last_synced_at'')]"

text \<open>The attribute and the direction; \<open>selected\<close> are the values of \<^verbatim>\<open>sort\<close> in the query.\<close>

definition sql_sort_spec :: "string list \<Rightarrow> string \<times> bool" where
  "sql_sort_spec selected =
    (let v = (case selected of [] \<Rightarrow> ''created-desc'' | s # _ \<Rightarrow> s)
     in (dict_get SORT_ATTRIBUTES (rsplit_dash v) ''created_at'', endswith v ''-asc''))"

text \<open>\<^verbatim>\<open>getattr(model, attribute, model.created_at)\<close> for a model with the columns \<open>columns\<close>.\<close>

definition sort_column :: "string list \<Rightarrow> string \<Rightarrow> string" where
  "sort_column columns attribute = (if attribute \<in> set columns then attribute else ''created_at'')"

text \<open>
  \<^verbatim>\<open>_apply_sql_sort\<close>: \<open>col\<close> is the value of the column, \<^verbatim>\<open>NULL\<close> last, and first in a reversed page.
  \<^verbatim>\<open>ORDER BY\<close> puts \<open>x\<close> before \<open>y\<close>.
\<close>

definition row_before :: "bool \<Rightarrow> ('w \<Rightarrow> ('v :: linorder) option) \<Rightarrow> ('w \<Rightarrow> nat) \<Rightarrow> 'w \<Rightarrow> 'w \<Rightarrow> bool" where
  "row_before asc col ident x y =
    (let by_id = (if asc then ident x < ident y else ident y < ident x)
     in case (col x, col y) of
          (None, None) \<Rightarrow> by_id
        | (None, Some _) \<Rightarrow> False
        | (Some _, None) \<Rightarrow> True
        | (Some a, Some b) \<Rightarrow> if a = b then by_id else if asc then a < b else b < a)"

definition apply_sql_sort :: "bool \<Rightarrow> ('w \<Rightarrow> ('v :: linorder) option) \<Rightarrow> ('w \<Rightarrow> nat) \<Rightarrow> bool \<Rightarrow> 'w list \<Rightarrow> 'w list" where
  "apply_sql_sort asc col ident reverse rows =
    order_by (if reverse then (\<lambda>x y. row_before asc col ident y x) else row_before asc col ident) rows"

text \<open>Conditions with \<^verbatim>\<open>NULL\<close>.\<close>

definition sql_or :: "bool option \<Rightarrow> bool option \<Rightarrow> bool option" where
  "sql_or p q = (if p = Some True \<or> q = Some True then Some True else if p = None \<or> q = None then None else Some False)"

definition sql_and :: "bool option \<Rightarrow> bool option \<Rightarrow> bool option" where
  "sql_and p q = (if p = Some False \<or> q = Some False then Some False else if p = None \<or> q = None then None else Some True)"

definition where_rows :: "('w \<Rightarrow> bool option) \<Rightarrow> 'w list \<Rightarrow> 'w list" where
  "where_rows cond rows = filter (\<lambda>w. cond w = Some True) rows"

definition work_seek_expression ::
  "bool \<Rightarrow> ('w \<Rightarrow> ('v :: linorder) option) \<Rightarrow> ('w \<Rightarrow> nat) \<Rightarrow> string \<Rightarrow> 'v option \<Rightarrow> nat \<Rightarrow> 'w \<Rightarrow> bool option" where
  "work_seek_expression ascending col ident seek value0 identity w =
    (let after = (seek = ''after'');
         forward_identity = Some (if ascending then identity < ident w else ident w < identity);
         backward_identity = Some (if ascending then ident w < identity else identity < ident w);
         identity_expression = (if after then forward_identity else backward_identity)
     in case value0 of
          None \<Rightarrow>
            let same_null = sql_and (Some (col w = None)) identity_expression
            in if after then same_null else sql_or (Some (col w \<noteq> None)) same_null
        | Some v \<Rightarrow>
            let value_expression =
                  map_option (\<lambda>c. if ascending then (if after then v < c else c < v) else (if after then c < v else v < c)) (col w);
                same_value = sql_and (map_option (\<lambda>c. c = v) (col w)) identity_expression
            in if after then sql_or (sql_or value_expression (Some (col w = None))) same_value
               else sql_or value_expression same_value)"

text \<open>The page of \<^verbatim>\<open>_search_works_db\<close>: without a cursor at an offset, with a decoded cursor from its
  boundary.\<close>

definition sorted_work_page ::
  "bool \<Rightarrow> ('w \<Rightarrow> ('v :: linorder) option) \<Rightarrow> ('w \<Rightarrow> nat) \<Rightarrow> nat \<Rightarrow> int \<Rightarrow> (string \<times> 'v option \<times> nat) option \<Rightarrow> 'w list \<Rightarrow> 'w list" where
  "sorted_work_page ascending col ident offset limit cursor rows =
    (case cursor of
       None \<Rightarrow> limit_rows offset limit (apply_sql_sort ascending col ident False rows)
     | Some (seek, boundary, boundary_id) \<Rightarrow>
         let page_base = where_rows (work_seek_expression ascending col ident seek boundary boundary_id) rows;
             reverse_page = (seek = ''before'');
             page = limit_rows 0 limit (apply_sql_sort ascending col ident reverse_page page_base)
         in if reverse_page then rev page else page)"

section \<open>The ring of random pages\<close>

definition SHUFFLE_RING_SIZE :: int where
  "SHUFFLE_RING_SIZE = push_bit 63 1"

definition MEILI_SHUFFLE_FIELDS :: "string list" where
  "MEILI_SHUFFLE_FIELDS =
    [''shuffle_high'', ''shuffle_low'', ''shuffle_id_0'', ''shuffle_id_1'', ''shuffle_id_2'', ''shuffle_id_3'']"

record work_row =
  wr_id :: nat
  wr_key :: int

text \<open>\<^verbatim>\<open>seed.to_bytes(4, "big")\<close> and \<^verbatim>\<open>int.from_bytes(digest, "big")\<close>\<close>

definition seed_bytes :: "int \<Rightarrow> string" where
  "seed_bytes seed = map (\<lambda>k. char_of (nat (seed div 256 ^ k mod 256))) [3, 2, 1, 0]"

definition from_bytes :: "string \<Rightarrow> int" where
  "from_bytes bs = foldl (\<lambda>n c. 256 * n + int (of_char c)) 0 bs"

text \<open>A cursor, seed or key that is refused raises \<^verbatim>\<open>ValueError\<close>; whatever fails while Meilisearch is
  asked becomes \<^verbatim>\<open>SearchBackendUnavailable\<close>.\<close>

datatype page_error = PageValueError | SearchBackendUnavailable

definition shuffle_ring_start :: "(string \<Rightarrow> string) \<Rightarrow> int \<Rightarrow> page_error + int" where
  "shuffle_ring_start blake seed =
    (if 0 \<le> seed \<and> seed \<le> 0xFFFFFFFF then Inr (from_bytes (blake (seed_bytes seed)) AND (SHUFFLE_RING_SIZE - 1)) else Inl PageValueError)"

definition meili_shuffle_key :: "int \<Rightarrow> page_error + string" where
  "meili_shuffle_key v =
    (if 0 \<le> v \<and> v < SHUFFLE_RING_SIZE
     then Inr (replicate (19 - length (show_int v)) (CHR ''0'') @ show_int v) else Inl PageValueError)"

definition meili_shuffle_parts :: "int \<Rightarrow> nat \<Rightarrow> page_error + (string, int) dict" where
  "meili_shuffle_parts key identity =
    (if 0 \<le> key \<and> key < SHUFFLE_RING_SIZE
     then Inr
       [(''shuffle_high'', drop_bit 31 key),
        (''shuffle_low'', key AND (push_bit 31 1 - 1)),
        (''shuffle_id_0'', drop_bit 96 (int identity) AND 0xFFFFFFFF),
        (''shuffle_id_1'', drop_bit 64 (int identity) AND 0xFFFFFFFF),
        (''shuffle_id_2'', drop_bit 32 (int identity) AND 0xFFFFFFFF),
        (''shuffle_id_3'', int identity AND 0xFFFFFFFF)]
     else Inl PageValueError)"

subsection \<open>Filters of Meilisearch\<close>

text \<open>\<open>MBase\<close> is the filter of the query. \<open>MAll\<close> is the outermost conjunction of parts.\<close>

datatype meili_filter = MBase string | MCmp string string int | MAnd "meili_filter list" | MOr "meili_filter list"
  | MAll "meili_filter list"

fun filter_text :: "meili_filter \<Rightarrow> string" where
  "filter_text (MBase t) = t"
| "filter_text (MCmp fld op n) = fld @ '' '' @ op @ '' '' @ show_int n"
| "filter_text (MAnd fs) = ''('' @ join '' AND '' (map filter_text fs) @ '')''"
| "filter_text (MOr fs) = ''('' @ join '' OR '' (map filter_text fs) @ '')''"
| "filter_text (MAll fs) = join '' AND '' (map (\<lambda>f. ''('' @ filter_text f @ '')'') fs)"

text \<open>One clause per position: equal before it, compared at it; the strict \<^verbatim>\<open>zip\<close> raises on different lengths.\<close>

definition tuple_clause :: "string list \<Rightarrow> int list \<Rightarrow> string \<Rightarrow> bool \<Rightarrow> nat \<Rightarrow> meili_filter" where
  "tuple_clause flds vals operator inclusive_last index =
    (let prefix = map (\<lambda>i. MCmp (flds ! i) ''='' (vals ! i)) [0..<index];
         op = (if inclusive_last \<and> index = length flds - 1 then operator @ ''='' else operator);
         comparison = MCmp (flds ! index) op (vals ! index)
     in if prefix = [] then comparison else MAnd (prefix @ [comparison]))"

definition meili_tuple_comparison :: "string list \<Rightarrow> int list \<Rightarrow> string \<Rightarrow> bool \<Rightarrow> page_error + meili_filter" where
  "meili_tuple_comparison flds vals operator inclusive_last =
    (if length flds \<noteq> length vals then Inl PageValueError
     else Inr (MOr (map (tuple_clause flds vals operator inclusive_last) [0..<length flds])))"

record random_cursor =
  rc_seek :: string
  rc_key :: int
  rc_identity :: nat
  rc_phase :: int

definition part_values :: "string list \<Rightarrow> (string, int) dict \<Rightarrow> int list" where
  "part_values flds parts = map (\<lambda>f. the (map_of parts f)) flds"

definition meili_random_phase_filter ::
  "string option \<Rightarrow> int \<Rightarrow> int \<Rightarrow> random_cursor option \<Rightarrow> bool \<Rightarrow> page_error + meili_filter" where
  "meili_random_phase_filter base_filter start phase boundary reverse =
    (if phase \<notin> {0, 1} then Inl PageValueError
     else bindE (meili_shuffle_parts start 0) (\<lambda>start_parts.
       let key_fields = take 2 MEILI_SHUFFLE_FIELDS
       in bindE (meili_tuple_comparison key_fields (part_values key_fields start_parts) (if phase = 0 then ''>'' else ''<'') (phase = 0))
         (\<lambda>phase_part.
            bindE (case boundary of
                     None \<Rightarrow> Inr [phase_part]
                   | Some b \<Rightarrow>
                       bindE (meili_shuffle_parts (rc_key b) (rc_identity b)) (\<lambda>boundary_parts.
                       bindE (meili_tuple_comparison MEILI_SHUFFLE_FIELDS (part_values MEILI_SHUFFLE_FIELDS boundary_parts)
                                (if reverse then ''<'' else ''>'') False) (\<lambda>boundary_part.
                         Inr [phase_part, boundary_part])))
              (\<lambda>parts. Inr (MAll (case base_filter of Some (c # cs) \<Rightarrow> MBase (c # cs) # parts | _ \<Rightarrow> parts))))))"

subsection \<open>Cursors\<close>

definition query_digest :: "(string \<Rightarrow> string) \<Rightarrow> search_query \<Rightarrow> string" where
  "query_digest H q = take 16 (H (utf8_encode (sq_canonical q)))"

definition random_cursor_payload :: "(string \<Rightarrow> string) \<Rightarrow> search_query \<Rightarrow> work_row \<Rightarrow> string \<Rightarrow> bool \<Rightarrow> int \<Rightarrow> int \<Rightarrow> (string \<times> json) list" where
  "random_cursor_payload H q work seek force_sfw seed phase =
    [(''v'', JInt 2), (''q'', JStr (query_digest H q)), (''sfw'', JBool force_sfw), (''sort'', JStr ''random''),
      (''seed'', JInt seed), (''phase'', JInt phase), (''seek'', JStr seek), (''key'', JInt (wr_key work)),
      (''id'', JStr (uuid_str (wr_id work)))]"

definition encode_random_work_cursor ::
  "(string \<Rightarrow> string) \<Rightarrow> search_query \<Rightarrow> work_row \<Rightarrow> string \<Rightarrow> bool \<Rightarrow> int \<Rightarrow> int \<Rightarrow> page_error + string" where
  "encode_random_work_cursor H q work seek force_sfw seed phase =
    (if seek \<notin> {''after'', ''before''} \<or> phase \<notin> {0, 1} then Inl PageValueError
     else Inr (rstrip_pad (b64_encode (utf8_encode (json_dumps_ascii (JObj (random_cursor_payload H q work seek force_sfw seed phase)))))))"

text \<open>The fields of a payload that was accepted; every exception inside becomes the \<^verbatim>\<open>ValueError\<close>.\<close>

definition read_random_payload :: "(string \<Rightarrow> string) \<Rightarrow> search_query \<Rightarrow> bool \<Rightarrow> int \<Rightarrow> json \<Rightarrow> page_error + random_cursor" where
  "read_random_payload H q force_sfw seed payload =
    (case payload of
       JObj d \<Rightarrow>
         if \<not> py_eq (dict_get_json d ''v'') (JInt 2) \<or> \<not> py_eq (dict_get_json d ''q'') (JStr (query_digest H q))
            \<or> jtruthy (dict_get_json d ''sfw'') \<noteq> force_sfw \<or> \<not> py_eq (dict_get_json d ''sort'') (JStr ''random'')
            \<or> \<not> py_eq (dict_get_json d ''seed'') (JInt seed)
            \<or> \<not> (py_eq (dict_get_json d ''phase'') (JInt 0) \<or> py_eq (dict_get_json d ''phase'') (JInt 1))
            \<or> dict_get_json d ''seek'' \<notin> {JStr ''after'', JStr ''before''}
         then Inl PageValueError
         else (case (map_of d ''key'', map_of d ''id'') of
                 (Some k, Some i) \<Rightarrow>
                   (case (py_int k, uuid_parse (py_str i), py_int (dict_get_json d ''phase'')) of
                      (Inr key, Some identity, Inr phase) \<Rightarrow>
                        if 0 \<le> key \<and> key < SHUFFLE_RING_SIZE
                        then Inr \<lparr>rc_seek = py_str (dict_get_json d ''seek''), rc_key = key, rc_identity = identity, rc_phase = phase\<rparr>
                        else Inl PageValueError
                    | _ \<Rightarrow> Inl PageValueError)
               | _ \<Rightarrow> Inl PageValueError)
     | _ \<Rightarrow> Inl PageValueError)"

definition decode_random_work_cursor ::
  "(string \<Rightarrow> string) \<Rightarrow> string \<Rightarrow> search_query \<Rightarrow> bool \<Rightarrow> int \<Rightarrow> page_error + random_cursor" where
  "decode_random_work_cursor H cursor q force_sfw seed =
    (case b64_decode (repad cursor) of
       None \<Rightarrow> Inl PageValueError
     | Some raw \<Rightarrow>
         (case json_loads_bytes raw of
            None \<Rightarrow> Inl PageValueError
          | Some payload \<Rightarrow> read_random_payload H q force_sfw seed payload))"

subsection \<open>Pages from PostgreSQL\<close>

definition ring_before :: "work_row \<Rightarrow> work_row \<Rightarrow> bool" where
  "ring_before x y \<longleftrightarrow> wr_key x < wr_key y \<or> wr_key x = wr_key y \<and> wr_id x < wr_id y"

definition phase_condition :: "int \<Rightarrow> int \<Rightarrow> work_row \<Rightarrow> bool" where
  "phase_condition start phase w \<longleftrightarrow> (if phase = 0 then start \<le> wr_key w else wr_key w < start)"

definition past_boundary :: "bool \<Rightarrow> random_cursor option \<Rightarrow> work_row \<Rightarrow> bool" where
  "past_boundary reverse boundary w \<longleftrightarrow>
    (case boundary of
       None \<Rightarrow> True
     | Some b \<Rightarrow>
         if reverse then wr_key w < rc_key b \<or> wr_key w = rc_key b \<and> wr_id w < rc_identity b
         else rc_key b < wr_key w \<or> wr_key w = rc_key b \<and> rc_identity b < wr_id w)"

definition fetch_phase ::
  "work_row list \<Rightarrow> int \<Rightarrow> int \<Rightarrow> int \<Rightarrow> bool \<Rightarrow> nat \<Rightarrow> random_cursor option \<Rightarrow> work_row list" where
  "fetch_phase rows start phase count reverse phase_offset boundary =
    (if count \<le> 0 then []
     else limit_rows phase_offset count
       (order_by (if reverse then (\<lambda>x y. ring_before y x) else ring_before)
          (filter (\<lambda>w. phase_condition start phase w \<and> past_boundary reverse boundary w) rows)))"

definition adjacent_phase :: "bool \<Rightarrow> int \<Rightarrow> int option" where
  "adjacent_phase reverse phase =
    (if reverse \<and> phase = 1 then Some 0 else if \<not> reverse \<and> phase = 0 then Some 1 else None)"

text \<open>The page at a cursor; both readers run it over their function that fetches rows of a phase.\<close>

definition cursor_page ::
  "(int \<Rightarrow> int \<Rightarrow> bool \<Rightarrow> random_cursor option \<Rightarrow> page_error + 'w list) \<Rightarrow> int \<Rightarrow> random_cursor \<Rightarrow> page_error + 'w list" where
  "cursor_page fetch limit boundary =
    (let reverse = (rc_seek boundary = ''before'')
     in bindE (fetch (rc_phase boundary) limit reverse (Some boundary)) (\<lambda>rows.
        bindE (if int (length rows) < limit
               then (case adjacent_phase reverse (rc_phase boundary) of
                       None \<Rightarrow> Inr []
                     | Some phase \<Rightarrow> fetch phase (limit - int (length rows)) reverse None)
               else Inr []) (\<lambda>more.
          Inr (if reverse then rev (rows @ more) else rows @ more))))"

text \<open>A cursor whose phase does not fit the start of the ring is refused.\<close>

definition checked_boundary :: "int \<Rightarrow> random_cursor \<Rightarrow> page_error + random_cursor" where
  "checked_boundary start boundary =
    (if rc_phase boundary \<noteq> (if start \<le> rc_key boundary then 0 else 1) then Inl PageValueError else Inr boundary)"

definition fetch_random_work_page ::
  "(string \<Rightarrow> string) \<Rightarrow> (string \<Rightarrow> string) \<Rightarrow> work_row list \<Rightarrow> search_query \<Rightarrow> nat \<Rightarrow> int \<Rightarrow> bool \<Rightarrow> string option \<Rightarrow> int
   \<Rightarrow> page_error + work_row list" where
  "fetch_random_work_page H blake rows q offset limit force_sfw cursor seed =
    bindE (shuffle_ring_start blake seed) (\<lambda>start.
      case cursor of
        Some (c # cs) \<Rightarrow>
          bindE (decode_random_work_cursor H (c # cs) q force_sfw seed) (\<lambda>decoded.
          bindE (checked_boundary start decoded)
            (cursor_page (\<lambda>phase count reverse boundary. Inr (fetch_phase rows start phase count reverse 0 boundary)) limit))
      | _ \<Rightarrow>
          let phase_zero_count = length (filter (phase_condition start 0) rows);
              (phase, phase_offset) =
                (if offset \<noteq> 0 \<and> phase_zero_count \<le> offset then (1, offset - phase_zero_count) else (0, offset));
              page = fetch_phase rows start phase limit False phase_offset None
          in Inr (if phase = 0 \<and> int (length page) < limit
                  then page @ fetch_phase rows start 1 (limit - int (length page)) False 0 None else page))"

text \<open>The cursors of a page, as the work list returns them; \<open>row_of\<close> reads the row of an item.\<close>

definition page_cursor ::
  "(string \<Rightarrow> string) \<Rightarrow> search_query \<Rightarrow> int \<Rightarrow> bool \<Rightarrow> int \<Rightarrow> string \<Rightarrow> work_row \<Rightarrow> page_error + string" where
  "page_cursor H q start force_sfw seed seek w =
    encode_random_work_cursor H q w seek force_sfw seed (if start \<le> wr_key w then 0 else 1)"

record 'w work_page =
  pg_items :: "'w list"
  pg_next :: "string option"
  pg_previous :: "string option"

definition page_cursors ::
  "(string \<Rightarrow> string) \<Rightarrow> search_query \<Rightarrow> int \<Rightarrow> bool \<Rightarrow> int \<Rightarrow> bool \<Rightarrow> ('w \<Rightarrow> page_error + work_row) \<Rightarrow> 'w list \<Rightarrow> page_error + 'w work_page" where
  "page_cursors H q start force_sfw seed has_previous row_of items =
    (if items = [] then Inr \<lparr>pg_items = [], pg_next = None, pg_previous = None\<rparr>
     else bindE (row_of (last items)) (\<lambda>final.
       bindE (page_cursor H q start force_sfw seed ''after'' final) (\<lambda>next_cursor.
       if has_previous
       then bindE (row_of (hd items)) (\<lambda>first.
         bindE (page_cursor H q start force_sfw seed ''before'' first) (\<lambda>previous.
         Inr \<lparr>pg_items = items, pg_next = Some next_cursor, pg_previous = Some previous\<rparr>))
       else Inr \<lparr>pg_items = items, pg_next = Some next_cursor, pg_previous = None\<rparr>)))"

definition truthy_text :: "string option \<Rightarrow> bool" where
  "truthy_text v \<longleftrightarrow> v \<noteq> None \<and> v \<noteq> Some []"

definition random_work_page ::
  "(string \<Rightarrow> string) \<Rightarrow> (string \<Rightarrow> string) \<Rightarrow> work_row list \<Rightarrow> search_query \<Rightarrow> nat \<Rightarrow> int \<Rightarrow> bool \<Rightarrow> string option \<Rightarrow> int
   \<Rightarrow> page_error + work_row work_page" where
  "random_work_page H blake rows q offset limit force_sfw cursor seed =
    bindE (fetch_random_work_page H blake rows q offset limit force_sfw cursor seed) (\<lambda>page.
      bindE (shuffle_ring_start blake seed) (\<lambda>start.
        page_cursors H q start force_sfw seed (truthy_text cursor \<or> 0 < offset) Inr page))"

subsection \<open>Pages from Meilisearch\<close>

text \<open>
  A document of the works index, as far as paging reads it. \<open>search f reverse off n\<close> stands for
  \<^verbatim>\<open>index.search\<close> with the filter \<open>f\<close>, all shuffle fields as sort keys in one direction, an offset and
  a limit; it returns the hits and the estimated total.
\<close>

record work_doc =
  wd_id :: string
  wd_shuffle_key :: string
  wd_parts :: "(string, int) dict"

definition work_document :: "work_row \<Rightarrow> page_error + work_doc" where
  "work_document w =
    bindE (meili_shuffle_key (wr_key w)) (\<lambda>key.
    bindE (meili_shuffle_parts (wr_key w) (wr_id w)) (\<lambda>parts.
      Inr \<lparr>wd_id = uuid_str (wr_id w), wd_shuffle_key = key, wd_parts = parts\<rparr>))"

definition cursor_work :: "work_doc \<Rightarrow> page_error + work_row" where
  "cursor_work hit =
    (case (uuid_parse (wd_id hit), int_of_str (wd_shuffle_key hit)) of
       (Some i, Some k) \<Rightarrow> Inr \<lparr>wr_id = i, wr_key = k\<rparr>
     | _ \<Rightarrow> Inl PageValueError)"

definition meili_fetch ::
  "(meili_filter \<Rightarrow> bool \<Rightarrow> nat \<Rightarrow> int \<Rightarrow> work_doc list \<times> nat) \<Rightarrow> string option \<Rightarrow> int
   \<Rightarrow> int \<Rightarrow> int \<Rightarrow> bool \<Rightarrow> nat \<Rightarrow> random_cursor option \<Rightarrow> page_error + work_doc list \<times> nat" where
  "meili_fetch search base_filter start phase count reverse phase_offset boundary =
    (if count \<le> 0 then Inr ([], 0)
     else bindE (meili_random_phase_filter base_filter start phase boundary reverse) (\<lambda>f.
       Inr (search f reverse phase_offset count)))"

definition meili_random_hits ::
  "(meili_filter \<Rightarrow> bool \<Rightarrow> nat \<Rightarrow> int \<Rightarrow> work_doc list \<times> nat) \<Rightarrow> string option \<Rightarrow> int \<Rightarrow> nat \<Rightarrow> int
   \<Rightarrow> random_cursor option \<Rightarrow> page_error + work_doc list" where
  "meili_random_hits search base_filter start offset limit boundary =
    (let hits_of = (\<lambda>phase count reverse phase_offset b.
           bindE (meili_fetch search base_filter start phase count reverse phase_offset b) (\<lambda>r. Inr (fst r)))
     in case boundary of
          Some b \<Rightarrow> cursor_page (\<lambda>phase count reverse b. hits_of phase count reverse 0 b) limit b
        | None \<Rightarrow>
            bindE (meili_fetch search base_filter start 0 limit False offset None) (\<lambda>(phase_zero_hits, phase_zero_total).
              if phase_zero_total \<le> offset then hits_of 1 limit False (offset - phase_zero_total) None
              else if int (length phase_zero_hits) < limit
              then bindE (hits_of 1 (limit - int (length phase_zero_hits)) False 0 None) (\<lambda>adjacent.
                Inr (phase_zero_hits @ adjacent))
              else Inr phase_zero_hits))"

definition unavailable :: "page_error + 'a \<Rightarrow> page_error + 'a" where
  "unavailable r = (case r of Inl _ \<Rightarrow> Inl SearchBackendUnavailable | Inr v \<Rightarrow> Inr v)"

text \<open>
  \<^verbatim>\<open>_search_meili_random_works\<close>, up to the total of all hits, the decoration of the hits, the deadline, the
  semaphore and the circuit breaker: a request that the breaker or the deadline ends has no answer here.
\<close>

definition search_meili_random_works ::
  "(string \<Rightarrow> string) \<Rightarrow> (string \<Rightarrow> string) \<Rightarrow> (meili_filter \<Rightarrow> bool \<Rightarrow> nat \<Rightarrow> int \<Rightarrow> work_doc list \<times> nat) \<Rightarrow> string option
   \<Rightarrow> search_query \<Rightarrow> nat \<Rightarrow> int \<Rightarrow> bool \<Rightarrow> string option \<Rightarrow> int \<Rightarrow> page_error + work_doc work_page" where
  "search_meili_random_works H blake search base_filter q offset limit force_sfw cursor seed =
    bindE (shuffle_ring_start blake seed) (\<lambda>start.
    bindE (if truthy_text cursor
           then bindE (decode_random_work_cursor H (the cursor) q force_sfw seed) (\<lambda>b.
             bindE (checked_boundary start b) (\<lambda>b. Inr (Some b)))
           else Inr None) (\<lambda>boundary.
      unavailable (bindE (meili_random_hits search base_filter start offset limit boundary) (\<lambda>hits.
        page_cursors H q start force_sfw seed (truthy_text cursor \<or> 0 < offset) cursor_work hits))))"

end
