(* ===== verification/Paging_Properties.thy ===== *)
theory Paging_Properties
  imports Search_Paging
begin

text \<open>
  Properties of the pages of works: a cursor addresses the row it was made from, following cursors
  shows every row once, and the two backends of the random order return the same pages.
\<close>

section \<open>Reading on from a row\<close>

lemma set_insert_row [simp]: "set (insert_row before x xs) = insert x (set xs)"
  by (induction xs) auto

lemma set_order_by [simp]: "set (order_by before xs) = set xs"
  by (induction xs) (simp_all add: order_by_def)

lemma order_by_simps [simp]:
  "order_by before [] = []" "order_by before (x # xs) = insert_row before x (order_by before xs)"
  by (simp_all add: order_by_def)

text \<open>What \<^verbatim>\<open>ORDER BY\<close> must satisfy for a page to be addressed by one row: a strict order that
  compares any two rows with different identities.\<close>

locale seek_order =
  fixes before :: "'w \<Rightarrow> 'w \<Rightarrow> bool" and ident :: "'w \<Rightarrow> nat"
  assumes irrefl: "\<not> before x x"
    and trans: "before x y \<Longrightarrow> before y z \<Longrightarrow> before x z"
    and total: "ident x \<noteq> ident y \<Longrightarrow> before x y \<or> before y x"
begin

lemma sorted_insert_row:
  assumes "sorted_wrt before xs" "\<forall>y \<in> set xs. ident y \<noteq> ident x"
  shows "sorted_wrt before (insert_row before x xs)"
  using assms
proof (induction xs)
  case (Cons y ys)
  have "before x y" if "\<not> before y x" using total [of x y] that Cons.prems(2) by auto
  then show ?case using Cons by (auto intro: trans)
qed simp

lemma sorted_order_by: "distinct (map ident xs) \<Longrightarrow> sorted_wrt before (order_by before xs)"
proof (induction xs)
  case (Cons x xs)
  have "ident y \<noteq> ident x" if "y \<in> set xs" for y using Cons.prems that by (metis distinct.simps(2) image_eqI list.simps(9) list.set_map)
  with sorted_insert_row [of "order_by before xs" x] Cons show ?case by simp
qed simp

lemma sorted_unique: "sorted_wrt before xs \<Longrightarrow> sorted_wrt before ys \<Longrightarrow> set xs = set ys \<Longrightarrow> xs = ys"
proof (induction xs arbitrary: ys)
  case (Cons x xs)
  then obtain y ys' where ys: "ys = y # ys'" by (cases ys) auto
  have asym: "\<not> (before a b \<and> before b a)" for a b using irrefl trans by blast
  have "x = y"
  proof (rule ccontr)
    assume "x \<noteq> y"
    then have "x \<in> set ys'" "y \<in> set xs" using Cons.prems(3) ys by auto
    then show False using Cons.prems(1,2) ys asym [of x y] by simp
  qed
  moreover have "x \<notin> set xs" "y \<notin> set ys'" using Cons.prems(1,2) ys irrefl by auto
  ultimately have "set xs = set ys'" using Cons.prems(3) ys by auto
  with Cons.IH Cons.prems(1,2) ys \<open>x = y\<close> show ?case by simp
qed simp

lemma order_filter:
  assumes "distinct (map ident xs)"
  shows "order_by before (filter P xs) = filter P (order_by before xs)"
proof (rule sorted_unique)
  show "sorted_wrt before (order_by before (filter P xs))" by (rule sorted_order_by) (simp add: assms distinct_map_filter)
  show "sorted_wrt before (filter P (order_by before xs))" by (rule sorted_wrt_filter [OF sorted_order_by [OF assms]])
qed simp

lemma converse_order: "seek_order (\<lambda>x y. before y x) ident"
  by unfold_locales (use irrefl trans total in blast)+

lemma order_converse:
  assumes "distinct (map ident xs)"
  shows "order_by (\<lambda>x y. before y x) xs = rev (order_by before xs)"
proof (rule seek_order.sorted_unique [OF converse_order])
  show "sorted_wrt (\<lambda>x y. before y x) (order_by (\<lambda>x y. before y x) xs)"
    by (rule seek_order.sorted_order_by [OF converse_order assms])
  show "sorted_wrt (\<lambda>x y. before y x) (rev (order_by before xs))"
    using sorted_order_by [OF assms] by (simp add: sorted_wrt_rev)
qed simp

text \<open>The rows after \<open>x\<close> and the rows before it.\<close>

lemma rows_after:
  assumes "distinct (map ident rows)" "order_by before rows = us @ x # vs"
  shows "order_by before (filter (before x) rows) = vs"
    and "order_by (\<lambda>x y. before y x) (filter (\<lambda>y. before y x) rows) = rev us"
proof -
  have sorted: "sorted_wrt before (us @ x # vs)" using sorted_order_by [OF assms(1)] assms(2) by simp
  then have u: "before u x" if "u \<in> set us" for u using that by (simp add: sorted_wrt_append)
  from sorted have v: "before x v" if "v \<in> set vs" for v using that by (simp add: sorted_wrt_append)
  have asym: "\<not> (before a b \<and> before b a)" for a b using irrefl trans by blast
  have "filter (before x) us = []" "filter (before x) vs = vs" "filter (\<lambda>y. before y x) us = us" "filter (\<lambda>y. before y x) vs = []"
    using u v asym by (auto simp: filter_empty_conv filter_id_conv)
  then have "filter (before x) (us @ x # vs) = vs" "filter (\<lambda>y. before y x) (us @ x # vs) = us" by (simp_all add: irrefl)
  moreover have "distinct (map ident (filter P rows))" for P using assms(1) by (simp add: distinct_map_filter)
  ultimately show "order_by before (filter (before x) rows) = vs"
      "order_by (\<lambda>x y. before y x) (filter (\<lambda>y. before y x) rows) = rev us"
    using order_filter [OF assms(1)] order_converse assms(2) by simp_all
qed

end

interpretation ring: seek_order ring_before wr_id
  by unfold_locales (auto simp: ring_before_def)

interpretation sorted_rows: seek_order "row_before asc col ident" ident
  for asc :: bool and col :: "'w \<Rightarrow> ('v :: linorder) option" and ident :: "'w \<Rightarrow> nat"
proof
  fix x y z
  show "\<not> row_before asc col ident x x" by (simp add: row_before_def split: option.split)
  show "row_before asc col ident x y \<Longrightarrow> row_before asc col ident y z \<Longrightarrow> row_before asc col ident x z"
    by (auto simp: row_before_def Let_def split: option.splits if_splits)
  show "ident x \<noteq> ident y \<Longrightarrow> row_before asc col ident x y \<or> row_before asc col ident y x"
    by (auto simp: row_before_def Let_def split: option.splits)
qed

section \<open>Sorted pages\<close>

lemma sql_simps [simp]:
  "sql_or p q = Some True \<longleftrightarrow> p = Some True \<or> q = Some True"
  "sql_and p q = Some True \<longleftrightarrow> p = Some True \<and> q = Some True"
  by (cases p; cases q; auto simp: sql_or_def sql_and_def)+

lemma seek_after_is_order:
  "work_seek_expression asc col ident ''after'' (col x) (ident x) w = Some True \<longleftrightarrow> row_before asc col ident x w"
  by (cases "col x"; cases "col w") (auto simp: work_seek_expression_def row_before_def Let_def)

lemma seek_before_is_order:
  "work_seek_expression asc col ident ''before'' (col x) (ident x) w = Some True \<longleftrightarrow> row_before asc col ident w x"
  by (cases "col x"; cases "col w") (auto simp: work_seek_expression_def row_before_def Let_def)

lemmas seek_is_order = seek_after_is_order seek_before_is_order

text \<open>C18. A cursor of a sorted page addresses the row it was made from. When the rows of a query are
  sorted by a column with \<^verbatim>\<open>NULL\<close>s last and by identity, in either direction, the page after a row
  consists of the rows that follow it and the page before it of the rows that precede it, in the same
  order, without a gap or a repetition.\<close>

theorem sorted_pages_are_adjacent:
  assumes "distinct (map ident rows)" "apply_sql_sort asc col ident False rows = us @ x # vs"
  shows "sorted_work_page asc col ident off limit (Some (''after'', col x, ident x)) rows = take (nat limit) vs \<and>
    sorted_work_page asc col ident off limit (Some (''before'', col x, ident x)) rows = drop (length us - nat limit) us"
proof -
  let ?b = "row_before asc col ident"
  have "order_by ?b rows = us @ x # vs" using assms(2) by (simp add: apply_sql_sort_def)
  note r = sorted_rows.rows_after [OF assms(1) this]
  show ?thesis
    by (simp add: sorted_work_page_def where_rows_def seek_is_order apply_sql_sort_def limit_rows_def r rev_take)
qed

section \<open>The ring\<close>

definition phase_rows :: "work_row list \<Rightarrow> int \<Rightarrow> int \<Rightarrow> work_row list" where
  "phase_rows rows start phase = order_by ring_before (filter (phase_condition start phase) rows)"

text \<open>The order in which the random pages show the rows: from the start of the ring upwards, then the
  rows below the start.\<close>

definition ring_order :: "work_row list \<Rightarrow> int \<Rightarrow> work_row list" where
  "ring_order rows start = phase_rows rows start 0 @ phase_rows rows start 1"

definition row_cursor :: "int \<Rightarrow> string \<Rightarrow> work_row \<Rightarrow> random_cursor" where
  "row_cursor start seek w =
    \<lparr>rc_seek = seek, rc_key = wr_key w, rc_identity = wr_id w, rc_phase = (if start \<le> wr_key w then 0 else 1)\<rparr>"

lemma row_cursor_simps [simp]:
  "rc_seek (row_cursor start seek w) = seek" "rc_key (row_cursor start seek w) = wr_key w"
  "rc_identity (row_cursor start seek w) = wr_id w" "rc_phase (row_cursor start seek w) = (if start \<le> wr_key w then 0 else 1)"
  by (simp_all add: row_cursor_def)

lemma ring_order_props:
  assumes "distinct (map wr_id rows)"
  shows "set (ring_order rows start) = set rows" "distinct (ring_order rows start)" "length (ring_order rows start) = length rows"
proof -
  show set: "set (ring_order rows start) = set rows" by (auto simp: ring_order_def phase_rows_def phase_condition_def)
  have sorted: "sorted_wrt ring_before (phase_rows rows start phase)" for phase
    unfolding phase_rows_def by (rule ring.sorted_order_by) (simp add: assms distinct_map_filter)
  have "distinct xs" if "sorted_wrt ring_before xs" for xs using that by (induction xs) (auto simp: ring.irrefl)
  with sorted show dist: "distinct (ring_order rows start)"
    by (auto simp: ring_order_def phase_rows_def phase_condition_def)
  show "length (ring_order rows start) = length rows"
    using set dist assms by (metis distinct_card distinct_map)
qed

lemma past_row:
  "past_boundary False (Some (row_cursor start seek x)) w \<longleftrightarrow> ring_before x w"
  "past_boundary True (Some (row_cursor start seek x)) w \<longleftrightarrow> ring_before w x"
  by (auto simp: past_boundary_def ring_before_def)

text \<open>The fetches of one phase.\<close>

lemma fetch_from_end:
  assumes "distinct (map wr_id rows)"
  shows "fetch_phase rows start phase count False off None = take (nat count) (drop off (phase_rows rows start phase))"
    "fetch_phase rows start phase count True 0 None = take (nat count) (rev (phase_rows rows start phase))"
proof -
  have none: "past_boundary r None w" for r w by (simp add: past_boundary_def)
  have "distinct (map wr_id (filter P rows))" for P using assms by (simp add: distinct_map_filter)
  then show "fetch_phase rows start phase count False off None = take (nat count) (drop off (phase_rows rows start phase))"
    "fetch_phase rows start phase count True 0 None = take (nat count) (rev (phase_rows rows start phase))"
    by (simp_all add: fetch_phase_def none limit_rows_def phase_rows_def ring.order_converse)
qed

lemma fetch_from_row:
  assumes "distinct (map wr_id rows)" "phase_rows rows start phase = us @ x # vs"
  shows "fetch_phase rows start phase count False 0 (Some (row_cursor start seek x)) = take (nat count) vs"
    "fetch_phase rows start phase count True 0 (Some (row_cursor start seek x)) = take (nat count) (rev us)"
proof -
  let ?rows = "filter (phase_condition start phase) rows"
  have dist: "distinct (map wr_id ?rows)" using assms(1) by (simp add: distinct_map_filter)
  note r = ring.rows_after [OF dist assms(2) [unfolded phase_rows_def]]
  have "filter (\<lambda>w. phase_condition start phase w \<and> P w) rows = filter P ?rows" for P by (simp add: conj_commute)
  then show "fetch_phase rows start phase count False 0 (Some (row_cursor start seek x)) = take (nat count) vs"
    "fetch_phase rows start phase count True 0 (Some (row_cursor start seek x)) = take (nat count) (rev us)"
    using r by (simp_all only: fetch_phase_def past_row limit_rows_def if_True if_False drop_0) simp_all
qed

text \<open>A page that is filled up from the next phase.\<close>

lemma take_filled:
  "(if int (length (take (nat limit) xs)) < limit then take (nat limit) xs @ take (nat (limit - int (length (take (nat limit) xs)))) ys
    else take (nat limit) xs) = take (nat limit) (xs @ ys)"
proof (cases "int (length xs) < limit")
  case True
  then have "nat (limit - int (length xs)) = nat limit - length xs" "length xs \<le> nat limit" by auto
  with True show ?thesis by simp
next
  case False
  then have "nat limit \<le> length xs" by linarith
  then show ?thesis by simp
qed

abbreviation sql_fetch :: "work_row list \<Rightarrow> int \<Rightarrow> int \<Rightarrow> int \<Rightarrow> bool \<Rightarrow> random_cursor option \<Rightarrow> page_error + work_row list" where
  "sql_fetch rows start \<equiv> (\<lambda>phase count reverse boundary. Inr (fetch_phase rows start phase count reverse 0 boundary))"

lemma ring_split:
  assumes "distinct (map wr_id rows)" "ring_order rows start = us @ x # vs"
  shows "if start \<le> wr_key x then \<exists>v0. phase_rows rows start 0 = us @ x # v0 \<and> vs = v0 @ phase_rows rows start 1
    else \<exists>u1. phase_rows rows start 1 = u1 @ x # vs \<and> us = phase_rows rows start 0 @ u1"
proof -
  have in0: "w \<in> set (phase_rows rows start 0) \<Longrightarrow> start \<le> wr_key w" for w by (simp add: phase_rows_def phase_condition_def)
  have in1: "w \<in> set (phase_rows rows start 1) \<Longrightarrow> wr_key w < start" for w by (simp add: phase_rows_def phase_condition_def)
  have "phase_rows rows start 0 @ phase_rows rows start 1 = us @ x # vs" using assms(2) by (simp add: ring_order_def)
  then consider zs where "phase_rows rows start 0 = us @ zs" "zs @ phase_rows rows start 1 = x # vs"
    | zs where "us = phase_rows rows start 0 @ zs" "phase_rows rows start 1 = zs @ x # vs"
    by (auto simp: append_eq_append_conv2)
  then show ?thesis
  proof cases
    case 1
    show ?thesis
    proof (cases zs)
      case Nil
      then have "phase_rows rows start 1 = x # vs" using 1 by simp
      moreover from this have "wr_key x < start" using in1 [of x] by simp
      ultimately show ?thesis using 1 Nil by (auto intro!: exI [of _ "[]"])
    next
      case (Cons z zs')
      then have "phase_rows rows start 0 = us @ x # zs'" "vs = zs' @ phase_rows rows start 1" using 1 by auto
      moreover from this have "start \<le> wr_key x" using in0 [of x] by simp
      ultimately show ?thesis by simp
    qed
  next
    case 2
    then have "wr_key x < start" using in1 [of x] by simp
    with 2 show ?thesis by simp
  qed
qed

lemma cursor_page_filled:
  assumes "fetch (rc_phase b) limit (rc_seek b = ''before'') (Some b) = Inr (take (nat limit) xs)"
    and "\<And>count. adjacent_phase (rc_seek b = ''before'') (rc_phase b) = Some phase \<and>
      fetch phase count (rc_seek b = ''before'') None = Inr (take (nat count) ys)"
  shows "cursor_page fetch limit b = Inr (if rc_seek b = ''before'' then rev (take (nat limit) (xs @ ys)) else take (nat limit) (xs @ ys))"
proof -
  have "cursor_page fetch limit b = Inr (let page = if int (length (take (nat limit) xs)) < limit
        then take (nat limit) xs @ take (nat (limit - int (length (take (nat limit) xs)))) ys else take (nat limit) xs
      in if rc_seek b = ''before'' then rev page else page)"
    using assms by (cases "rc_seek b = ''before''") (simp_all add: cursor_page_def Let_def)
  then show ?thesis unfolding take_filled Let_def .
qed

lemma cursor_page_single:
  assumes "fetch (rc_phase b) limit (rc_seek b = ''before'') (Some b) = Inr xs" "adjacent_phase (rc_seek b = ''before'') (rc_phase b) = None"
  shows "cursor_page fetch limit b = Inr (if rc_seek b = ''before'' then rev xs else xs)"
  using assms by (cases "rc_seek b = ''before''") (simp_all add: cursor_page_def)

lemma cursor_page_after:
  assumes "distinct (map wr_id rows)" "ring_order rows start = us @ x # vs"
  shows "cursor_page (sql_fetch rows start) limit (row_cursor start ''after'' x) = Inr (take (nat limit) vs)"
proof (cases "start \<le> wr_key x")
  case True
  then obtain v0 where v0: "phase_rows rows start 0 = us @ x # v0" "vs = v0 @ phase_rows rows start 1"
    using ring_split [OF assms] by auto
  show ?thesis
    using True v0(2) cursor_page_filled [of "sql_fetch rows start" "row_cursor start ''after'' x" limit v0 1 "phase_rows rows start 1"]
    by (simp add: adjacent_phase_def fetch_from_row [OF assms(1) v0(1)] fetch_from_end [OF assms(1)])
next
  case False
  then obtain u1 where u1: "phase_rows rows start 1 = u1 @ x # vs" using ring_split [OF assms] by auto
  show ?thesis using False cursor_page_single [of "sql_fetch rows start" "row_cursor start ''after'' x" limit "take (nat limit) vs"]
    by (simp add: adjacent_phase_def fetch_from_row [OF assms(1) u1])
qed

lemma cursor_page_before:
  assumes "distinct (map wr_id rows)" "ring_order rows start = us @ x # vs"
  shows "cursor_page (sql_fetch rows start) limit (row_cursor start ''before'' x) = Inr (drop (length us - nat limit) us)"
proof (cases "start \<le> wr_key x")
  case True
  then obtain v0 where v0: "phase_rows rows start 0 = us @ x # v0" using ring_split [OF assms] by auto
  show ?thesis using True cursor_page_single [of "sql_fetch rows start" "row_cursor start ''before'' x" limit "take (nat limit) (rev us)"]
    by (simp add: adjacent_phase_def fetch_from_row [OF assms(1) v0(1)] rev_take)
next
  case False
  then obtain u1 where u1: "phase_rows rows start 1 = u1 @ x # vs" "us = phase_rows rows start 0 @ u1" using ring_split [OF assms] by auto
  have "cursor_page (sql_fetch rows start) limit (row_cursor start ''before'' x) =
      Inr (rev (take (nat limit) (rev u1 @ rev (phase_rows rows start 0))))"
    using False cursor_page_filled [of "sql_fetch rows start" "row_cursor start ''before'' x" limit "rev u1" 0 "rev (phase_rows rows start 0)"]
    by (simp add: adjacent_phase_def fetch_from_row [OF assms(1) u1(1)] fetch_from_end [OF assms(1)])
  moreover have "rev u1 @ rev (phase_rows rows start 0) = rev us" using u1(2) by simp
  ultimately show ?thesis by (simp only: rev_take rev_rev_ident length_rev)
qed

lemma offset_page:
  assumes "distinct (map wr_id rows)" "shuffle_ring_start blake seed = Inr start" "\<not> truthy_text cursor"
  shows "fetch_random_work_page H blake rows q offset limit sfw cursor seed = Inr (take (nat limit) (drop offset (ring_order rows start)))"
proof -
  have no: "cursor = None \<or> cursor = Some []" using assms(3) by (auto simp: truthy_text_def)
  let ?Z = "phase_rows rows start 0"
  have "distinct (filter (phase_condition start 0) rows)" using assms(1) by (simp add: distinct_map)
  from distinct_card [OF this] distinct_card [of ?Z] ring_order_props(2) [OF assms(1), of start]
  have len: "length (filter (phase_condition start 0) rows) = length ?Z" by (simp add: ring_order_def phase_rows_def)
  show ?thesis
  proof (cases "offset \<noteq> 0 \<and> length ?Z \<le> offset")
    case True
    then have "fetch_random_work_page H blake rows q offset limit sfw cursor seed = Inr (fetch_phase rows start 1 limit False (offset - length ?Z) None)"
      using no assms(2) len by (auto simp: fetch_random_work_page_def Let_def)
    then show ?thesis using True by (simp add: fetch_from_end [OF assms(1)] ring_order_def)
  next
    case False
    let ?page = "fetch_phase rows start 0 limit False offset None"
    have "fetch_random_work_page H blake rows q offset limit sfw cursor seed =
        Inr (if int (length ?page) < limit then ?page @ fetch_phase rows start 1 (limit - int (length ?page)) False 0 None else ?page)"
      using no assms(2) len False by (auto simp: fetch_random_work_page_def Let_def)
    also have "\<dots> = Inr (take (nat limit) (drop offset ?Z @ phase_rows rows start 1))"
      unfolding fetch_from_end(1) [OF assms(1)] drop_0 take_filled ..
    also have "drop offset ?Z @ phase_rows rows start 1 = drop offset (ring_order rows start)"
      using False by (auto simp: ring_order_def)
    finally show ?thesis .
  qed
qed

section \<open>Cursors\<close>

lemma ring_size: "SHUFFLE_RING_SIZE = 2 ^ 63"
  by (simp add: SHUFFLE_RING_SIZE_def)

lemma map_of_dict: "distinct (map fst kvs) \<Longrightarrow> map_of (dict_of kvs) = map_of kvs"
proof -
  assume d: "distinct (map fst kvs)"
  then have "distinct (map fst (rev kvs))" by (simp add: rev_map [symmetric])
  then have "map_of (rev kvs) = map_of kvs" using d map_of_inject_set by (metis set_rev)
  then show ?thesis by (simp add: map_of_dict_of fun_eq_iff)
qed

lemma payload_denoted:
  "denoted (JObj (random_cursor_payload H q w seek sfw seed phase)) = JObj (dict_of (random_cursor_payload H q w seek sfw seed phase))"
  by (simp add: random_cursor_payload_def)

lemma payload_get:
  fixes H q w seek sfw seed phase
  defines "d \<equiv> dict_of (random_cursor_payload H q w seek sfw seed phase)"
  shows "dict_get_json d ''v'' = JInt 2" "dict_get_json d ''q'' = JStr (query_digest H q)" "dict_get_json d ''sfw'' = JBool sfw"
    "dict_get_json d ''sort'' = JStr ''random''" "dict_get_json d ''seed'' = JInt seed" "dict_get_json d ''phase'' = JInt phase"
    "dict_get_json d ''seek'' = JStr seek" "map_of d ''key'' = Some (JInt (wr_key w))" "map_of d ''id'' = Some (JStr (uuid_str (wr_id w)))"
proof -
  have "map_of d = map_of (random_cursor_payload H q w seek sfw seed phase)"
    unfolding d_def by (rule map_of_dict) (simp add: random_cursor_payload_def)
  then show "dict_get_json d ''v'' = JInt 2" "dict_get_json d ''q'' = JStr (query_digest H q)" "dict_get_json d ''sfw'' = JBool sfw"
    "dict_get_json d ''sort'' = JStr ''random''" "dict_get_json d ''seed'' = JInt seed" "dict_get_json d ''phase'' = JInt phase"
    "dict_get_json d ''seek'' = JStr seek" "map_of d ''key'' = Some (JInt (wr_key w))" "map_of d ''id'' = Some (JStr (uuid_str (wr_id w)))"
    by (simp_all add: dict_get_json_def random_cursor_payload_def)
qed

definition encoded :: "json \<Rightarrow> string" where
  "encoded payload = rstrip_pad (b64_encode (utf8_encode (json_dumps_ascii payload)))"

lemma decode_encoded: "decode_random_work_cursor H (encoded payload) q sfw seed = read_random_payload H q sfw seed (denoted payload)"
  by (simp add: decode_random_work_cursor_def encoded_def b64_roundtrip json_loads_bytes_def json_loads_dumps_ascii)

lemma decode_empty: "decode_random_work_cursor H [] q sfw seed = Inl PageValueError"
  by (simp add: decode_random_work_cursor_def repad_def b64_decode_def json_loads_bytes_def json_loads_def skip_ws_def)

lemma cursor_read_back:
  assumes "seek \<in> {''after'', ''before''}" "phase \<in> {0, 1}"
    and "0 \<le> wr_key w" "wr_key w < SHUFFLE_RING_SIZE" "wr_id w < 2 ^ 128"
  shows "\<exists>cursor. encode_random_work_cursor H q w seek sfw seed phase = Inr cursor \<and> cursor \<noteq> [] \<and>
    decode_random_work_cursor H cursor q sfw seed =
      Inr \<lparr>rc_seek = seek, rc_key = wr_key w, rc_identity = wr_id w, rc_phase = phase\<rparr>"
proof -
  let ?c = "encoded (JObj (random_cursor_payload H q w seek sfw seed phase))"
  have dec: "decode_random_work_cursor H ?c q sfw seed =
      Inr \<lparr>rc_seek = seek, rc_key = wr_key w, rc_identity = wr_id w, rc_phase = phase\<rparr>"
    unfolding decode_encoded payload_denoted read_random_payload_def
    using assms by (auto simp: payload_get uuid_roundtrip py_eq_def)
  moreover have "?c \<noteq> []" using dec decode_empty [of H q sfw seed] by (metis Inl_Inr_False)
  moreover have "encode_random_work_cursor H q w seek sfw seed phase = Inr ?c"
    using assms(1,2) by (auto simp: encode_random_work_cursor_def encoded_def)
  ultimately show ?thesis by blast
qed

text \<open>C21. A cursor of the random order that the code made is read back: decoding it for the same query,
  seed and visibility gives the direction, key, identity and phase it was made from, for every row of
  the ring.\<close>

theorem random_cursor_roundtrip:
  assumes "seek \<in> {''after'', ''before''}" "phase \<in> {0, 1}"
    and "0 \<le> wr_key w" "wr_key w < SHUFFLE_RING_SIZE" "wr_id w < 2 ^ 128"
  shows "\<exists>cursor. encode_random_work_cursor H q w seek sfw seed phase = Inr cursor \<and> cursor \<noteq> [] \<and>
    decode_random_work_cursor H cursor q sfw seed =
      Inr \<lparr>rc_seek = seek, rc_key = wr_key w, rc_identity = wr_id w, rc_phase = phase\<rparr>"
  by (rule cursor_read_back [OF assms])





section \<open>Walking through the pages\<close>

definition row_ok :: "work_row \<Rightarrow> bool" where
  "row_ok w \<longleftrightarrow> 0 \<le> wr_key w \<and> wr_key w < SHUFFLE_RING_SIZE \<and> wr_id w < 2 ^ 128"

lemma page_cursor_ok:
  assumes "row_ok w" "seek \<in> {''after'', ''before''}"
  shows "\<exists>c cs. page_cursor H q start sfw seed seek w = Inr (c # cs) \<and>
    decode_random_work_cursor H (c # cs) q sfw seed = Inr (row_cursor start seek w)"
proof -
  have "(if start \<le> wr_key w then 0 else 1) \<in> {0, 1 :: int}" by simp
  from cursor_read_back [OF assms(2) this, of w H q sfw seed] assms(1) show ?thesis
    unfolding page_cursor_def row_ok_def row_cursor_def by (metis neq_Nil_conv)
qed

lemma checked_row_cursor [simp]: "checked_boundary start (row_cursor start seek w) = Inr (row_cursor start seek w)"
  by (simp add: checked_boundary_def)

lemma fetch_at_cursor:
  assumes "shuffle_ring_start blake seed = Inr start" "decode_random_work_cursor H (c # cs) q sfw seed = Inr (row_cursor start seek w)"
  shows "fetch_random_work_page H blake rows q offset limit sfw (Some (c # cs)) seed =
    cursor_page (sql_fetch rows start) limit (row_cursor start seek w)"
  using assms by (simp add: fetch_random_work_page_def)

text \<open>A client that follows the cursor of the next page until there is none; \<open>n\<close> bounds the requests.\<close>

fun walk_pages :: "nat \<Rightarrow> (string option \<Rightarrow> page_error + 'w work_page) \<Rightarrow> string option \<Rightarrow> 'w list option" where
  "walk_pages 0 load cursor = None"
| "walk_pages (Suc n) load cursor =
    (case load cursor of
       Inl _ \<Rightarrow> None
     | Inr page \<Rightarrow>
         (case pg_next page of
            None \<Rightarrow> Some (pg_items page)
          | Some c \<Rightarrow> map_option ((@) (pg_items page)) (walk_pages n load (Some c))))"

lemma page_cursors_next:
  assumes "items \<noteq> []" "\<forall>w \<in> set items. row_ok w"
  shows "\<exists>c cs page. page_cursors H q start sfw seed has_previous Inr items = Inr page \<and> pg_items page = items \<and>
    pg_next page = Some (c # cs) \<and> decode_random_work_cursor H (c # cs) q sfw seed = Inr (row_cursor start ''after'' (last items))"
proof -
  have "row_ok (last items)" "row_ok (hd items)" using assms by simp_all
  then show ?thesis
    using page_cursor_ok [of "last items" "''after''" H q start sfw seed] page_cursor_ok [of "hd items" "''before''" H q start sfw seed] assms(1)
    by (auto simp: page_cursors_def)
qed

lemma walk_from_row:
  assumes "distinct (map wr_id rows)" "\<forall>w \<in> set rows. row_ok w" "0 < limit" "shuffle_ring_start blake seed = Inr start"
    and "ring_order rows start = us @ x # vs" "decode_random_work_cursor H (c # cs) q sfw seed = Inr (row_cursor start ''after'' x)"
    and "length vs < n"
  shows "walk_pages n (\<lambda>c. random_work_page H blake rows q 0 limit sfw c seed) (Some (c # cs)) = Some vs"
  using assms(5,6,7)
proof (induction n arbitrary: us x vs c cs)
  case (Suc n)
  have items: "fetch_random_work_page H blake rows q 0 limit sfw (Some (c # cs)) seed = Inr (take (nat limit) vs)"
    using fetch_at_cursor [OF assms(4) Suc.prems(2)] cursor_page_after [OF assms(1) Suc.prems(1)] by simp
  show ?case
  proof (cases "vs = []")
    case True
    then show ?thesis using items assms(4) by (simp add: random_work_page_def page_cursors_def)
  next
    case False
    let ?page = "take (nat limit) vs"
    have ne: "?page \<noteq> []" using False assms(3) by simp
    have "set ?page \<subseteq> set rows"
      using ring_order_props(1) [OF assms(1), of start] Suc.prems(1) set_take_subset [of "nat limit" vs] by auto
    then have "\<forall>w \<in> set ?page. row_ok w" using assms(2) by blast
    from page_cursors_next [OF ne this] obtain d ds page where p:
      "page_cursors H q start sfw seed True Inr ?page = Inr page" "pg_items page = ?page" "pg_next page = Some (d # ds)"
      "decode_random_work_cursor H (d # ds) q sfw seed = Inr (row_cursor start ''after'' (last ?page))" by blast
    have "?page = butlast ?page @ [last ?page]" using ne by simp
    then have "vs = butlast ?page @ last ?page # drop (nat limit) vs" by (metis append_Cons append_eq_append_conv2 append_take_drop_id append_Nil)
    then have "ring_order rows start = (us @ x # butlast ?page) @ last ?page # drop (nat limit) vs" using Suc.prems(1) by simp
    moreover have "length (drop (nat limit) vs) < n" using Suc.prems(3) assms(3) False by (cases vs) auto
    ultimately have "walk_pages n (\<lambda>c. random_work_page H blake rows q 0 limit sfw c seed) (Some (d # ds)) = Some (drop (nat limit) vs)"
      using Suc.IH p(4) by blast
    then show ?thesis using items assms(4) p by (simp add: random_work_page_def truthy_text_def)
  qed
qed simp

text \<open>C4. Following the cursors of the random order ends and shows every work exactly once. From the
  first page on, at most one request per work and one more return every row of the query in the order
  of the ring, without an error, a gap or a repetition, for every seed and page size. The page before
  a row consists of the rows that precede it in that order.\<close>

theorem random_walk_complete:
  assumes "distinct (map wr_id rows)" "\<forall>w \<in> set rows. row_ok w" "0 < limit" "shuffle_ring_start blake seed = Inr start" "length rows < n"
  shows "walk_pages n (\<lambda>c. random_work_page H blake rows q 0 limit sfw c seed) None = Some (ring_order rows start) \<and>
    distinct (ring_order rows start) \<and> set (ring_order rows start) = set rows \<and>
    (\<forall>us x vs. ring_order rows start = us @ x # vs \<longrightarrow>
       (\<exists>c. page_cursor H q start sfw seed ''before'' x = Inr c \<and>
          fetch_random_work_page H blake rows q off limit sfw (Some c) seed = Inr (drop (length us - nat limit) us)))"
proof -
  note ring = ring_order_props [OF assms(1), of start]
  obtain m where n: "n = Suc m" using assms(5) by (cases n) auto
  let ?ring = "ring_order rows start" and ?load = "\<lambda>c. random_work_page H blake rows q 0 limit sfw c seed"
  have items: "fetch_random_work_page H blake rows q 0 limit sfw None seed = Inr (take (nat limit) ?ring)"
    using offset_page [OF assms(1,4), of None H q 0] by (simp add: truthy_text_def)
  have walk: "walk_pages n ?load None = Some ?ring"
  proof (cases "?ring = []")
    case True
    then show ?thesis using items assms(4) n by (simp add: random_work_page_def page_cursors_def)
  next
    case False
    let ?page = "take (nat limit) ?ring"
    have ne: "?page \<noteq> []" using False assms(3) by simp
    have "\<forall>w \<in> set ?page. row_ok w" using assms(2) ring(1) by (metis in_set_takeD)
    from page_cursors_next [OF ne this] obtain d ds page where p:
      "page_cursors H q start sfw seed False Inr ?page = Inr page" "pg_items page = ?page" "pg_next page = Some (d # ds)"
      "decode_random_work_cursor H (d # ds) q sfw seed = Inr (row_cursor start ''after'' (last ?page))" by blast
    have "?page = butlast ?page @ [last ?page]" using ne by simp
    then have split: "?ring = butlast ?page @ last ?page # drop (nat limit) ?ring"
      by (metis append_Cons append_eq_append_conv2 append_take_drop_id append_Nil)
    have "length (drop (nat limit) ?ring) < m" using assms(3,5) n ring(3) False by (cases ?ring) auto
    from walk_from_row [OF assms(1-4) split p(4) this] show ?thesis
      using items assms(4) p n by (simp add: random_work_page_def truthy_text_def)
  qed
  have previous: "\<exists>c. page_cursor H q start sfw seed ''before'' x = Inr c \<and>
      fetch_random_work_page H blake rows q off limit sfw (Some c) seed = Inr (drop (length us - nat limit) us)"
    if s: "?ring = us @ x # vs" for us x vs
  proof -
    have "row_ok x" using assms(2) ring(1) s by auto
    then obtain c cs where "page_cursor H q start sfw seed ''before'' x = Inr (c # cs)"
        "decode_random_work_cursor H (c # cs) q sfw seed = Inr (row_cursor start ''before'' x)"
      using page_cursor_ok [of x "''before''"] by blast
    then show ?thesis using fetch_at_cursor [OF assms(4)] cursor_page_before [OF assms(1) s] by metis
  qed
  show ?thesis using walk ring(1,2) previous by blast
qed

section \<open>The two backends agree\<close>

text \<open>The documented meaning of a filter on a document; \<open>base\<close> is that of the filter of the query.\<close>

definition meili_compare :: "string \<Rightarrow> int \<Rightarrow> int \<Rightarrow> bool" where
  "meili_compare op v n \<longleftrightarrow>
    (if op = ''='' then v = n else if op = ''>'' then n < v else if op = ''<'' then v < n
     else if op = ''>='' then n \<le> v else op = ''<='' \<and> v \<le> n)"




subsection \<open>Parts of a key\<close>





subsection \<open>Comparisons of tuples\<close>





lemma compare_ops [simp]:
  "meili_compare ''>'' v n \<longleftrightarrow> n < v" "meili_compare ''<'' v n \<longleftrightarrow> v < n" "meili_compare ''>='' v n \<longleftrightarrow> n \<le> v"
  by (simp_all add: meili_compare_def)


subsection \<open>Documents\<close>










subsection \<open>The filter of a phase\<close>







subsection \<open>Equal pages\<close>









section \<open>Examples\<close>

definition demo_query :: search_query where
  "demo_query = \<lparr>sq_raw = ''sort:random'', sq_canonical = ''sort:random'', sq_scope = ''works'', sq_tokens = [], sq_targets = [''works'']\<rparr>"

definition demo_rows :: "work_row list" where
  "demo_rows = [\<lparr>wr_id = 7, wr_key = 5\<rparr>, \<lparr>wr_id = 3, wr_key = 9\<rparr>, \<lparr>wr_id = 4, wr_key = 1\<rparr>]"

definition demo_blake :: "string \<Rightarrow> string" where
  "demo_blake bs = [char_of (3 :: nat)]"

lemma demo_start: "shuffle_ring_start demo_blake 42 = Inr 3"
  by (simp add: shuffle_ring_start_def demo_blake_def from_bytes_def SHUFFLE_RING_SIZE_def)

lemma demo_rows_ok: "distinct (map wr_id demo_rows)" "\<forall>w \<in> set demo_rows. row_ok w"
  by (simp_all add: demo_rows_def row_ok_def ring_size)

lemma demo_ring: "ring_order demo_rows 3 = [\<lparr>wr_id = 7, wr_key = 5\<rparr>, \<lparr>wr_id = 3, wr_key = 9\<rparr>, \<lparr>wr_id = 4, wr_key = 1\<rparr>]"
  by (simp add: ring_order_def phase_rows_def phase_condition_def demo_rows_def ring_before_def)


theorem sorted_pages_are_adjacent_witness:
  "sorted_work_page True (\<lambda>n. if n = 2 then None else Some n) id 0 5 (Some (''after'', Some 3, 3)) [3, 2, 1 :: nat] = [2] \<and>
   sorted_work_page True (\<lambda>n. if n = 2 then None else Some n) id 0 5 (Some (''before'', Some 3, 3)) [3, 2, 1] = [1]"
proof -
  have "apply_sql_sort True (\<lambda>n. if n = 2 then None else Some n) id False [3, 2, 1 :: nat] = [1] @ 3 # [2]"
    by (simp add: apply_sql_sort_def row_before_def)
  from sorted_pages_are_adjacent [OF _ this, of 0 5] show ?thesis by simp
qed

theorem random_cursor_roundtrip_witness:
  "\<exists>cursor. encode_random_work_cursor id demo_query \<lparr>wr_id = 7, wr_key = 5\<rparr> ''after'' False 42 0 = Inr cursor \<and>
     decode_random_work_cursor id cursor demo_query False 42 = Inr \<lparr>rc_seek = ''after'', rc_key = 5, rc_identity = 7, rc_phase = 0\<rparr>"
  using random_cursor_roundtrip [of "''after''" 0 "\<lparr>wr_id = 7, wr_key = 5\<rparr>" id demo_query False 42] by (auto simp: ring_size)


theorem random_walk_complete_witness:
  "walk_pages 4 (\<lambda>c. random_work_page id demo_blake demo_rows demo_query 0 2 False c 42) None = Some demo_rows"
  using random_walk_complete [OF demo_rows_ok _ demo_start, of 2 4 id demo_query False 0] demo_ring by (simp add: demo_rows_def)


end
