(* ===== verification/Spec2Isabelle.thy ===== *)
theory Spec2Isabelle
  imports Task_State Gitllery_Properties Pressure_Properties Pressure_Slices Search_Properties Heavy_IO_Slots Paging_Properties
begin

text \<open>
  Verification of the backend of auto-gallery.

  \<^bold>\<open>The program.\<close> auto-gallery downloads the works of subscribed artists, imports them into a
  library and serves it to an administration front end. The backend (\<^verbatim>\<open>src/backend\<close>) consists of
  FastAPI routes, RQ jobs in worker processes, and services over PostgreSQL, Redis, Meilisearch and
  the file system. This development models the parts in which the program itself decides something
  that matters for the integrity of the data or for the safety of the host:

  \<^item> \<^bold>\<open>Task states\<close> (\<^verbatim>\<open>app/models/task_state.py\<close>). Theory \<^verbatim>\<open>Task_State\<close>: the status tables, the
    normalisation of old statuses, and \<^verbatim>\<open>_transition\<close> as \<open>transition\<close>, which every service and job
    calls to move a download or import job. The locale \<open>status_machine\<close> states what a transition table
    and its table of old names must satisfy; it is interpreted on the two tables of the source, and
    rule induction over \<open>reaches\<close> gives the invariant, the finality of cancelled jobs and the agreement
    of the status sets with the tables.

  \<^item> \<^bold>\<open>The Gitllery history\<close> (\<^verbatim>\<open>gitllery_format/repository.py\<close>). \<^verbatim>\<open>Gitllery_Segments\<close> models the
    repository directory as a record and every operation of \<^verbatim>\<open>SegmentRepository\<close> over the bytes of its
    JSON documents; \<^verbatim>\<open>Gitllery_History\<close>, \<^verbatim>\<open>Gitllery_Append\<close> and \<^verbatim>\<open>Gitllery_Repository\<close> show that frames
    reassemble, that segments form a chain and that every reachable directory (\<open>published\<close>) satisfies
    one invariant; \<^verbatim>\<open>Gitllery_Properties\<close> states the contract: what was appended is read back and
    verifies, a failed append is invisible, a clean verification means an intact history.

  \<^item> \<^bold>\<open>Resource pressure\<close> (\<^verbatim>\<open>resource_pressure_state.py\<close>, the pure parts of
    \<^verbatim>\<open>resource_pressure.py\<close>). \<^verbatim>\<open>Pressure_State\<close> is the controller: a record of its fields and one
    function per branch of \<^verbatim>\<open>update\<close>. \<^verbatim>\<open>Pressure_Properties\<close> proves its invariant along any sequence
    of observations, when critical mode may be entered and left, that it fails closed, and what a grant
    guarantees. \<^verbatim>\<open>Pressure_Budget\<close> models the idle baseline, permits, slice limits and cooldown;
    \<^verbatim>\<open>Pressure_Slices\<close> proves the invariant of the window and the bounds of a slice.

  \<^item> \<^bold>\<open>Heavy work\<close> (\<^verbatim>\<open>heavy_io.py\<close>, \<^verbatim>\<open>remote_search_flight.py\<close>). \<^verbatim>\<open>Heavy_IO\<close> models the Lua
    scripts, the keys and lock files of a workload, renewable leases, the durable marker of a remote
    search, and \<^verbatim>\<open>heavy_io_slot\<close> as \<open>enter_slot\<close> and \<open>leave_slot\<close>, with the permit of the pressure
    service as its gate. \<^verbatim>\<open>Heavy_IO_Leases\<close> shows that a lease is acquired completely or not at all and
    that granted reservations fit; \<^verbatim>\<open>Heavy_IO_Slots\<close> proves mutual exclusion over the step relation
    \<open>slot_reach\<close>, in which the server may lose everything between two steps, that the lock files
    implement exactly the compatibility of calls, the fence of a remote search, and that refusals leave
    no trace.

  \<^item> \<^bold>\<open>Search\<close> (\<^verbatim>\<open>search_language.py\<close>, \<^verbatim>\<open>source_search_identity.py\<close>). \<^verbatim>\<open>Search_Language\<close> models the
    lexer, the validation of a query against its scope, canonical text and the edits of the filter
    panel; \<^verbatim>\<open>Search_Canonical\<close> and \<^verbatim>\<open>Search_Reparse\<close> show that canonical text is read back;
    \<^verbatim>\<open>Search_Properties\<close> states the round trip, the targets of an accepted query and the effect of
    the edits.

  \<^item> \<^bold>\<open>Pages of works\<close> (\<^verbatim>\<open>search_pagination.py\<close>, and from \<^verbatim>\<open>search.py\<close> the functions
    \<^verbatim>\<open>_fetch_random_work_page\<close>, \<^verbatim>\<open>_work_seek_expression\<close>, \<^verbatim>\<open>_search_meili_random_works\<close> and the paging of
    \<^verbatim>\<open>_search_works_db\<close>). \<^verbatim>\<open>Search_Paging\<close> models the sorted pages over rows with a nullable column, the
    ring of the random order, the text of its cursors, and the Meilisearch filters as expressions.
    \<^verbatim>\<open>Paging_Properties\<close> has the locale \<open>seek_order\<close>, what an \<^verbatim>\<open>ORDER BY\<close> must satisfy for a row to
    address a page; it is interpreted on the sorted order and on the ring. It shows that pages are
    adjacent, that following cursors ends after every row was shown once, that cursors are read back
    and malformed ones refused, and that the two backends return equal pages.

  \<^bold>\<open>Foundations.\<close> \<^verbatim>\<open>Gallery_Prelude\<close> has the Python primitives; \<^verbatim>\<open>Text_Codecs\<close> has base64 and the text
  of UUIDs with their round trips; \<^verbatim>\<open>Json\<close> has JSON values, the two printers of the program and one
  parser. The locale \<open>json_printer\<close> proves the round trip once for
  every printer whose escapes are read back; it is interpreted on both.

  \<^bold>\<open>How code becomes definitions.\<close> A class is a record and a method a function that returns the
  updated record; a raise is the left side of a sum or \<open>None\<close>. A dictionary with literal keys is an
  association list. Strings have the code points up to U+00FF, floats are exact rationals, Python
  integers are \<^typ>\<open>int\<close>. What lies outside \<^verbatim>\<open>src/\<close> is an argument: the commands of Redis (with
  \<open>redis_laws\<close>), a Meilisearch index (with \<open>meili_index\<close>), SHA-256, BLAKE2b, the clock, \<^verbatim>\<open>urlparse\<close>, the settings. A hypothesis about such an argument is
  stated in the theorem that needs it, and its witness instantiates the argument.

  \<^bold>\<open>Bounds and fuel.\<close> The only fuelled function is the JSON parser: it spends one unit per nested
  call, \<open>json_loads\<close> starts with one unit more than the text has characters, and \<open>loads_print\<close> shows
  that this is enough for every printed document. \<open>walk_pages\<close> bounds the requests of a client;
  \<open>random_walk_complete\<close> shows that one request per row and one more are enough. Every other recursion has a termination proof.

  \<^bold>\<open>Not modelled.\<close> The front end (TypeScript), the routes, the database migrations and the services
  whose work is SQL (search execution, curation, operations, task lists, import and download jobs,
  offline restore): what they do is determined by the database, whose state and query semantics are
  not in the source. Providers and remote discovery talk to web sites. Sampling of \<^verbatim>\<open>/proc\<close> and
  cgroup files, publication of snapshots, waiting loops, logging and Redis connection failures are
  input and output around the modelled functions.
\<close>

end
